(* ===== verification/Prelude.thy ===== *)
theory Prelude
  imports Main "HOL-Library.Signed_Division"
begin

text \<open>
  What every component shares: Go's fixed-width integers as \<open>int\<close> with the wrap-around
  written out, the result of a handler that may also block or panic, errors as messages,
  and the lemma collections of the development.
\<close>

named_theorems go_int \<open>facts about Go's fixed-width integers\<close>
named_theorems model \<open>the equations of operations a proof evaluates\<close>

text \<open>A dash of the messages, in UTF-8 and between blanks.\<close>

definition em_dash :: string where
  "em_dash = [CHR 0x20, CHR 0xE2, CHR 0x80, CHR 0x94, CHR 0x20]"

section \<open>Fixed-width integers\<close>

text \<open>
  A Go \<open>int\<close> (64 bits on the supported platforms), \<open>int64\<close> or \<open>int32\<close> is an \<open>int\<close> in range;
  \<open>int64\<close> and \<open>int32\<close> below are the conversions, which keep the low bits and read them as
  two's complement, so an operation that may overflow is written \<open>int64 (a * b)\<close>.
\<close>

definition int64 :: "int \<Rightarrow> int" where
  "int64 x = signed_take_bit 63 x"

definition int32 :: "int \<Rightarrow> int" where
  "int32 x = signed_take_bit 31 x"

definition in_int64 :: "int \<Rightarrow> bool" where
  "in_int64 x \<longleftrightarrow> - (2 ^ 63) \<le> x \<and> x < 2 ^ 63"

definition in_int32 :: "int \<Rightarrow> bool" where
  "in_int32 x \<longleftrightarrow> - (2 ^ 31) \<le> x \<and> x < 2 ^ 31"

lemma int64_id [go_int]: "in_int64 x \<Longrightarrow> int64 x = x"
  by (simp add: int64_def in_int64_def signed_take_bit_int_eq_self)

lemma int32_id [go_int]: "in_int32 x \<Longrightarrow> int32 x = x"
  by (simp add: int32_def in_int32_def signed_take_bit_int_eq_self)

lemma int64_range [go_int]: "in_int64 (int64 x)"
  using signed_take_bit_int_less_exp[of 63 x] signed_take_bit_int_greater_eq_minus_exp[of 63 x]
  by (simp add: int64_def in_int64_def)

lemma int32_range [go_int]: "in_int32 (int32 x)"
  using signed_take_bit_int_less_exp[of 31 x] signed_take_bit_int_greater_eq_minus_exp[of 31 x]
  by (simp add: int32_def in_int32_def)

lemma in_int32_int64 [go_int]: "in_int32 x \<Longrightarrow> in_int64 x"
  by (simp add: in_int32_def in_int64_def)

text \<open>Go's integer division truncates towards zero; on non-negative operands it is \<open>div\<close>.\<close>

lemma sdiv_nonneg [go_int]: "0 \<le> a \<Longrightarrow> 0 < b \<Longrightarrow> (a::int) sdiv b = a div b"
  by (simp add: signed_divide_int_def sgn_if)

section \<open>Errors and handler outcomes\<close>

text \<open>
  A Go \<open>error\<close> is its message. A call that returns is \<open>Done\<close>; \<open>Panicked\<close> is a run-time panic;
  \<open>Waiting\<close> is a goroutine still blocked in a \<open>select\<close> when the modelled events run out.
\<close>

type_synonym go_error = string

datatype 'a outcome = Done 'a | Panicked string | Waiting

end
