(* ===== verification/Limiter.thy ===== *)
theory Limiter
  imports Prelude "HOL-Library.Multiset"
begin

text \<open>
  \<open>services/core/limiter/limiter.go\<close>: the requests, decisions and the limiter interface, and the
  two interfaces the limiters have on the store, as records of functions over any state \<open>'s\<close>.
  The locales state what a limiter relies on and what a pipeline relies on: the slots a process
  holds, as the multiset \<open>held\<close>, change only as the answers say.
\<close>

section \<open>Requests and decisions\<close>

datatype Action = ALLOW | REJECT_429 | REJECT_503 | SHADOW_LOG | QUEUE

datatype Priority = Sheddable | Critical

record token_reservation =
  res_Key :: string
  res_Token :: string

record decision =
  Action :: Action
  RetryAfterMs :: int
  Reservations :: "token_reservation list"
  Tier :: string
  Limit :: int
  Remaining :: int

text \<open>Go's zero value of a decision: the zero action is \<open>ALLOW\<close>.\<close>

definition decision0 :: decision where
  "decision0 = \<lparr>Action = ALLOW, RetryAfterMs = 0, Reservations = [], Tier = '''', Limit = 0, Remaining = 0\<rparr>"

record request =
  Key :: string
  Cost :: int
  SkipReservations :: bool
  Priority :: Priority

text \<open>
  A \<open>Check\<close> returns a decision and perhaps an error, or panics, or is still waiting; the state is
  what the process and the store have become.
\<close>

type_synonym answer = "(decision \<times> go_error option) outcome"
type_synonym 's limiter = "request \<Rightarrow> 's \<Rightarrow> answer \<times> 's"

definition reservation :: "string \<Rightarrow> string \<Rightarrow> token_reservation" where
  "reservation k t = \<lparr>res_Key = k, res_Token = t\<rparr>"

section \<open>The store as the limiters see it\<close>

text \<open>Which channel a \<open>select\<close> of the poll loop received from.\<close>

datatype sel_event = CtxDone go_error | DeadlineC | TickerC

record 's rate_store =
  check_and_decrement :: "string \<Rightarrow> int \<Rightarrow> int \<Rightarrow> int \<Rightarrow> 's \<Rightarrow> (go_error + bool \<times> int \<times> int) \<times> 's"
  record_fail_open :: "string \<Rightarrow> string \<Rightarrow> 's \<Rightarrow> 's"

record 's slot_store =
  incr_concurrent :: "string \<Rightarrow> int \<Rightarrow> int \<Rightarrow> 's \<Rightarrow> (go_error + bool \<times> string) \<times> 's"
  decr_concurrent :: "string \<Rightarrow> string \<Rightarrow> 's \<Rightarrow> go_error option \<times> 's"
  await_events :: "'s \<Rightarrow> sel_event list \<times> 's"

section \<open>The ledger of slots\<close>

fun slot_of :: "token_reservation \<Rightarrow> string \<times> string" where
  "slot_of r = (res_Key r, res_Token r)"

text \<open>A reservation with the empty token, the store's answer to a refusal, holds nothing.\<close>

definition slots_of :: "decision \<Rightarrow> (string \<times> string) multiset" where
  "slots_of d = mset (filter (\<lambda>(k, t). t \<noteq> '''') (map slot_of (Reservations d)))"

lemma slots_of_simps [simp]:
  "slots_of decision0 = {#}"
  "slots_of \<lparr>Action = a, RetryAfterMs = r, Reservations = [], Tier = t, Limit = l, Remaining = m\<rparr> = {#}"
  "slots_of \<lparr>Action = a, RetryAfterMs = r, Reservations = [reservation k tk], Tier = t, Limit = l, Remaining = m\<rparr>
    = (if tk = '''' then {#} else {#(k, tk)#})"
  by (simp_all add: slots_of_def decision0_def reservation_def)

text \<open>
  What an answer says the process holds, compared with before: the reservations of its decision,
  nothing after a panic.  A goroutine that has not returned says nothing.
\<close>

fun accounted :: "answer \<Rightarrow> (string \<times> string) multiset \<Rightarrow> (string \<times> string) multiset \<Rightarrow> bool" where
  "accounted (Done (d, _)) before after \<longleftrightarrow> after = before + slots_of d"
| "accounted (Panicked _) before after \<longleftrightarrow> after = before"
| "accounted Waiting before after \<longleftrightarrow> True"

text \<open>Ledgers of a store of slots: a grant enters, a refusal, an error or waiting does not.\<close>

locale slot_grants =
  fixes S :: "'s slot_store" and held :: "'s \<Rightarrow> (string \<times> string) multiset"
  assumes incr_grant: "incr_concurrent S k c d s = (Inr (True, t), s') \<Longrightarrow>
      t \<noteq> '''' \<and> held s' = held s + {#(k, t)#}"
    and incr_refuse: "incr_concurrent S k c d s = (Inr (False, t), s') \<Longrightarrow> t = '''' \<and> held s' = held s"
    and incr_error: "incr_concurrent S k c d s = (Inl e, s') \<Longrightarrow> held s' = held s"
    and await_ledger: "await_events S s = (es, s') \<Longrightarrow> held s' = held s"

text \<open>The ledger of what a process still answers for: a slot leaves it when its release is asked for.\<close>

locale slot_ledger = slot_grants S held for S :: "'s slot_store" and held +
  assumes decr_release: "decr_concurrent S k t s = (x, s') \<Longrightarrow> held s' = held s - {#(k, t)#}"

text \<open>The ledger of granted slots that may still be taken: a slot leaves it only by a release that succeeds.\<close>

locale taken_ledger = slot_grants S held for S :: "'s slot_store" and held +
  assumes decr_taken: "decr_concurrent S k t s = (x, s') \<Longrightarrow>
    held s' = (case x of None \<Rightarrow> held s - {#(k, t)#} | Some e \<Rightarrow> held s)"

text \<open>The same ledger seen by the token bucket, which never moves it.\<close>

locale rate_ledger =
  fixes T :: "'s rate_store" and held :: "'s \<Rightarrow> (string \<times> string) multiset"
  assumes check_ledger: "check_and_decrement T k r b c s = (x, s') \<Longrightarrow> held s' = held s"
    and fail_open_ledger [simp]: "held (record_fail_open T tier why s) = held s"

text \<open>The contract of a tier: the reservations of its decision are what it has come to hold.\<close>

locale accounted_tiers =
  fixes tiers :: "'s limiter list" and held :: "'s \<Rightarrow> (string \<times> string) multiset"
  assumes tier_accounted: "t \<in> set tiers \<Longrightarrow> t req s = (a, s') \<Longrightarrow> accounted a (held s) (held s')"

end
