(* ===== verification/TokenBucket.thy ===== *)
theory TokenBucket
  imports Limiter
begin

text \<open>
  \<open>services/core/limiter/tokenbucket.go\<close>, Tier 1.  The mutex makes \<open>Reconfigure\<close>, \<open>SetRate\<close> and the
  reads atomic: a \<open>Check\<close> works on the configuration it read at its start.
\<close>

record token_bucket_limiter =
  tb_rate :: int
  tb_burst :: int
  tb_shadowMode :: bool

definition NewTokenBucketLimiter :: "int \<Rightarrow> int \<Rightarrow> bool \<Rightarrow> token_bucket_limiter" where
  "NewTokenBucketLimiter rate burst shadowMode = \<lparr>tb_rate = rate, tb_burst = burst, tb_shadowMode = shadowMode\<rparr>"

definition tb_Reconfigure :: "int \<Rightarrow> int \<Rightarrow> bool \<Rightarrow> token_bucket_limiter \<Rightarrow> token_bucket_limiter" where
  "tb_Reconfigure rate burst shadowMode l = l\<lparr>tb_rate := rate, tb_burst := burst, tb_shadowMode := shadowMode\<rparr>"

definition SetRate :: "int \<Rightarrow> token_bucket_limiter \<Rightarrow> int \<times> token_bucket_limiter" where
  "SetRate rate l = (let previous = tb_rate l in (previous, l\<lparr>tb_rate := rate\<rparr>))"

definition Burst :: "token_bucket_limiter \<Rightarrow> int" where
  "Burst l = tb_burst l"

definition tb_Check :: "'s rate_store \<Rightarrow> token_bucket_limiter \<Rightarrow> 's limiter" where
  "tb_Check T l req s =
    (let rate = tb_rate l; burst = tb_burst l; shadowMode = tb_shadowMode l
     in case check_and_decrement T (Key req) rate burst (Cost req) s of
       (Inl err, s1) \<Rightarrow>
         (Done (decision0\<lparr>Action := ALLOW, Tier := ''rate_limiter''\<rparr>, None),
          record_fail_open T ''rate_limiter'' ''store_error'' s1)
     | (Inr (allowed, retryAfterMs, remaining), s1) \<Rightarrow>
         (if allowed then
            (Done (decision0\<lparr>Action := ALLOW, Tier := ''rate_limiter'', Limit := burst, Remaining := remaining\<rparr>, None), s1)
          else if shadowMode then
            (Done (decision0\<lparr>Action := SHADOW_LOG, RetryAfterMs := retryAfterMs, Tier := ''rate_limiter'',
               Limit := burst, Remaining := remaining\<rparr>, None), s1)
          else
            (Done (decision0\<lparr>Action := REJECT_429, RetryAfterMs := retryAfterMs, Tier := ''rate_limiter'',
               Limit := burst, Remaining := remaining\<rparr>, None), s1)))"

lemma Reservations_update0 [simp]: "Reservations (decision0) = []"
  by (simp add: decision0_def)

lemma tb_Check_returns: "\<exists>d s'. tb_Check T l req s = (Done (d, None), s') \<and> Reservations d = []"
  by (auto simp: tb_Check_def Let_def decision0_def split: sum.splits prod.splits)

lemma tb_Check_action:
  "tb_Check T l req s = (Done (d, e), s') \<Longrightarrow> Action d \<in> {ALLOW, SHADOW_LOG, REJECT_429} \<and> Tier d = ''rate_limiter''"
  by (auto simp: tb_Check_def Let_def decision0_def split: sum.splits prod.splits if_splits)

context rate_ledger
begin

lemma tb_accounted: "tb_Check T l req s = (a, s') \<Longrightarrow> accounted a (held s) (held s')"
  by (auto simp: tb_Check_def Let_def slots_of_def decision0_def dest: check_ledger
      split: sum.splits prod.splits if_splits)

end

end
