(* ===== verification/Concurrency.thy ===== *)
theory Concurrency
  imports Limiter
begin

text \<open>
  \<open>services/core/limiter/concurrency.go\<close>, Tier 2: slots per key, with an optional bounded queue in
  front.  The poll loop is a recursion over the channels its \<open>select\<close> receives from; when these run
  out it is still waiting.  In which order the ticker, the deadline and the end of the context fire is
  up to these events, any order: that \<open>maxQueueWaitMs\<close> sets the deadline is not expressed.  A deferred
  release runs on every return and on a panic.
\<close>

definition unboundedCap :: int where "unboundedCap = 2 ^ 31 - 1"

definition backlogKeyPrefix :: string where "backlogKeyPrefix = ''backlog:''"

record concurrency_limiter =
  cl_cap :: int
  cl_maxDurationMs :: int
  cl_shadowMode :: bool
  cl_queueingEnabled :: bool
  cl_maxBacklog :: int
  cl_maxQueueWaitMs :: int
  cl_pollIntervalMs :: int

definition NewConcurrencyLimiter ::
  "int \<Rightarrow> int \<Rightarrow> bool \<Rightarrow> bool \<Rightarrow> int \<Rightarrow> int \<Rightarrow> int \<Rightarrow> concurrency_limiter" where
  "NewConcurrencyLimiter cap maxDurationMs shadowMode queueingEnabled maxBacklog maxQueueWaitMs pollIntervalMs =
    \<lparr>cl_cap = cap, cl_maxDurationMs = maxDurationMs, cl_shadowMode = shadowMode,
     cl_queueingEnabled = queueingEnabled, cl_maxBacklog = maxBacklog,
     cl_maxQueueWaitMs = maxQueueWaitMs, cl_pollIntervalMs = pollIntervalMs\<rparr>"

definition cl_Reconfigure ::
  "int \<Rightarrow> int \<Rightarrow> bool \<Rightarrow> bool \<Rightarrow> int \<Rightarrow> int \<Rightarrow> int \<Rightarrow> concurrency_limiter \<Rightarrow> concurrency_limiter" where
  "cl_Reconfigure cap maxDurationMs shadowMode queueingEnabled maxBacklog maxQueueWaitMs pollIntervalMs l =
    l\<lparr>cl_cap := cap, cl_maxDurationMs := maxDurationMs, cl_shadowMode := shadowMode,
      cl_queueingEnabled := queueingEnabled, cl_maxBacklog := maxBacklog,
      cl_maxQueueWaitMs := maxQueueWaitMs, cl_pollIntervalMs := pollIntervalMs\<rparr>"

text \<open>\<open>time.Duration(ms) * time.Millisecond\<close>, in nanoseconds.\<close>

definition millis :: "int \<Rightarrow> int" where
  "millis ms = int64 (ms * 1000000)"

definition concurrency_reject :: "int \<Rightarrow> decision" where
  "concurrency_reject maxDurationMs =
    decision0\<lparr>Action := REJECT_429, RetryAfterMs := maxDurationMs, Tier := ''concurrency_limiter''\<rparr>"

definition concurrency_grant :: "Action \<Rightarrow> string \<Rightarrow> string \<Rightarrow> decision" where
  "concurrency_grant a key token =
    decision0\<lparr>Action := a, Reservations := [reservation key token], Tier := ''concurrency_limiter''\<rparr>"

fun poll_loop :: "'s slot_store \<Rightarrow> string \<Rightarrow> int \<Rightarrow> int \<Rightarrow> sel_event list \<Rightarrow> 's \<Rightarrow> answer \<times> 's" where
  "poll_loop S key cap maxDurationMs [] s = (Waiting, s)"
| "poll_loop S key cap maxDurationMs (CtxDone err # evs) s = (Done (decision0, Some err), s)"
| "poll_loop S key cap maxDurationMs (DeadlineC # evs) s = (Done (concurrency_reject maxDurationMs, None), s)"
| "poll_loop S key cap maxDurationMs (TickerC # evs) s =
    (case incr_concurrent S key cap maxDurationMs s of
       (Inl err, s1) \<Rightarrow> (Done (decision0, Some err), s1)
     | (Inr (allowed, token), s1) \<Rightarrow>
         (if allowed then (Done (concurrency_grant QUEUE key token, None), s1)
          else poll_loop S key cap maxDurationMs evs s1))"

definition pollUntilAllowedOrDeadline ::
  "'s slot_store \<Rightarrow> request \<Rightarrow> int \<Rightarrow> int \<Rightarrow> int \<Rightarrow> int \<Rightarrow> 's \<Rightarrow> answer \<times> 's" where
  "pollUntilAllowedOrDeadline S req cap maxDurationMs maxQueueWaitMs pollIntervalMs s =
    (if millis pollIntervalMs \<le> 0 then (Panicked ''non-positive interval for NewTicker'', s)
     else (let (evs, s1) = await_events S s in poll_loop S (Key req) cap maxDurationMs evs s1))"

definition acquireBacklogSlot ::
  "'s slot_store \<Rightarrow> string \<Rightarrow> int \<Rightarrow> int \<Rightarrow> 's \<Rightarrow> (go_error + bool \<times> string) \<times> 's" where
  "acquireBacklogSlot S key maxBacklog maxQueueWaitMs s =
    incr_concurrent S (backlogKeyPrefix @ key) maxBacklog maxQueueWaitMs s"

definition with_deferred :: "('s \<Rightarrow> 's) \<Rightarrow> answer \<times> 's \<Rightarrow> answer \<times> 's" where
  "with_deferred f r = (case r of (Waiting, s) \<Rightarrow> (Waiting, s) | (a, s) \<Rightarrow> (a, f s))"

definition cl_Check :: "'s slot_store \<Rightarrow> concurrency_limiter \<Rightarrow> 's limiter" where
  "cl_Check S l req s =
    (if SkipReservations req then (Done (decision0\<lparr>Action := ALLOW\<rparr>, None), s)
     else
      (let cap = cl_cap l; maxDurationMs = cl_maxDurationMs l; key = Key req
       in case incr_concurrent S key cap maxDurationMs s of
         (Inl err, s1) \<Rightarrow> (Done (decision0, Some err), s1)
       | (Inr (allowed, token), s1) \<Rightarrow>
         (if allowed then (Done (concurrency_grant ALLOW key token, None), s1)
          else if cl_shadowMode l then
            (case incr_concurrent S key unboundedCap maxDurationMs s1 of
               (Inl err, s2) \<Rightarrow> (Done (decision0, Some err), s2)
             | (Inr (_, reservedToken), s2) \<Rightarrow> (Done (concurrency_grant SHADOW_LOG key reservedToken, None), s2))
          else if \<not> cl_queueingEnabled l then (Done (concurrency_reject maxDurationMs, None), s1)
          else
            (case acquireBacklogSlot S key (cl_maxBacklog l) (cl_maxQueueWaitMs l) s1 of
               (Inl err, s2) \<Rightarrow> (Done (decision0, Some err), s2)
             | (Inr (backlogAllowed, backlogToken), s2) \<Rightarrow>
               (if \<not> backlogAllowed then (Done (concurrency_reject maxDurationMs, None), s2)
                else with_deferred (\<lambda>s. snd (decr_concurrent S (backlogKeyPrefix @ key) backlogToken s))
                  (pollUntilAllowedOrDeadline S req cap maxDurationMs (cl_maxQueueWaitMs l)
                     (cl_pollIntervalMs l) s2))))))"

section \<open>The ledger\<close>

lemma slots_of_answers [simp]:
  "slots_of (decision0\<lparr>Action := a\<rparr>) = {#}" "slots_of (concurrency_reject d) = {#}"
  "slots_of (concurrency_grant a k t) = (if t = '''' then {#} else {#(k, t)#})"
  by (simp_all add: slots_of_def decision0_def concurrency_reject_def concurrency_grant_def reservation_def)

context slot_grants
begin

lemma incr_ledger:
  "incr_concurrent S k c d s = (Inr (b, t), s') \<Longrightarrow>
    (b \<longleftrightarrow> t \<noteq> '''') \<and> held s' = held s + (if b then {#(k, t)#} else {#})"
  by (cases b) (auto dest: incr_grant incr_refuse)

lemmas ledger_rules = incr_error incr_ledger

lemma poll_loop_accounted:
  "poll_loop S k c d evs s = (a, s') \<Longrightarrow> accounted a (held s) (held s') \<and> (a = Waiting \<longrightarrow> held s' = held s)"
proof (induction evs arbitrary: s)
  case (Cons ev evs)
  then show ?case
    by (cases ev) (fastforce dest!: ledger_rules split: sum.splits prod.splits if_splits)+
qed simp

lemma poll_accounted:
  "pollUntilAllowedOrDeadline S req c d w p s = (a, s') \<Longrightarrow>
    accounted a (held s) (held s') \<and> (a = Waiting \<longrightarrow> held s' = held s)"
  using poll_loop_accounted[of "Key req" c d] await_ledger
  by (fastforce simp: pollUntilAllowedOrDeadline_def Let_def split: prod.splits if_splits)

end

context slot_ledger
begin

lemma queue_accounted:
  assumes "held s1 = add_mset (bk, t) (held s)"
    and "with_deferred (\<lambda>s. snd (decr_concurrent S bk t s)) (pollUntilAllowedOrDeadline S req c d w p s1) = (a, s')"
  shows "accounted a (held s) (held s')"
proof -
  obtain a1 s2 where p: "pollUntilAllowedOrDeadline S req c d w p s1 = (a1, s2)" by fastforce
  have "held (snd (decr_concurrent S bk t s2)) = held s2 - {#(bk, t)#}"
    by (metis decr_release prod.collapse)
  then show ?thesis
    using poll_accounted[OF p] assms p by (cases a1) (auto simp: with_deferred_def)
qed

lemma cl_accounted:
  assumes "cl_Check S l req s = (a, s')" shows "accounted a (held s) (held s')"
  using assms
  by (auto simp: cl_Check_def Let_def acquireBacklogSlot_def intro: queue_accounted dest!: ledger_rules
      split: if_splits sum.splits prod.splits)

end

end
