(* ===== verification/GoStrings.thy ===== *)
theory GoStrings
  imports Prelude
begin

text \<open>
  The functions of Go's \<open>strings\<close> and \<open>strconv\<close> the services use, on strings as byte lists.
\<close>

section \<open>Cutting and splitting\<close>

text \<open>\<open>strings.Cut\<close> with a separator of one byte: before, after, found.\<close>

fun Cut :: "string \<Rightarrow> char \<Rightarrow> string \<times> string \<times> bool" where
  "Cut [] sep = ([], [], False)"
| "Cut (c # s) sep =
    (if c = sep then ([], s, True)
     else (let (before, after, found) = Cut s sep in (c # before, after, found)))"

lemma Cut_append: "sep \<notin> set u \<Longrightarrow> Cut (u @ sep # v) sep = (u, v, True)"
  by (induction u) auto

lemma Cut_found: "Cut s sep = (u, v, True) \<Longrightarrow> s = u @ sep # v \<and> sep \<notin> set u"
  by (induction s arbitrary: u) (auto split: if_splits prod.splits)

lemma Cut_absent: "Cut s sep = (u, v, False) \<Longrightarrow> u = s \<and> v = [] \<and> sep \<notin> set s"
  by (induction s arbitrary: u) (auto split: if_splits prod.splits)

text \<open>\<open>strings.LastIndex\<close> followed by a slice: what stands after the last separator, if any.\<close>

fun after_last :: "string \<Rightarrow> char \<Rightarrow> string option" where
  "after_last [] sep = None"
| "after_last (c # s) sep =
    (case after_last s sep of Some t \<Rightarrow> Some t | None \<Rightarrow> if c = sep then Some s else None)"

lemma after_last_None: "after_last s sep = None \<longleftrightarrow> sep \<notin> set s"
  by (induction s) (auto split: option.splits)

lemma after_last_append: "sep \<notin> set v \<Longrightarrow> after_last (u @ sep # v) sep = Some v"
proof (induction u)
  case Nil
  then have "after_last v sep = None" by (simp add: after_last_None)
  then show ?case by simp
qed simp

text \<open>\<open>strings.Split\<close> with a separator of one byte: never empty.\<close>

fun Split :: "string \<Rightarrow> char \<Rightarrow> string list" where
  "Split [] sep = [[]]"
| "Split (c # s) sep =
    (if c = sep then [] # Split s sep
     else (case Split s sep of [] \<Rightarrow> [[c]] | p # ps \<Rightarrow> (c # p) # ps))"

lemma Split_nonempty [simp]: "Split s sep \<noteq> []"
  by (induction s) (auto split: list.splits)

lemma Split_no_sep: "p \<in> set (Split s sep) \<Longrightarrow> sep \<notin> set p"
  by (induction s arbitrary: p) (auto split: list.splits if_splits)

definition TrimPrefix :: "string \<Rightarrow> string \<Rightarrow> string" where
  "TrimPrefix s prefix = (if take (length prefix) s = prefix then drop (length prefix) s else s)"

definition HasPrefix :: "string \<Rightarrow> string \<Rightarrow> bool" where
  "HasPrefix s prefix \<longleftrightarrow> take (length prefix) s = prefix"

lemma TrimPrefix_append [simp]: "TrimPrefix (p @ s) p = s"
  by (simp add: TrimPrefix_def)

section \<open>White space\<close>

text \<open>The encodings of the runes for which \<open>unicode.IsSpace\<close> holds.\<close>

definition byte :: "nat \<Rightarrow> char" where "byte n = char_of n"

definition spaces :: "string list" where
  "spaces = map (map byte)
    ([[9], [10], [11], [12], [13], [32], [0xC2, 0x85], [0xC2, 0xA0], [0xE1, 0x9A, 0x80]] @
     map (\<lambda>n. [0xE2, 0x80, n]) [0x80..<0x8B] @
     [[0xE2, 0x80, 0xA8], [0xE2, 0x80, 0xA9], [0xE2, 0x80, 0xAF], [0xE2, 0x81, 0x9F], [0xE3, 0x80, 0x80]])"

definition space_prefix :: "string list \<Rightarrow> string \<Rightarrow> nat" where
  "space_prefix sps s = (case filter (\<lambda>p. HasPrefix s p) sps of [] \<Rightarrow> 0 | p # _ \<Rightarrow> length p)"

fun trim_left :: "string list \<Rightarrow> nat \<Rightarrow> string \<Rightarrow> string" where
  "trim_left sps 0 s = s"
| "trim_left sps (Suc n) s =
    (if space_prefix sps s = 0 then s else trim_left sps n (drop (space_prefix sps s) s))"

text \<open>A string of \<open>n\<close> bytes starts with at most \<open>n\<close> white-space runes, so \<open>length s\<close> rounds suffice.\<close>

definition TrimSpace :: "string \<Rightarrow> string" where
  "TrimSpace s =
    (let l = trim_left spaces (length s) s
     in rev (trim_left (map rev spaces) (length l) (rev l)))"

section \<open>Decimal integers\<close>

definition digit_char :: "nat \<Rightarrow> char" where
  "digit_char n = char_of (48 + n)"

fun digits :: "nat \<Rightarrow> string" where
  "digits n = (if n < 10 then [digit_char n] else digits (n div 10) @ [digit_char (n mod 10)])"

declare digits.simps [simp del]

text \<open>\<open>strconv.Itoa\<close>, \<open>strconv.FormatInt\<close> in base 10 and the verb \<open>%d\<close>.\<close>

definition Itoa :: "int \<Rightarrow> string" where
  "Itoa n = (if n < 0 then CHR ''-'' # digits (nat (- n)) else digits (nat n))"

definition digit_value :: "char \<Rightarrow> nat option" where
  "digit_value c =
    (let n = of_char c in if 48 \<le> n \<and> n \<le> 57 then Some (n - 48) else None)"

fun read_digits :: "nat \<Rightarrow> string \<Rightarrow> nat option" where
  "read_digits acc [] = Some acc"
| "read_digits acc (c # s) =
    (case digit_value c of None \<Rightarrow> None | Some d \<Rightarrow> read_digits (10 * acc + d) s)"

text \<open>\<open>strconv.ParseInt\<close> in base 10 with 64 bits and \<open>strconv.Atoi\<close>: \<open>None\<close> is a syntax or range error.\<close>

definition ParseInt :: "string \<Rightarrow> int option" where
  "ParseInt s =
    (let (neg, ds) = (case s of [] \<Rightarrow> (False, [])
       | c # t \<Rightarrow> if c = CHR ''-'' then (True, t) else if c = CHR ''+'' then (False, t) else (False, s))
     in if ds = [] then None
        else case read_digits 0 ds of None \<Rightarrow> None
        | Some n \<Rightarrow> (let v = (if neg then - int n else int n) in if in_int64 v then Some v else None))"

lemma digit_value_digit_char [simp]: "n < 10 \<Longrightarrow> digit_value (digit_char n) = Some n"
  by (simp add: digit_value_def digit_char_def)

lemma read_digits_append:
  "read_digits acc (s @ t) = (case read_digits acc s of None \<Rightarrow> None | Some n \<Rightarrow> read_digits n t)"
  by (induction s arbitrary: acc) (auto split: option.splits)

lemma read_digits_digits [simp]: "read_digits 0 (digits n) = Some n"
proof (induction n rule: digits.induct)
  case (1 n)
  then show ?case
    by (subst digits.simps) (auto simp: read_digits_append)
qed

lemma digits_nonempty [simp]: "digits n \<noteq> []"
  by (subst digits.simps) simp

lemma digits_all: "c \<in> set (digits n) \<Longrightarrow> \<exists>d<10. c = digit_char d"
proof (induction n rule: digits.induct)
  case (1 n)
  have "\<exists>d<10. digit_char (n mod 10) = digit_char d" by (intro exI[of _ "n mod 10"]) simp
  then show ?case
    using 1 digits.simps[of n] by (cases "n < 10") auto
qed

lemma digit_char_not_sign: "d < 10 \<Longrightarrow> digit_char d \<noteq> CHR ''-'' \<and> digit_char d \<noteq> CHR ''+''"
  using digit_value_digit_char[of d] by (auto simp: digit_value_def)

lemma ParseInt_Itoa: assumes "in_int64 n" shows "ParseInt (Itoa n) = Some n"
proof -
  obtain c s where d: "digits (nat n) = c # s" by (cases "digits (nat n)") auto
  then have "c \<noteq> CHR ''-'' \<and> c \<noteq> CHR ''+''"
    using digits_all[of c "nat n"] digit_char_not_sign by auto
  then show ?thesis
    using assms by (auto simp: ParseInt_def Itoa_def Let_def d split: list.splits)
      (use d read_digits_digits[of "nat n"] in auto)
qed

section \<open>Booleans\<close>

text \<open>\<open>strconv.ParseBool\<close>.\<close>

definition ParseBool :: "string \<Rightarrow> bool option" where
  "ParseBool s =
    (if s \<in> {''1'', ''t'', ''T'', ''true'', ''TRUE'', ''True''} then Some True
     else if s \<in> {''0'', ''f'', ''F'', ''false'', ''FALSE'', ''False''} then Some False
     else None)"

text \<open>The value \<open>strconv.ParseInt\<close> returns beside its error: zero after a syntax error, the nearest
  bound after a range error.\<close>

definition ParseInt_value :: "string \<Rightarrow> int" where
  "ParseInt_value s =
    (let (neg, ds) = (case s of [] \<Rightarrow> (False, [])
       | c # t \<Rightarrow> if c = CHR ''-'' then (True, t) else if c = CHR ''+'' then (False, t) else (False, s))
     in if ds = [] then 0
        else case read_digits 0 ds of None \<Rightarrow> 0
        | Some n \<Rightarrow> max (- (2 ^ 63)) (min (2 ^ 63 - 1) (if neg then - int n else int n)))"

lemma ParseInt_value_ParseInt: "ParseInt s = Some n \<Longrightarrow> ParseInt_value s = n"
proof -
  obtain neg ds where d: "(case s of [] \<Rightarrow> (False, [])
       | c # t \<Rightarrow> if c = CHR ''-'' then (True, t) else if c = CHR ''+'' then (False, t) else (False, s)) = (neg, ds)"
    by fastforce
  assume "ParseInt s = Some n"
  then have n: "ds \<noteq> []" "in_int64 n" "\<exists>m. read_digits 0 ds = Some m \<and> n = (if neg then - int m else int m)"
    unfolding ParseInt_def d by (auto simp: Let_def split: option.splits if_split_asm)
  then show ?thesis unfolding ParseInt_value_def d by (auto simp: in_int64_def)
qed

lemma ParseInt_value_Itoa [simp]: "in_int64 n \<Longrightarrow> ParseInt_value (Itoa n) = n"
  by (simp add: ParseInt_value_ParseInt ParseInt_Itoa)

lemma Itoa_nonempty [simp]: "Itoa n \<noteq> ''''"
  by (simp add: Itoa_def)

lemma Itoa_inj: "Itoa (int i) = Itoa (int j) \<Longrightarrow> i = j"
proof -
  assume "Itoa (int i) = Itoa (int j)"
  then have "digits i = digits j" by (simp add: Itoa_def)
  then show "i = j" by (metis read_digits_digits option.inject)
qed

end
