(* ===== verification/FleetShedder.thy ===== *)
theory FleetShedder
  imports Concurrency GoStrings
begin

text \<open>
  \<open>services/core/limiter/fleetshedder.go\<close>, Tier 3: one set of slots for the whole fleet, a share of
  which is kept for critical requests.
\<close>

definition fleetKey :: string where "fleetKey = ''fleet''"

record fleet_shedder =
  fs_cap :: int
  fs_reservedCriticalPct :: int
  fs_maxDurationMs :: int
  fs_shadowMode :: bool

definition NewFleetShedder :: "int \<Rightarrow> int \<Rightarrow> int \<Rightarrow> bool \<Rightarrow> fleet_shedder" where
  "NewFleetShedder cap reservedCriticalPct maxDurationMs shadowMode =
    \<lparr>fs_cap = cap, fs_reservedCriticalPct = reservedCriticalPct, fs_maxDurationMs = maxDurationMs,
     fs_shadowMode = shadowMode\<rparr>"

definition fs_Reconfigure :: "int \<Rightarrow> int \<Rightarrow> int \<Rightarrow> bool \<Rightarrow> fleet_shedder \<Rightarrow> fleet_shedder" where
  "fs_Reconfigure cap reservedCriticalPct maxDurationMs shadowMode l =
    l\<lparr>fs_cap := cap, fs_reservedCriticalPct := reservedCriticalPct, fs_maxDurationMs := maxDurationMs,
      fs_shadowMode := shadowMode\<rparr>"

definition SetReservedCriticalPct :: "int \<Rightarrow> fleet_shedder \<Rightarrow> (go_error + int) \<times> fleet_shedder" where
  "SetReservedCriticalPct pct l =
    (if pct < 0 \<or> 100 < pct then (Inl (''reserved_critical_pct must be between 0 and 100 inclusive, got '' @ Itoa pct), l)
     else (let previous = fs_reservedCriticalPct l in (Inr previous, l\<lparr>fs_reservedCriticalPct := pct\<rparr>)))"

text \<open>The multiplication may wrap; the division truncates.\<close>

definition effectiveCap :: "fleet_shedder \<Rightarrow> Priority \<Rightarrow> int" where
  "effectiveCap l priority =
    (if priority \<noteq> Critical
     then int64 (int64 (fs_cap l * int64 (100 - fs_reservedCriticalPct l)) sdiv 100)
     else fs_cap l)"

definition fleet_grant :: "Action \<Rightarrow> string \<Rightarrow> decision" where
  "fleet_grant a token =
    decision0\<lparr>Action := a, Reservations := [reservation fleetKey token], Tier := ''fleet_shedder''\<rparr>"

definition fs_Check :: "'s slot_store \<Rightarrow> fleet_shedder \<Rightarrow> 's limiter" where
  "fs_Check S l req s =
    (if SkipReservations req then (Done (decision0\<lparr>Action := ALLOW\<rparr>, None), s)
     else
      (case incr_concurrent S fleetKey (effectiveCap l (Priority req)) (fs_maxDurationMs l) s of
         (Inl err, s1) \<Rightarrow> (Done (decision0, Some err), s1)
       | (Inr (allowed, token), s1) \<Rightarrow>
         (if allowed then (Done (fleet_grant ALLOW token, None), s1)
          else if fs_shadowMode l then
            (case incr_concurrent S fleetKey unboundedCap (fs_maxDurationMs l) s1 of
               (Inl err, s2) \<Rightarrow> (Done (decision0, Some err), s2)
             | (Inr (_, reservedToken), s2) \<Rightarrow> (Done (fleet_grant SHADOW_LOG reservedToken, None), s2))
          else (Done (decision0\<lparr>Action := REJECT_503, Tier := ''fleet_shedder''\<rparr>, None), s1))))"

lemma slots_of_fleet [simp]:
  "slots_of (fleet_grant a t) = (if t = '''' then {#} else {#(fleetKey, t)#})"
  "slots_of (decision0\<lparr>Action := a, Tier := tr\<rparr>) = {#}"
  by (simp_all add: slots_of_def decision0_def fleet_grant_def reservation_def)

section \<open>The reserved share\<close>

definition fleet_ok :: "fleet_shedder \<Rightarrow> bool" where
  "fleet_ok l \<longleftrightarrow> 0 < fs_cap l \<and> 0 \<le> fs_reservedCriticalPct l \<and> fs_reservedCriticalPct l \<le> 100"

lemma effectiveCap_div:
  assumes "fleet_ok l" "fs_cap l < 2 ^ 56" "p \<noteq> Critical"
  shows "effectiveCap l p = fs_cap l * (100 - fs_reservedCriticalPct l) div 100"
proof -
  let ?q = "100 - fs_reservedCriticalPct l"
  have q: "0 \<le> ?q" "?q \<le> 100" using assms(1) by (auto simp: fleet_ok_def)
  then have i: "int64 ?q = ?q" by (intro int64_id) (simp add: in_int64_def)
  have "fs_cap l * ?q \<le> 2 ^ 56 * 100" using assms q by (intro mult_mono) (auto simp: fleet_ok_def)
  moreover have m0: "0 \<le> fs_cap l * ?q" using assms(1) q by (simp add: fleet_ok_def)
  ultimately have m: "int64 (fs_cap l * ?q) = fs_cap l * ?q" "0 \<le> fs_cap l * ?q"
    by (auto simp: in_int64_def intro!: int64_id)
  have "0 \<le> fs_cap l * ?q div 100" "fs_cap l * ?q div 100 \<le> 2 ^ 56"
    using m(2) \<open>fs_cap l * ?q \<le> 2 ^ 56 * 100\<close> by (auto simp: pos_imp_zdiv_nonneg_iff)
  then have "int64 (fs_cap l * ?q div 100) = fs_cap l * ?q div 100"
    by (intro int64_id) (simp add: in_int64_def)
  then show ?thesis using assms(3) m by (simp add: effectiveCap_def i sdiv_nonneg)
qed

context slot_ledger
begin

lemma fs_accounted: "fs_Check S l req s = (a, s') \<Longrightarrow> accounted a (held s) (held s')"
  by (auto simp: fs_Check_def dest!: ledger_rules split: if_splits sum.splits prod.splits)

end

end
