(* ===== verification/Pipeline.thy ===== *)
theory Pipeline
  imports TokenBucket FleetShedder
begin

text \<open>
  \<open>services/core/limiter/pipeline.go\<close>: the tiers in order, the reservations accumulating, the first
  tier that errs or neither allows nor queues ending the run with its own decision.
\<close>

fun pipeline_loop ::
  "'s limiter list \<Rightarrow> token_reservation list \<Rightarrow> string \<Rightarrow> Action \<Rightarrow> request \<Rightarrow> 's \<Rightarrow> answer \<times> 's" where
  "pipeline_loop [] reserved lastTier finalAction req s =
    (Done (decision0\<lparr>Action := finalAction, Reservations := reserved, Tier := lastTier\<rparr>, None), s)"
| "pipeline_loop (tier # tiers) reserved lastTier finalAction req s =
    (case tier req s of
       (Done (d, err), s1) \<Rightarrow>
         (let reserved = reserved @ Reservations d
          in if err \<noteq> None \<or> (Action d \<noteq> ALLOW \<and> Action d \<noteq> QUEUE)
             then (Done (d\<lparr>Reservations := reserved\<rparr>, err), s1)
             else pipeline_loop tiers reserved (if Tier d \<noteq> '''' then Tier d else lastTier)
                    (if Action d = QUEUE then QUEUE else finalAction) req s1)
     | (Panicked m, s1) \<Rightarrow> (Panicked m, s1)
     | (Waiting, s1) \<Rightarrow> (Waiting, s1))"

definition pipeline_Check :: "'s limiter list \<Rightarrow> 's limiter" where
  "pipeline_Check tiers req s = pipeline_loop tiers [] '''' ALLOW req s"

text \<open>The ledger of a run whose tiers may hold slots when a later one panics or waits.\<close>

lemma slots_of_append:
  "slots_of (d\<lparr>Reservations := xs @ ys\<rparr>) = slots_of (d\<lparr>Reservations := xs\<rparr>) + slots_of (d\<lparr>Reservations := ys\<rparr>)"
  by (simp add: slots_of_def)

definition slots_in :: "token_reservation list \<Rightarrow> (string \<times> string) multiset" where
  "slots_in rs = slots_of (decision0\<lparr>Reservations := rs\<rparr>)"

lemma slots_in_simps [simp]:
  "slots_in [] = {#}" "slots_in (xs @ ys) = slots_in xs + slots_in ys"
  "slots_of (d\<lparr>Reservations := rs\<rparr>) = slots_in rs" "slots_of (decision0\<lparr>Action := a, Reservations := rs, Tier := t\<rparr>) = slots_in rs"
  by (simp_all add: slots_in_def slots_of_def decision0_def)

lemma slots_in_Reservations [simp]: "slots_in (Reservations d) = slots_of d"
  by (simp add: slots_in_def slots_of_def decision0_def)

context accounted_tiers
begin

lemma pipeline_loop_accounted:
  assumes "set ts \<subseteq> set tiers" "pipeline_loop ts rs l f req s = (Done (d, e), s')"
  shows "held s' + slots_in rs = held s + slots_of d"
  using assms
proof (induction ts arbitrary: rs l f s)
  case (Cons t ts)
  obtain a s1 where t: "t req s = (a, s1)" by fastforce
  then have acc: "accounted a (held s) (held s1)" using tier_accounted Cons.prems(1) by auto
  show ?case
  proof (cases a)
    case (Done x)
    then obtain d1 e1 where x: "a = Done (d1, e1)" by (cases x) auto
    then have h: "held s1 = held s + slots_of d1" using acc by simp
    show ?thesis
    proof (cases "e1 \<noteq> None \<or> (Action d1 \<noteq> ALLOW \<and> Action d1 \<noteq> QUEUE)")
      case True
      then show ?thesis using Cons.prems(2) t x h by (auto simp: Let_def)
    next
      case False
      then obtain l' f' where "pipeline_loop ts (rs @ Reservations d1) l' f' req s1 = (Done (d, e), s')"
        using Cons.prems(2) t x that False by (auto simp: Let_def)
      then have "held s' + slots_in (rs @ Reservations d1) = held s1 + slots_of d"
        using Cons.prems(1) by (intro Cons.IH) auto
      then show ?thesis using h by (simp add: union_ac)
    qed
  qed (use Cons.prems(2) t in auto)
qed auto

lemma pipeline_accounted:
  "pipeline_Check tiers req s = (Done (d, e), s') \<Longrightarrow> held s' = held s + slots_of d"
  using pipeline_loop_accounted[of tiers "[]"] by (simp add: pipeline_Check_def)

end

end
