(* ===== verification/GoDouble.thy ===== *)
theory GoDouble
  imports Prelude Complex_Main "HOL-Library.Log_Nat"
begin

text \<open>
  The doubles of Lua 5.1 and Go's \<open>float64\<close>: a finite double is a rational, every operation is the
  exact one rounded to 53 bits, ties to even (\<open>fl\<close>).  The exponent is not bounded: no value of the
  program comes near the overflow or underflow thresholds.  The facts the components use are
  monotonicity, the relative error \<open>2 ^ -53\<close> and exactness on integers up to \<open>2 ^ 53\<close>.
\<close>

section \<open>Rounding to the nearest integer, ties to even\<close>

definition rne :: "rat \<Rightarrow> int" where
  "rne x = (let n = \<lfloor>x\<rfloor>; d = x - of_int n in
     if d < 1/2 then n else if 1/2 < d then n + 1 else if even n then n else n + 1)"

lemma rne_bounds: "\<lfloor>x\<rfloor> \<le> rne x" "rne x \<le> \<lfloor>x\<rfloor> + 1"
  by (auto simp: rne_def Let_def)

lemma rne_of_int [simp]: "rne (of_int n) = n"
  by (simp add: rne_def)

lemma rne_mono: assumes "x \<le> y" shows "rne x \<le> rne y"
proof (cases "\<lfloor>x\<rfloor> = \<lfloor>y\<rfloor>")
  case True
  then show ?thesis using assms by (auto simp: rne_def Let_def)
next
  case False
  then have "\<lfloor>x\<rfloor> + 1 \<le> \<lfloor>y\<rfloor>" using floor_mono[OF assms] by linarith
  then show ?thesis using rne_bounds[of x] rne_bounds[of y] by linarith
qed

lemma rne_error: "\<bar>of_int (rne x) - x\<bar> \<le> 1/2"
proof -
  define n where "n = \<lfloor>x\<rfloor>"
  have n: "of_int n \<le> x" "x < of_int n + 1" unfolding n_def by linarith+
  define d where "d = x - of_int n"
  have "rne x = (if d < 1/2 then n else if 1/2 < d then n + 1 else if even n then n else n + 1)"
    by (simp add: rne_def Let_def n_def d_def)
  then have "rne x = n \<and> d \<le> 1/2 \<or> rne x = n + 1 \<and> 1/2 \<le> d" by (simp split: if_splits)
  then show ?thesis using n unfolding d_def by (auto simp: abs_le_iff)
qed

lemma rne_minus: "rne (- x) = - rne x"
proof (cases "of_int \<lfloor>x\<rfloor> = x")
  case True
  then obtain n where "x = of_int n" by metis
  then show ?thesis by (simp flip: of_int_minus)
next
  case False
  have f: "\<lfloor>- x\<rfloor> = - \<lfloor>x\<rfloor> - 1"
    using False by (simp add: floor_minus ceiling_altdef)
  show ?thesis unfolding rne_def f Let_def by auto
qed

section \<open>Double precision\<close>

text \<open>The exponent of a positive rational: the \<open>e\<close> with \<open>2 powi e \<le> x < 2 powi (e + 1)\<close>.\<close>

definition expo :: "rat \<Rightarrow> int" where
  "expo x = (let (p, q) = quotient_of x; k = bitlen p - bitlen q
     in if 2 powi k \<le> x then k else k - 1)"

lemma powi_nat: "0 \<le> k \<Longrightarrow> (2::rat) powi k = of_int (2 ^ nat k)"
  by (simp add: power_int_def)

lemma bitlen_powi:
  assumes "0 < p"
  shows "2 powi (bitlen p - 1) \<le> (of_int p :: rat)" "(of_int p :: rat) < 2 powi bitlen p"
proof -
  have b: "2 ^ nat (bitlen p - 1) \<le> p" "p < 2 ^ nat (bitlen p)" "1 \<le> bitlen p"
    using bitlen_bounds[OF assms] assms bitlen_nonneg[of p] bitlen_eq_zero_iff[of p] by auto
  have "2 powi (bitlen p - 1) = (of_int (2 ^ nat (bitlen p - 1)) :: rat)"
    using b(3) by (intro powi_nat) simp
  with b(1) show "2 powi (bitlen p - 1) \<le> (of_int p :: rat)"
    by (simp only: of_int_le_iff)
  have "2 powi (bitlen p) = (of_int (2 ^ nat (bitlen p)) :: rat)"
    using b(3) by (intro powi_nat) simp
  with b(2) show "(of_int p :: rat) < 2 powi bitlen p"
    by (simp only: of_int_less_iff)
qed

lemma expo_bounds:
  assumes "0 < x"
  shows "2 powi expo x \<le> x" "x < 2 powi (expo x + 1)"
proof -
  obtain p q where pq: "quotient_of x = (p, q)" by fastforce
  have x: "x = of_int p / of_int q" and q: "0 < q"
    using quotient_of_div[OF pq] quotient_of_denom_pos[OF pq] by auto
  have p: "0 < p" using assms x q by (simp add: zero_less_divide_iff)
  let ?k = "bitlen p - bitlen q"
  have up: "x < 2 powi (?k + 1)"
  proof -
    have "of_int p / of_int q < 2 powi bitlen p / (2 powi (bitlen q - 1) :: rat)"
      using bitlen_powi[OF p] bitlen_powi[OF q] p q
      by (intro frac_less) auto
    also have "\<dots> = 2 powi (?k + 1)"
      by (simp add: power_int_diff power_int_add field_simps)
    finally show ?thesis using x by simp
  qed
  have lo: "2 powi (?k - 1) \<le> x"
  proof -
    have "2 powi (?k - 1) = 2 powi (bitlen p - 1) / (2 powi bitlen q :: rat)"
      by (simp add: power_int_diff power_int_add field_simps)
    also have "\<dots> \<le> of_int p / of_int q"
      using bitlen_powi[OF p] bitlen_powi[OF q] p q
      by (intro frac_le) (auto intro: less_imp_le)
    finally show ?thesis using x by simp
  qed
  show "2 powi expo x \<le> x" using lo by (simp add: expo_def pq Let_def)
  show "x < 2 powi (expo x + 1)" using up by (auto simp: expo_def pq Let_def)
qed

lemma powi_less_cancel: "(2::rat) powi a < 2 powi b \<Longrightarrow> a < b"
  by (metis linorder_not_less one_le_numeral power_int_increasing)

lemma powi_le_cancel: "(2::rat) powi a \<le> 2 powi b \<Longrightarrow> a \<le> b"
  by (metis linorder_not_less one_less_numeral_iff power_int_strict_increasing semiring_norm(76))

lemma expo_mono: assumes "0 < x" "x \<le> y" shows "expo x \<le> expo y"
proof -
  have "2 powi expo x < (2::rat) powi (expo y + 1)"
    using expo_bounds[of x] expo_bounds[of y] assms by linarith
  then show ?thesis using powi_less_cancel by fastforce
qed

definition ulp :: "rat \<Rightarrow> rat" where
  "ulp x = 2 powi (expo x - 52)"

definition fl_pos :: "rat \<Rightarrow> rat" where
  "fl_pos x = of_int (rne (x / ulp x)) * ulp x"

definition fl :: "rat \<Rightarrow> rat" where
  "fl x = (if x = 0 then 0 else if 0 < x then fl_pos x else - fl_pos (- x))"

lemma ulp_pos [simp]: "0 < ulp x"
  by (simp add: ulp_def)

lemma fl_0 [simp]: "fl 0 = 0"
  by (simp add: fl_def)

lemma fl_minus: "fl (- x) = - fl x"
  by (simp add: fl_def)

lemma fl_pos_binade:
  assumes "0 < x"
  shows "2 powi expo x \<le> fl_pos x" "fl_pos x \<le> 2 powi (expo x + 1)"
proof -
  have lo: "(of_int (2 ^ 52) :: rat) \<le> x / ulp x"
  proof -
    have "2 powi expo x = (2 ^ 52 * ulp x :: rat)"
      by (simp add: ulp_def power_int_diff field_simps)
    then show ?thesis using expo_bounds[OF assms] by (simp add: pos_le_divide_eq)
  qed
  have hi: "x / ulp x \<le> (of_int (2 ^ 53) :: rat)"
  proof -
    have "2 powi (expo x + 1) = (2 ^ 53 * ulp x :: rat)"
      by (simp add: ulp_def power_int_diff power_int_add field_simps)
    then show ?thesis using expo_bounds[OF assms] by (simp add: pos_divide_le_eq)
  qed
  have r: "2 ^ 52 \<le> rne (x / ulp x)" "rne (x / ulp x) \<le> 2 ^ 53"
    using rne_mono[OF lo] rne_mono[OF hi] unfolding rne_of_int by auto
  have "2 powi expo x = (of_int (2 ^ 52) * ulp x :: rat)"
    by (simp add: ulp_def power_int_diff field_simps)
  also have "\<dots> \<le> of_int (rne (x / ulp x)) * ulp x"
    using r(1) by (intro mult_right_mono) (simp_all only: of_int_le_iff less_imp_le ulp_pos)
  finally show "2 powi expo x \<le> fl_pos x" by (simp add: fl_pos_def)
  have "of_int (rne (x / ulp x)) * ulp x \<le> (of_int (2 ^ 53) * ulp x :: rat)"
    using r(2) by (intro mult_right_mono) (simp_all only: of_int_le_iff less_imp_le ulp_pos)
  also have "\<dots> = 2 powi (expo x + 1)"
    by (simp add: ulp_def power_int_diff power_int_add field_simps)
  finally show "fl_pos x \<le> 2 powi (expo x + 1)" by (simp add: fl_pos_def)
qed

lemma fl_pos_mono:
  assumes "0 < x" "x \<le> y" shows "fl_pos x \<le> fl_pos y"
proof (cases "expo x = expo y")
  case True
  then have u: "ulp x = ulp y" by (simp add: ulp_def)
  have "rne (x / ulp y) \<le> rne (y / ulp y)"
    using assms by (intro rne_mono divide_right_mono) (auto intro: less_imp_le)
  then show ?thesis unfolding fl_pos_def u
    by (intro mult_right_mono) (simp_all only: of_int_le_iff less_imp_le ulp_pos)
next
  case False
  then have "expo x + 1 \<le> expo y" using expo_mono[OF assms] by simp
  then have "2 powi (expo x + 1) \<le> (2 powi expo y :: rat)"
    by (intro power_int_increasing) auto
  then show ?thesis
    using fl_pos_binade[of x] fl_pos_binade[of y] assms by linarith
qed

lemma fl_pos_gt_0: "0 < x \<Longrightarrow> 0 < fl_pos x"
  using fl_pos_binade(1)[of x] by (rule less_le_trans[rotated]) simp_all

lemma fl_nonneg: "0 \<le> x \<Longrightarrow> 0 \<le> fl x"
  using fl_pos_gt_0[of x] by (auto simp: fl_def)

lemma fl_pos_if: "0 < x \<Longrightarrow> 0 < fl x"
  using fl_pos_gt_0[of x] by (simp add: fl_def)

lemma fl_mono: assumes "x \<le> y" shows "fl x \<le> fl y"
proof -
  consider "0 < x" | "x \<le> 0" "0 \<le> y" | "y < 0" by linarith
  then show ?thesis
  proof cases
    case 1
    then show ?thesis using assms fl_pos_mono[of x y] by (simp add: fl_def)
  next
    case 2
    then have "0 \<le> fl (- x)" "0 \<le> fl y" by (simp_all add: fl_nonneg)
    then show ?thesis by (simp add: fl_minus)
  next
    case 3
    then show ?thesis using assms fl_pos_mono[of "- y" "- x"] by (simp add: fl_def)
  qed
qed

lemma fl_pos_error: assumes "0 < x" shows "\<bar>fl_pos x - x\<bar> \<le> x / 2 ^ 53"
proof -
  have "ulp x \<noteq> 0" using ulp_pos[of x] by linarith
  then have "fl_pos x - x = (of_int (rne (x / ulp x)) - x / ulp x) * ulp x"
    by (simp add: fl_pos_def field_simps)
  then have "\<bar>fl_pos x - x\<bar> = \<bar>of_int (rne (x / ulp x)) - x / ulp x\<bar> * ulp x"
    using ulp_pos[of x] by (simp only: abs_mult abs_of_pos)
  also have "\<dots> \<le> 1/2 * ulp x"
    by (intro mult_right_mono rne_error) (simp add: less_imp_le)
  also have "\<dots> = 2 powi expo x / 2 ^ 53"
    by (simp add: ulp_def power_int_diff field_simps)
  also have "\<dots> \<le> x / 2 ^ 53"
    using expo_bounds[OF assms] by (simp add: divide_right_mono)
  finally show ?thesis .
qed

lemma fl_error: "\<bar>fl x - x\<bar> \<le> \<bar>x\<bar> / 2 ^ 53"
proof -
  consider "x = 0" | "0 < x" | "x < 0" by linarith
  then show ?thesis
  proof cases
    case 3
    then have "\<bar>fl_pos (- x) - (- x)\<bar> \<le> - x / 2 ^ 53" using fl_pos_error[of "- x"] by simp
    moreover have "fl x - x = - (fl_pos (- x) - (- x))" using 3 by (simp add: fl_def)
    ultimately show ?thesis using 3 by (simp only: abs_minus_cancel abs_of_neg)
  qed (use fl_pos_error[of x] in \<open>simp_all add: fl_def\<close>)
qed

text \<open>Integers of at most 53 bits are doubles, so rounding leaves them alone.\<close>

lemma fl_pos_of_int:
  assumes "0 < n" "n \<le> 2 ^ 53" shows "fl_pos (of_int n) = of_int n"
proof (cases "n = 2 ^ 53")
  case True
  have "2 powi expo (of_int n) \<le> (2 powi 53 :: rat)"
    using expo_bounds(1)[of "of_int n"] True by (simp add: power_int_def)
  moreover have "(2 powi 53 :: rat) < 2 powi (expo (of_int n) + 1)"
    using expo_bounds(2)[of "of_int n"] True by (simp add: power_int_def)
  ultimately have e: "expo (of_int n) = 53"
    using powi_le_cancel powi_less_cancel by fastforce
  have u: "ulp (of_int n) = 2" by (simp add: ulp_def e)
  have "of_int n / ulp (of_int n) = (of_int (2 ^ 52) :: rat)"
    by (subst u) (simp add: True)
  then have "fl_pos (of_int n) = of_int (2 ^ 52) * ulp (of_int n)"
    unfolding fl_pos_def by (simp only: rne_of_int)
  then show ?thesis unfolding u by (simp add: True)
next
  case False
  have "2 powi expo (of_int n) < (2 powi 53 :: rat)"
    using expo_bounds(1)[of "of_int n"] assms False
    by (simp add: power_int_def)
  then have e: "expo (of_int n) - 52 \<le> 0" using powi_less_cancel by fastforce
  have "of_int n / ulp (of_int n) = of_int n * (2 powi (52 - expo (of_int n)) :: rat)"
    unfolding ulp_def by (simp add: power_int_diff field_simps)
  also have "\<dots> = of_int (n * 2 ^ nat (52 - expo (of_int n)))"
    using e by (simp add: powi_nat)
  finally have q: "of_int n / ulp (of_int n) = (of_int (n * 2 ^ nat (52 - expo (of_int n))) :: rat)" .
  have "fl_pos (of_int n) = of_int (n * 2 ^ nat (52 - expo (of_int n))) * ulp (of_int n)"
    unfolding fl_pos_def q rne_of_int ..
  also have "\<dots> = of_int n" unfolding q[symmetric] by (simp add: less_imp_neq[OF ulp_pos, symmetric])
  finally show ?thesis .
qed

lemma fl_of_int: assumes "\<bar>n\<bar> \<le> 2 ^ 53" shows "fl (of_int n) = of_int n"
  using fl_pos_of_int[of n] fl_pos_of_int[of "- n"] assms by (auto simp: fl_def)

section \<open>Double arithmetic\<close>

text \<open>
  Signed zeros and overflow to infinity are left out: every magnitude the program forms is
  below \<open>2 ^ 200\<close>, and infinities enter only through a division by zero.
\<close>

datatype dbl = Fin rat | PInf | NInf | NaN

fun dneg :: "dbl \<Rightarrow> dbl" where
  "dneg (Fin a) = Fin (- a)"
| "dneg PInf = NInf"
| "dneg NInf = PInf"
| "dneg NaN = NaN"

fun dadd :: "dbl \<Rightarrow> dbl \<Rightarrow> dbl" where
  "dadd (Fin a) (Fin b) = Fin (fl (a + b))"
| "dadd NaN _ = NaN"
| "dadd _ NaN = NaN"
| "dadd PInf NInf = NaN"
| "dadd NInf PInf = NaN"
| "dadd PInf _ = PInf"
| "dadd _ PInf = PInf"
| "dadd NInf _ = NInf"
| "dadd _ NInf = NInf"

definition dsub :: "dbl \<Rightarrow> dbl \<Rightarrow> dbl" where
  "dsub a b = dadd a (dneg b)"

definition dinf :: "rat \<Rightarrow> dbl" where
  "dinf s = (if s = 0 then NaN else if 0 < s then PInf else NInf)"

fun dsgn :: "dbl \<Rightarrow> rat" where
  "dsgn (Fin a) = sgn a"
| "dsgn PInf = 1"
| "dsgn NInf = - 1"
| "dsgn NaN = 0"

fun dmul :: "dbl \<Rightarrow> dbl \<Rightarrow> dbl" where
  "dmul (Fin a) (Fin b) = Fin (fl (a * b))"
| "dmul a b = dinf (dsgn a * dsgn b)"

fun ddiv :: "dbl \<Rightarrow> dbl \<Rightarrow> dbl" where
  "ddiv (Fin a) (Fin b) = (if b = 0 then dinf (sgn a) else Fin (fl (a / b)))"
| "ddiv NaN _ = NaN"
| "ddiv _ NaN = NaN"
| "ddiv (Fin a) _ = Fin 0"
| "ddiv a (Fin b) = dinf (dsgn a * (if b < 0 then - 1 else 1))"
| "ddiv _ _ = NaN"

fun dlt :: "dbl \<Rightarrow> dbl \<Rightarrow> bool" where
  "dlt (Fin a) (Fin b) \<longleftrightarrow> a < b"
| "dlt NaN _ \<longleftrightarrow> False"
| "dlt _ NaN \<longleftrightarrow> False"
| "dlt a b \<longleftrightarrow> a \<noteq> b \<and> (a = NInf \<or> b = PInf)"

definition dle :: "dbl \<Rightarrow> dbl \<Rightarrow> bool" where
  "dle a b \<longleftrightarrow> dlt a b \<or> (a = b \<and> a \<noteq> NaN)"

fun dceil :: "dbl \<Rightarrow> dbl" where
  "dceil (Fin a) = Fin (of_int \<lceil>a\<rceil>)"
| "dceil a = a"

fun dfloor :: "dbl \<Rightarrow> dbl" where
  "dfloor (Fin a) = Fin (of_int \<lfloor>a\<rfloor>)"
| "dfloor a = a"

text \<open>The double nearest to an integer, and truncation back to \<open>int64\<close>.\<close>

definition of_int_dbl :: "int \<Rightarrow> dbl" where
  "of_int_dbl n = Fin (fl (of_int n))"

definition trunc :: "rat \<Rightarrow> int" where
  "trunc x = (if 0 \<le> x then \<lfloor>x\<rfloor> else \<lceil>x\<rceil>)"

lemma dsub_Fin [simp]: "dsub (Fin a) (Fin b) = Fin (fl (a - b))"
  by (simp add: dsub_def)

lemma dle_Fin [simp]: "dle (Fin a) (Fin b) \<longleftrightarrow> a \<le> b"
  by (auto simp: dle_def)

lemma of_int_dbl_exact: "\<bar>n\<bar> \<le> 2 ^ 53 \<Longrightarrow> of_int_dbl n = Fin (of_int n)"
  by (simp add: of_int_dbl_def fl_of_int)

lemma fl_numeral [simp]: "numeral k \<le> (2::int) ^ 53 \<Longrightarrow> fl (numeral k) = numeral k"
  using fl_of_int[of "numeral k"] by simp

lemma fl_one [simp]: "fl 1 = 1"
  using fl_of_int[of 1] by simp

lemma trunc_of_int [simp]: "trunc (of_int n) = n"
  by (simp add: trunc_def)

end
