(* ===== verification/RedisApi.thy ===== *)
theory RedisApi
  imports GoDouble "HOL-Library.Finite_Map"
begin

text \<open>
  Redis, which is not under \<open>src/\<close>: a record of the commands the scripts and the store issue, over
  an abstract database, and a locale with the documented effect of each command on the keyspace.
  A Lua number is written to a hash or a sorted set with enough digits to be read back unchanged,
  so a field or a score is a double.  What other clients do and the expiry of keys happen between
  two calls (\<open>RedisStore\<close>).  \<open>mem_redis\<close> is a keyspace in memory that meets the laws.
\<close>

section \<open>What a Redis key holds\<close>

datatype rvalue = Hash "string \<rightharpoonup> dbl" | ZSet "(string, dbl) fmap"

fun hash_of :: "rvalue option \<Rightarrow> (string \<rightharpoonup> dbl) option" where
  "hash_of None = Some Map.empty"
| "hash_of (Some (Hash h)) = Some h"
| "hash_of (Some (ZSet z)) = None"

fun zset_of :: "rvalue option \<Rightarrow> (string, dbl) fmap option" where
  "zset_of None = Some fmempty"
| "zset_of (Some (ZSet z)) = Some z"
| "zset_of (Some (Hash h)) = None"

definition zput :: "(string, dbl) fmap \<Rightarrow> rvalue option" where
  "zput z = (if z = fmempty then None else Some (ZSet z))"

definition zcount :: "(string, dbl) fmap \<Rightarrow> int" where
  "zcount z = int (fcard (fmdom z))"

definition zreap :: "dbl \<Rightarrow> (string, dbl) fmap \<Rightarrow> (string, dbl) fmap" where
  "zreap cutoff z = fmfilter (\<lambda>m. case fmlookup z m of None \<Rightarrow> False | Some s \<Rightarrow> \<not> dle s cutoff) z"

text \<open>The argument of \<open>EXPIRE\<close>: its text must read as an integer.\<close>

definition whole :: "dbl \<Rightarrow> int option" where
  "whole d = (case d of Fin a \<Rightarrow> if a = of_int \<lfloor>a\<rfloor> then Some \<lfloor>a\<rfloor> else None | _ \<Rightarrow> None)"

section \<open>The commands\<close>

record 'db redis =
  hmget :: "string \<Rightarrow> string list \<Rightarrow> 'db \<Rightarrow> go_error + dbl option list"
  hset :: "string \<Rightarrow> (string \<times> dbl) list \<Rightarrow> 'db \<Rightarrow> go_error + 'db"
  expire :: "string \<Rightarrow> dbl \<Rightarrow> 'db \<Rightarrow> go_error + 'db"
  zremrangebyscore :: "string \<Rightarrow> dbl \<Rightarrow> 'db \<Rightarrow> go_error + 'db"
  zcard :: "string \<Rightarrow> 'db \<Rightarrow> go_error + int"
  zadd :: "string \<Rightarrow> dbl \<Rightarrow> string \<Rightarrow> 'db \<Rightarrow> go_error + 'db"
  zrem :: "string \<Rightarrow> string \<Rightarrow> 'db \<Rightarrow> go_error + 'db"

text \<open>The outcome of a write command: it succeeds and the keyspace becomes \<open>m\<close>.\<close>

definition writes :: "('db \<Rightarrow> string \<rightharpoonup> rvalue) \<Rightarrow> go_error + 'db \<Rightarrow> (string \<rightharpoonup> rvalue) \<Rightarrow> bool" where
  "writes look res m \<longleftrightarrow> (case res of Inl _ \<Rightarrow> False | Inr db' \<Rightarrow> look db' = m)"

definition fails :: "go_error + 'a \<Rightarrow> bool" where
  "fails res \<longleftrightarrow> (case res of Inl _ \<Rightarrow> True | Inr _ \<Rightarrow> False)"

lemma writesE: "writes look res m \<Longrightarrow> (\<And>db'. res = Inr db' \<Longrightarrow> look db' = m \<Longrightarrow> P) \<Longrightarrow> P"
  by (auto simp: writes_def split: sum.splits)

lemma failsE: "fails res \<Longrightarrow> (\<And>e. res = Inl e \<Longrightarrow> P) \<Longrightarrow> P"
  by (auto simp: fails_def split: sum.splits)

locale redis_laws =
  fixes R :: "'db redis" and look :: "'db \<Rightarrow> string \<rightharpoonup> rvalue"
  assumes hmget_hash: "hash_of (look db k) = Some h \<Longrightarrow> hmget R k fs db = Inr (map h fs)"
    and hmget_wrongtype: "hash_of (look db k) = None \<Longrightarrow> fails (hmget R k fs db)"
    and hset_hash: "hash_of (look db k) = Some h \<Longrightarrow>
      writes look (hset R k fvs db) ((look db)(k \<mapsto> Hash (h ++ map_of (rev fvs))))"
    and hset_wrongtype: "hash_of (look db k) = None \<Longrightarrow> fails (hset R k fvs db)"
    and expire_ttl: "whole d = Some n \<Longrightarrow> 0 < n \<Longrightarrow> n \<le> 2 ^ 53 \<Longrightarrow> writes look (expire R k d db) (look db)"
    and expire_delete: "whole d = Some n \<Longrightarrow> n \<le> 0 \<Longrightarrow> - (2 ^ 53) \<le> n \<Longrightarrow>
      writes look (expire R k d db) ((look db)(k := None))"
    and expire_not_integer: "whole d = None \<Longrightarrow> fails (expire R k d db)"
    and expire_effect: "expire R k d db = Inr db' \<Longrightarrow> look db' = look db \<or> look db' = (look db)(k := None)"
    and zrem_range: "zset_of (look db k) = Some z \<Longrightarrow>
      writes look (zremrangebyscore R k d db) ((look db)(k := zput (zreap d z)))"
    and zrem_range_wrongtype: "zset_of (look db k) = None \<Longrightarrow> fails (zremrangebyscore R k d db)"
    and zcard_zset: "zset_of (look db k) = Some z \<Longrightarrow> zcard R k db = Inr (zcount z)"
    and zcard_wrongtype: "zset_of (look db k) = None \<Longrightarrow> fails (zcard R k db)"
    and zadd_zset: "zset_of (look db k) = Some z \<Longrightarrow>
      writes look (zadd R k d m db) ((look db)(k \<mapsto> ZSet (fmupd m d z)))"
    and zadd_wrongtype: "zset_of (look db k) = None \<Longrightarrow> fails (zadd R k d m db)"
    and zrem_zset: "zset_of (look db k) = Some z \<Longrightarrow>
      writes look (zrem R k m db) ((look db)(k := zput (fmdrop m z)))"
    and zrem_wrongtype: "zset_of (look db k) = None \<Longrightarrow> fails (zrem R k m db)"

section \<open>A keyspace in memory\<close>

definition mem_redis :: "(string \<rightharpoonup> rvalue) redis" where
  "mem_redis = \<lparr>
     hmget = (\<lambda>k fs db. case hash_of (db k) of None \<Rightarrow> Inl ''WRONGTYPE'' | Some h \<Rightarrow> Inr (map h fs)),
     hset = (\<lambda>k fvs db. case hash_of (db k) of None \<Rightarrow> Inl ''WRONGTYPE''
       | Some h \<Rightarrow> Inr (db(k \<mapsto> Hash (h ++ map_of (rev fvs))))),
     expire = (\<lambda>k d db. case whole d of None \<Rightarrow> Inl ''ERR value is not an integer or out of range''
       | Some n \<Rightarrow> Inr (if 0 < n then db else db(k := None))),
     zremrangebyscore = (\<lambda>k d db. case zset_of (db k) of None \<Rightarrow> Inl ''WRONGTYPE''
       | Some z \<Rightarrow> Inr (db(k := zput (zreap d z)))),
     zcard = (\<lambda>k db. case zset_of (db k) of None \<Rightarrow> Inl ''WRONGTYPE'' | Some z \<Rightarrow> Inr (zcount z)),
     zadd = (\<lambda>k d m db. case zset_of (db k) of None \<Rightarrow> Inl ''WRONGTYPE''
       | Some z \<Rightarrow> Inr (db(k \<mapsto> ZSet (fmupd m d z)))),
     zrem = (\<lambda>k m db. case zset_of (db k) of None \<Rightarrow> Inl ''WRONGTYPE''
       | Some z \<Rightarrow> Inr (db(k := zput (fmdrop m z)))) \<rparr>"

interpretation mem: redis_laws mem_redis "\<lambda>db. db"
  by unfold_locales (auto simp: mem_redis_def writes_def fails_def split: option.splits if_splits)

lemma zset_of_zput [simp]: "zset_of (zput z) = Some z"
  by (simp add: zput_def)

lemma zcount_nonneg [simp]: "0 \<le> zcount z"
  by (simp add: zcount_def)

lemma zcount_fmupd: "zcount (fmupd m s z) = (if m |\<in>| fmdom z then zcount z else zcount z + 1)"
  by (simp add: zcount_def fcard_finsert_if finsert_absorb)

lemma fmlookup_zreap: "fmlookup (zreap c z) m =
    (case fmlookup z m of None \<Rightarrow> None | Some s \<Rightarrow> if dle s c then None else Some s)"
  by (auto simp: zreap_def split: option.splits)

lemma zcount_zreap_le: "zcount (zreap c z) \<le> zcount z"
  by (auto simp: zcount_def zreap_def intro: fcard_mono fmdom_filter)

lemma zcount_fmdrop: "zcount (fmdrop m z) = (if m |\<in>| fmdom z then zcount z - 1 else zcount z)"
proof (cases "m |\<in>| fmdom z")
  case True
  then have "0 < fcard (fmdom z)" by (metis fcard_seteq fempty_iff fempty_fsubsetI fcard_fempty gr0I le_zero_eq)
  with True show ?thesis by (simp add: zcount_def of_nat_diff)
qed (simp add: zcount_def)

end
