(* ===== verification/LuaScripts.thy ===== *)
theory LuaScripts
  imports RedisApi
begin

text \<open>
  The three Lua scripts of \<open>store/lua\<close>, each a function of the Redis commands and the database,
  errors of a command ending the script with the writes so far in place (Redis does not roll a
  script back).  Below them, the token bucket without Redis: \<open>bucket_check\<close> and \<open>bucket_refund\<close> on
  an optional pair of level and time, with its well-formedness.
\<close>

section \<open>The scripts\<close>

datatype reply = RInt int | RStr string

definition lua_max :: "dbl \<Rightarrow> dbl \<Rightarrow> dbl" where
  "lua_max a b = (if dlt a b then b else a)"

definition lua_min :: "dbl \<Rightarrow> dbl \<Rightarrow> dbl" where
  "lua_min a b = (if dlt b a then b else a)"

text \<open>A Lua number of a reply reaches the client truncated to an \<open>int64\<close>.\<close>

definition reply_number :: "dbl \<Rightarrow> reply" where
  "reply_number d = RInt (case d of Fin a \<Rightarrow> int64 (trunc a) | _ \<Rightarrow> - (2 ^ 63))"

text \<open>\<open>token_bucket.lua\<close>, lines 24 to 35: refill, then take the cost or say how long to wait.\<close>

definition bucket_decide :: "dbl \<Rightarrow> dbl \<Rightarrow> dbl \<Rightarrow> dbl \<Rightarrow> dbl \<Rightarrow> dbl \<Rightarrow> bool \<times> dbl \<times> dbl" where
  "bucket_decide rate burst cost now tokens updated_at =
    (let elapsed_ms = lua_max (Fin 0) (dsub now updated_at);
         refill = dmul (ddiv elapsed_ms (Fin 1000)) rate;
         tokens = lua_min burst (dadd tokens refill)
     in if dle cost tokens then (True, Fin 0, dsub tokens cost)
        else (False, dceil (dmul (ddiv (dsub cost tokens) rate) (Fin 1000)), tokens))"

definition token_bucket_lua ::
  "'db redis \<Rightarrow> string \<Rightarrow> int \<Rightarrow> int \<Rightarrow> int \<Rightarrow> int \<Rightarrow> 'db \<Rightarrow> (go_error + reply list) \<times> 'db" where
  "token_bucket_lua R key rate_arg burst_arg cost_arg now_arg db =
    (let rate = of_int_dbl rate_arg; burst = of_int_dbl burst_arg;
         cost = of_int_dbl cost_arg; now = of_int_dbl now_arg
     in case hmget R key [''tokens'', ''updated_at''] db of
       Inl e \<Rightarrow> (Inl e, db)
     | Inr bucket \<Rightarrow>
       (let (tokens, updated_at) =
          (case bucket ! 0 of None \<Rightarrow> (burst, Some now) | Some t \<Rightarrow> (t, bucket ! 1))
        in case updated_at of
          None \<Rightarrow> (Inl ''attempt to perform arithmetic on a nil value'', db)
        | Some u \<Rightarrow>
          (let (allowed, retry_after_ms, tokens') = bucket_decide rate burst cost now tokens u
           in case hset R key [(''tokens'', tokens'), (''updated_at'', now)] db of
             Inl e \<Rightarrow> (Inl e, db)
           | Inr db1 \<Rightarrow>
             (case expire R key (dadd (dceil (ddiv burst rate)) (Fin 60)) db1 of
                Inl e \<Rightarrow> (Inl e, db1)
              | Inr db2 \<Rightarrow>
                (Inr [RInt (if allowed then 1 else 0), reply_number retry_after_ms,
                      reply_number (dfloor tokens')], db2)))))"

definition concurrent_limiter_lua ::
  "'db redis \<Rightarrow> string \<Rightarrow> int \<Rightarrow> int \<Rightarrow> int \<Rightarrow> string \<Rightarrow> 'db \<Rightarrow> (go_error + reply list) \<times> 'db" where
  "concurrent_limiter_lua R key cap_arg max_duration_arg now_arg token db =
    (let cap = of_int_dbl cap_arg; max_duration_ms = of_int_dbl max_duration_arg;
         now = of_int_dbl now_arg
     in case zremrangebyscore R key (dsub now max_duration_ms) db of
       Inl e \<Rightarrow> (Inl e, db)
     | Inr db1 \<Rightarrow>
       (case zcard R key db1 of
          Inl e \<Rightarrow> (Inl e, db1)
        | Inr count \<Rightarrow>
          (if dlt (of_int_dbl count) cap then
             (case zadd R key now token db1 of
                Inl e \<Rightarrow> (Inl e, db1)
              | Inr db2 \<Rightarrow>
                (case expire R key (dadd (dceil (ddiv max_duration_ms (Fin 1000))) (Fin 60)) db2 of
                   Inl e \<Rightarrow> (Inl e, db2)
                 | Inr db3 \<Rightarrow> (Inr [RInt 1, RStr token], db3)))
           else (Inr [RInt 0, RStr ''''], db1))))"

definition refund_tokens_lua ::
  "'db redis \<Rightarrow> string \<Rightarrow> int \<Rightarrow> int \<Rightarrow> 'db \<Rightarrow> (go_error + reply) \<times> 'db" where
  "refund_tokens_lua R key burst_arg refund_arg db =
    (let burst = of_int_dbl burst_arg; refund_amount = of_int_dbl refund_arg
     in case hmget R key [''tokens''] db of
       Inl e \<Rightarrow> (Inl e, db)
     | Inr h \<Rightarrow>
       (case h ! 0 of
          None \<Rightarrow> (Inr (RInt 0), db)
        | Some t \<Rightarrow>
          (let tokens = lua_min burst (dadd t refund_amount)
           in case hset R key [(''tokens'', tokens)] db of
             Inl e \<Rightarrow> (Inl e, db)
           | Inr db1 \<Rightarrow> (Inr (reply_number tokens), db1))))"

section \<open>The token bucket over the rationals that are doubles\<close>

text \<open>
  Integers up to \<open>2 ^ 52\<close> are exact doubles with room for the sums the script forms: rates,
  bursts, costs and millisecond clocks are in this range.
\<close>

definition small :: "int \<Rightarrow> bool" where
  "small n \<longleftrightarrow> 0 \<le> n \<and> n \<le> 2 ^ 52"

definition refill :: "int \<Rightarrow> int \<Rightarrow> rat" where
  "refill r e = fl (fl (of_int e / 1000) * of_int r)"

definition level :: "int \<Rightarrow> int \<Rightarrow> rat \<Rightarrow> int \<Rightarrow> rat" where
  "level r b t e = min (of_int b) (fl (t + refill r e))"

definition retry_ms :: "int \<Rightarrow> int \<Rightarrow> rat \<Rightarrow> int" where
  "retry_ms r c l = \<lceil>fl (fl (fl (of_int c - l) / of_int r) * 1000)\<rceil>"

definition elapsed :: "int \<Rightarrow> int \<Rightarrow> int" where
  "elapsed now u = max 0 (now - u)"

lemma of_int_dbl_small: "small n \<Longrightarrow> of_int_dbl n = Fin (of_int n)"
  by (simp add: small_def of_int_dbl_exact)

lemma fl_of_int_diff: assumes "small a" "small b" shows "fl (of_int a - of_int b) = of_int (a - b)"
proof -
  have "\<bar>a - b\<bar> \<le> 2 ^ 53" using assms by (auto simp: small_def abs_le_iff)
  then show ?thesis using fl_of_int[of "a - b"] by simp
qed

lemma bucket_decide_small:
  assumes "small r" "small b" "small c" "small now" "small u" "0 < r"
  shows "bucket_decide (of_int_dbl r) (of_int_dbl b) (of_int_dbl c) (of_int_dbl now)
      (Fin t) (of_int_dbl u) =
    (let l = level r b t (elapsed now u)
     in if of_int c \<le> l then (True, Fin 0, Fin (fl (l - of_int c)))
        else (False, Fin (of_int (retry_ms r c l)), Fin l))"
proof -
  have e: "lua_max (Fin 0) (dsub (Fin (of_int now)) (Fin (of_int u))) = Fin (of_int (elapsed now u))"
    using assms by (simp add: lua_max_def fl_of_int_diff elapsed_def max_def)
  have l: "lua_min (Fin (of_int b)) (dadd (Fin t) (Fin (refill r x))) = Fin (level r b t x)" for x
    by (auto simp: lua_min_def level_def min_def)
  have d: "ddiv (Fin (of_int x)) (Fin 1000) = Fin (fl (of_int x / 1000))" for x
    by simp
  show ?thesis
    using assms unfolding bucket_decide_def Let_def of_int_dbl_small[OF assms(1)]
      of_int_dbl_small[OF assms(2)] of_int_dbl_small[OF assms(3)]
      of_int_dbl_small[OF assms(4)] of_int_dbl_small[OF assms(5)] e d dmul.simps
      refill_def[symmetric] l
    by (simp add: retry_ms_def)
qed

section \<open>The abstract bucket\<close>

type_synonym bucket = "rat \<times> int"  \<comment> \<open>tokens, updated_at\<close>

definition bucket_now :: "int \<Rightarrow> int \<Rightarrow> bucket option \<Rightarrow> bucket" where
  "bucket_now b now s = (case s of None \<Rightarrow> (of_int b, now) | Some p \<Rightarrow> p)"

definition bucket_level :: "int \<Rightarrow> int \<Rightarrow> int \<Rightarrow> bucket option \<Rightarrow> rat" where
  "bucket_level r b now s =
    (let (t, u) = bucket_now b now s in level r b t (elapsed now u))"

definition bucket_check ::
  "int \<Rightarrow> int \<Rightarrow> int \<Rightarrow> int \<Rightarrow> bucket option \<Rightarrow> (bool \<times> int \<times> int) \<times> bucket" where
  "bucket_check r b c now s =
    (let l = bucket_level r b now s; l' = fl (l - of_int c)
     in if of_int c \<le> l then ((True, 0, \<lfloor>l'\<rfloor>), (l', now))
        else ((False, retry_ms r c l, \<lfloor>l\<rfloor>), (l, now)))"

definition bucket_refund :: "int \<Rightarrow> int \<Rightarrow> bucket option \<Rightarrow> bucket option" where
  "bucket_refund b n s =
    (case s of None \<Rightarrow> None | Some (t, u) \<Rightarrow> Some (min (of_int b) (fl (t + of_int n)), u))"

definition bucket_wf :: "int \<Rightarrow> bucket option \<Rightarrow> bool" where
  "bucket_wf b s \<longleftrightarrow> (case s of None \<Rightarrow> True | Some (t, u) \<Rightarrow> 0 \<le> t \<and> t \<le> of_int b \<and> small u)"

definition bucket_view :: "rvalue option \<Rightarrow> bucket option \<Rightarrow> bool" where
  "bucket_view v s \<longleftrightarrow> (case s of None \<Rightarrow> v = None
     | Some (t, u) \<Rightarrow> \<exists>h. v = Some (Hash h) \<and> h ''tokens'' = Some (Fin t) \<and>
         h ''updated_at'' = Some (of_int_dbl u))"

lemma fl_le_of_int: "x \<le> of_int n \<Longrightarrow> \<bar>n\<bar> \<le> 2 ^ 53 \<Longrightarrow> fl x \<le> of_int n"
  using fl_mono[of x "of_int n"] by (simp add: fl_of_int)

lemma fl_ge_of_int: "of_int n \<le> x \<Longrightarrow> \<bar>n\<bar> \<le> 2 ^ 53 \<Longrightarrow> of_int n \<le> fl x"
  using fl_mono[of "of_int n" x] by (simp add: fl_of_int)

lemma fl_le_twice: "0 \<le> x \<Longrightarrow> fl x \<le> 2 * x"
proof -
  assume "0 \<le> x"
  then have "x / 2 ^ 53 \<le> x" by simp
  with \<open>0 \<le> x\<close> show ?thesis using fl_error[of x] unfolding abs_le_iff by linarith
qed

lemma small_abs: "small n \<Longrightarrow> \<bar>n\<bar> \<le> 2 ^ 53"
  by (simp add: small_def)

lemma elapsed_nonneg [simp]: "0 \<le> elapsed now u"
  by (simp add: elapsed_def)

lemma refill_nonneg: "0 \<le> r \<Longrightarrow> 0 \<le> e \<Longrightarrow> 0 \<le> refill r e"
  by (simp add: refill_def fl_nonneg)

lemma level_bounds:
  assumes "0 \<le> r" "0 \<le> b" "0 \<le> e" "0 \<le> t"
  shows "0 \<le> level r b t e" "level r b t e \<le> of_int b"
  using assms refill_nonneg[of r e] by (auto simp: level_def intro!: fl_nonneg)

lemma bucket_now_wf:
  "bucket_wf b s \<Longrightarrow> small b \<Longrightarrow> small now \<Longrightarrow> bucket_now b now s = (t, u) \<Longrightarrow>
    0 \<le> t \<and> t \<le> of_int b \<and> small u"
  by (auto simp: bucket_now_def bucket_wf_def small_def split: option.splits)

lemma bucket_level_bounds:
  assumes "bucket_wf b s" "small b" "small now" "0 \<le> r"
  shows "0 \<le> bucket_level r b now s" "bucket_level r b now s \<le> of_int b"
proof -
  obtain t u where s: "bucket_now b now s = (t, u)" by fastforce
  then have "0 \<le> t" using bucket_now_wf[OF assms(1-3)] by blast
  then show "0 \<le> bucket_level r b now s" "bucket_level r b now s \<le> of_int b"
    using level_bounds[of r b "elapsed now u" t] assms
    by (simp_all add: bucket_level_def s small_def)
qed

lemma bucket_check_state:
  "snd (bucket_check r b c now s) =
    ((let l = bucket_level r b now s in if of_int c \<le> l then fl (l - of_int c) else l), now)"
  by (simp add: bucket_check_def Let_def)

lemma bucket_check_wf:
  assumes "bucket_wf b s" "small b" "small now" "0 \<le> r" "0 \<le> c"
  shows "bucket_wf b (Some (snd (bucket_check r b c now s)))"
proof -
  let ?l = "bucket_level r b now s"
  note l = bucket_level_bounds[OF assms(1-4)]
  have "fl (?l - of_int c) \<le> of_int b"
    using l assms by (intro fl_le_of_int) (auto simp: small_def)
  moreover have "of_int c \<le> ?l \<Longrightarrow> 0 \<le> fl (?l - of_int c)" by (intro fl_nonneg) simp
  ultimately show ?thesis
    using l assms(3) by (simp add: bucket_check_state bucket_wf_def Let_def)
qed

lemma bucket_refund_wf:
  assumes "bucket_wf b s" "small b" "0 \<le> n"
  shows "bucket_wf b (bucket_refund b n s)"
  using assms
  by (auto simp: bucket_refund_def bucket_wf_def small_def intro!: fl_nonneg split: option.splits)

lemma retry_ms_bounds:
  assumes "small c" "0 < r" "0 \<le> l" "l \<le> of_int c"
  shows "0 \<le> retry_ms r c l" "retry_ms r c l < 2 ^ 63"
proof -
  define d where "d = fl (of_int c - l)"
  define q where "q = fl (d / of_int r)"
  have d: "0 \<le> d" "d \<le> of_int c"
    using assms by (auto simp: d_def small_def intro!: fl_nonneg fl_le_of_int)
  have "d / of_int r \<le> d / 1" using d(1) assms(2) by (intro divide_left_mono) auto
  then have q: "0 \<le> q" "q \<le> of_int c"
    using d assms by (auto simp: q_def small_def intro!: fl_nonneg fl_le_of_int)
  have m: "0 \<le> fl (q * 1000)" "fl (q * 1000) \<le> 2 * (q * 1000)"
    using q fl_le_twice[of "q * 1000"] by (simp_all add: fl_nonneg)
  show "0 \<le> retry_ms r c l"
    using m by (simp add: retry_ms_def flip: d_def q_def)
  have "fl (q * 1000) \<le> 2000 * of_int c" using m q by linarith
  also have "\<dots> \<le> of_int (2000 * 2 ^ 52)"
    using assms(1) by (simp add: small_def)
  finally have "retry_ms r c l \<le> 2000 * 2 ^ 52"
    unfolding retry_ms_def d_def[symmetric] q_def[symmetric] by (simp only: ceiling_le_iff)
  then show "retry_ms r c l < 2 ^ 63" by simp
qed

end
