(* ===== verification/BucketSpec.thy ===== *)
theory BucketSpec
  imports LuaScripts
begin

text \<open>
  What the token bucket promises: over any window it admits at most a burst plus what accrues,
  a bucket that Redis has expired behaves as one that never was, and a caller that waits the
  announced time is admitted.
\<close>

lemma fl_upper: "0 \<le> x \<Longrightarrow> fl x \<le> x * (1 + 1 / 2 ^ 53)"
  using fl_error[of x] unfolding abs_le_iff by (simp add: algebra_simps)

lemma fl_lower: "0 \<le> x \<Longrightarrow> x * (1 - 1 / 2 ^ 53) \<le> fl x"
  using fl_error[of x] unfolding abs_le_iff by (simp add: algebra_simps)

lemma fl_upper_bounded: "0 \<le> x \<Longrightarrow> x \<le> b \<Longrightarrow> fl x \<le> x + b / 2 ^ 53"
  using fl_upper[of x] by (simp add: algebra_simps)

section \<open>Refill\<close>

text \<open>What a bucket gains per millisecond, rounding included.\<close>

definition accrual :: "int \<Rightarrow> rat" where
  "accrual r = of_int r / 1000 * (1 + 3 / 2 ^ 53)"

lemma accrual_nonneg: "0 \<le> r \<Longrightarrow> 0 \<le> accrual r"
  by (simp add: accrual_def)

lemma refill_upper:
  assumes "0 \<le> r" "0 \<le> e"
  shows "refill r e \<le> of_int e * of_int r / 1000 * (1 + 3 / 2 ^ 53)"
proof -
  let ?x = "of_int e / 1000 :: rat"
  have x: "0 \<le> ?x" using assms by simp
  have "refill r e \<le> (fl ?x * of_int r) * (1 + 1 / 2 ^ 53)"
    unfolding refill_def using assms x by (intro fl_upper) (simp add: fl_nonneg)
  also have "\<dots> \<le> (?x * (1 + 1 / 2 ^ 53) * of_int r) * (1 + 1 / 2 ^ 53)"
    using assms fl_upper[OF x] by (intro mult_right_mono) auto
  also have "\<dots> = ?x * of_int r * ((1 + 1 / 2 ^ 53) * (1 + 1 / 2 ^ 53))"
    by (simp only: mult_ac)
  also have "\<dots> \<le> ?x * of_int r * (1 + 3 / 2 ^ 53)"
    using assms x by (intro mult_left_mono) auto
  finally show ?thesis by simp
qed

lemma refill_lower:
  assumes "0 \<le> r" "0 \<le> e"
  shows "of_int e * of_int r / 1000 * (1 - 2 / 2 ^ 53) \<le> refill r e"
proof -
  let ?x = "of_int e / 1000 :: rat"
  have x: "0 \<le> ?x" using assms by simp
  have "?x * of_int r * (1 - 2 / 2 ^ 53) \<le> ?x * of_int r * ((1 - 1 / 2 ^ 53) * (1 - 1 / 2 ^ 53))"
    using assms x by (intro mult_left_mono) auto
  also have "\<dots> = (?x * (1 - 1 / 2 ^ 53) * of_int r) * (1 - 1 / 2 ^ 53)"
    by (simp only: mult_ac)
  also have "\<dots> \<le> (fl ?x * of_int r) * (1 - 1 / 2 ^ 53)"
    using assms fl_lower[OF x] by (intro mult_right_mono) auto
  also have "\<dots> \<le> refill r e"
    unfolding refill_def using assms x by (intro fl_lower) (simp add: fl_nonneg)
  finally show ?thesis by simp
qed

lemma refill_mono: "0 \<le> r \<Longrightarrow> e \<le> e' \<Longrightarrow> refill r e \<le> refill r e'"
  unfolding refill_def by (intro fl_mono mult_right_mono divide_right_mono) auto

lemma level_mono: "0 \<le> r \<Longrightarrow> t \<le> t' \<Longrightarrow> e \<le> e' \<Longrightarrow> level r b t e \<le> level r b t' e'"
  unfolding level_def by (intro min.mono fl_mono add_mono refill_mono) auto

lemma level_upper:
  assumes "0 \<le> r" "0 \<le> b" "0 \<le> e" "0 \<le> t"
  shows "level r b t e \<le> t + of_int e * accrual r + of_int b / 2 ^ 53"
proof -
  have f: "0 \<le> refill r e" using assms refill_nonneg by simp
  have "level r b t e \<le> t + refill r e + of_int b / 2 ^ 53"
  proof (cases "t + refill r e \<le> of_int b")
    case True
    then show ?thesis using f assms fl_upper_bounded[of "t + refill r e" "of_int b"]
      by (simp add: level_def min_le_iff_disj)
  next
    case False
    then show ?thesis using assms by (simp add: level_def min_le_iff_disj)
  qed
  moreover have "refill r e \<le> of_int e * accrual r"
    using refill_upper[OF assms(1,3)] by (simp add: accrual_def)
  ultimately show ?thesis by linarith
qed

section \<open>Conservation\<close>

datatype bucket_op = Check int int  \<comment> \<open>now, cost\<close> | Refund int

fun bucket_step :: "int \<Rightarrow> int \<Rightarrow> bucket_op \<Rightarrow> bucket option \<Rightarrow> int \<times> bucket option" where
  "bucket_step r b (Check now c) s =
    (let ((allowed, _, _), s') = bucket_check r b c now s in (if allowed then c else 0, Some s'))"
| "bucket_step r b (Refund n) s = (- n, bucket_refund b n s)"

fun bucket_run :: "int \<Rightarrow> int \<Rightarrow> bucket_op list \<Rightarrow> bucket option \<Rightarrow> int \<times> bucket option" where
  "bucket_run r b [] s = (0, s)"
| "bucket_run r b (x # xs) s =
    (let (n, s') = bucket_step r b x s; (m, s'') = bucket_run r b xs s' in (n + m, s''))"

fun op_ok :: "bucket_op \<Rightarrow> bool" where
  "op_ok (Check now c) \<longleftrightarrow> small now \<and> small c"
| "op_ok (Refund n) \<longleftrightarrow> small n"

fun times :: "bucket_op list \<Rightarrow> int list" where
  "times [] = []"
| "times (Check now c # xs) = now # times xs"
| "times (Refund n # xs) = times xs"

definition slack :: "int \<Rightarrow> rat" where
  "slack b = 2 * of_int b / 2 ^ 53"

lemma bucket_check_potential:
  assumes "small b" "0 \<le> r" "0 \<le> c" "small now" "bucket_wf b s"
    and "bucket_check r b c now s = ((allowed, rt, rm), (t', u'))"
  shows "t' + (if allowed then of_int c else 0) \<le> bucket_level r b now s + of_int b / 2 ^ 53"
proof -
  let ?l = "bucket_level r b now s"
  have l: "0 \<le> ?l" "?l \<le> of_int b"
    using bucket_level_bounds[OF assms(5,1,4,2)] by auto
  have b: "0 \<le> (of_int b / 2 ^ 53 :: rat)" using assms(1) by (simp add: small_def)
  show ?thesis
  proof (cases "of_int c \<le> ?l")
    case True
    then have "fl (?l - of_int c) \<le> (?l - of_int c) + of_int b / 2 ^ 53"
      using l assms(3) by (intro fl_upper_bounded) auto
    then show ?thesis using True assms(6) by (auto simp: bucket_check_def Let_def)
  next
    case False
    then show ?thesis using b assms(6) by (auto simp: bucket_check_def Let_def)
  qed
qed

lemma bucket_refund_potential:
  assumes "small b" "0 \<le> n" "bucket_wf b (Some (t, u))" "bucket_refund b n (Some (t, u)) = Some (t', u')"
  shows "t' \<le> t + of_int n + slack b" "u' = u"
proof -
  have t: "0 \<le> t" "t \<le> of_int b" using assms(3) by (auto simp: bucket_wf_def)
  have b: "0 \<le> b" using assms(1) by (simp add: small_def)
  have "min (of_int b) (fl (t + of_int n)) \<le> t + of_int n + slack b"
  proof (cases "t + of_int n \<le> of_int b")
    case True
    then have "fl (t + of_int n) \<le> t + of_int n + of_int b / 2 ^ 53"
      using t assms(2) by (intro fl_upper_bounded) auto
    moreover have "of_int b / 2 ^ 53 \<le> slack b" using b by (simp add: slack_def field_simps)
    ultimately show ?thesis by (simp add: min_le_iff_disj)
  next
    case False
    then show ?thesis using b by (simp add: min_le_iff_disj slack_def add_increasing2)
  qed
  then show "t' \<le> t + of_int n + slack b" "u' = u" using assms(4) by (simp_all add: bucket_refund_def)
qed

lemma slack_nonneg: "small b \<Longrightarrow> 0 \<le> slack b"
  by (simp add: slack_def small_def)

lemma bucket_run_from:
  assumes "small b" "0 \<le> r" "list_all op_ok xs" "bucket_wf b (Some (t, u))" "sorted (u # times xs)"
    and "bucket_run r b xs (Some (t, u)) = (n, s')"
  shows "\<exists>t' u'. s' = Some (t', u') \<and> u' \<in> set (u # times xs) \<and>
    of_int n + t' \<le> t + of_int (u' - u) * accrual r + of_int (int (length xs)) * slack b"
  using assms(3-)
proof (induction xs arbitrary: t u n)
  case Nil
  then show ?case by auto
next
  case (Cons x xs)
  obtain k s1 where st0: "bucket_step r b x (Some (t, u)) = (k, s1)" by fastforce
  have "\<exists>t1 u1. s1 = Some (t1, u1)"
    using st0 by (cases x) (auto simp: bucket_refund_def split: prod.splits)
  then obtain t1 u1 where st: "bucket_step r b x (Some (t, u)) = (k, Some (t1, u1))"
    using st0 by blast
  obtain m where rest: "bucket_run r b xs (Some (t1, u1)) = (m, s')" and n: "n = k + m"
    using Cons.prems(4) st by (auto split: prod.splits)
  have step: "of_int k + t1 \<le> t + of_int (u1 - u) * accrual r + slack b \<and> u \<le> u1 \<and>
      u1 \<in> set (u # times (x # xs)) \<and> sorted (u1 # times xs) \<and> bucket_wf b (Some (t1, u1))"
  proof (cases x)
    case (Check now c)
    obtain a rt rm where bc: "bucket_check r b c now (Some (t, u)) = ((a, rt, rm), (t1, u1))"
      and k: "k = (if a then c else 0)"
      using st Check by (auto split: prod.splits)
    have ok: "small now" "small c" "0 \<le> c" using Cons.prems(1) Check by (auto simp: small_def)
    have u1: "u1 = now" and un: "u \<le> now" using bc bucket_check_state[of r b c now "Some (t, u)"]
      Cons.prems(3) Check by auto
    have "bucket_level r b now (Some (t, u)) = level r b t (now - u)"
      using un by (simp add: bucket_level_def bucket_now_def elapsed_def max_def)
    moreover have "level r b t (now - u) \<le>
        t + of_int (now - u) * accrual r + of_int b / 2 ^ 53"
      using Cons.prems(2) assms(1,2) un by (intro level_upper) (auto simp: bucket_wf_def small_def)
    ultimately have "of_int k + t1 \<le> t + of_int (now - u) * accrual r + slack b"
      using bucket_check_potential[OF assms(1,2) ok(3,1) Cons.prems(2) bc]
      by (simp add: k slack_def split: if_splits)
    moreover have "bucket_wf b (Some (t1, u1))"
      using bucket_check_wf[OF Cons.prems(2) assms(1) ok(1) assms(2) ok(3)] bc by simp
    ultimately show ?thesis using Cons.prems(3) Check u1 un by auto
  next
    case (Refund j)
    have ok: "0 \<le> j" using Cons.prems(1) Refund by (simp add: small_def)
    have rf: "bucket_refund b j (Some (t, u)) = Some (t1, u1)" and k: "k = - j"
      using st Refund by auto
    note p = bucket_refund_potential[OF assms(1) ok Cons.prems(2) rf]
    have "bucket_wf b (Some (t1, u1))"
      using bucket_refund_wf[OF Cons.prems(2) assms(1) ok] rf by simp
    then show ?thesis using p k Cons.prems(3) Refund by auto
  qed
  from Cons.prems(1) have "list_all op_ok xs" by simp
  from Cons.IH[OF this _ _ rest] step obtain t' u' where
    ih: "s' = Some (t', u')" "u' \<in> set (u1 # times xs)"
      "of_int m + t' \<le> t1 + of_int (u' - u1) * accrual r + of_int (int (length xs)) * slack b"
    by blast
  have "of_int n + t' \<le> t + of_int (u1 - u) * accrual r + slack b +
      (of_int (u' - u1) * accrual r + of_int (int (length xs)) * slack b)"
    using step ih(3) n by simp
  also have "\<dots> = t + of_int (u' - u) * accrual r + of_int (int (length (x # xs))) * slack b"
    by (simp add: algebra_simps)
  finally have "of_int n + t' \<le> t + of_int (u' - u) * accrual r + of_int (int (length (x # xs))) * slack b" .
  moreover have "u' \<in> set (u # times (x # xs))" using ih(2) step by (cases x) auto
  ultimately show ?case using ih(1) by blast
qed

lemma bucket_step_wf:
  assumes "small b" "0 \<le> r" "op_ok x" "bucket_wf b s"
  shows "bucket_wf b (snd (bucket_step r b x s))"
proof (cases x)
  case (Check now c)
  then show ?thesis using bucket_check_wf[OF assms(4,1), of now r c] assms
    by (auto simp: small_def split: prod.splits)
next
  case (Refund n)
  then show ?thesis using bucket_refund_wf[OF assms(4,1), of n] assms by (simp add: small_def)
qed

lemma bucket_run_wf:
  "small b \<Longrightarrow> 0 \<le> r \<Longrightarrow> list_all op_ok xs \<Longrightarrow> bucket_wf b s \<Longrightarrow>
    bucket_wf b (snd (bucket_run r b xs s))"
proof (induction xs arbitrary: s)
  case (Cons x xs)
  have "bucket_wf b (snd (bucket_run r b xs (snd (bucket_step r b x s))))"
    using Cons.prems bucket_step_wf[of b r x s] by (intro Cons.IH) auto
  then show ?case by (simp add: split_beta Let_def)
qed simp

text \<open>
  Over any window of time, whatever the bucket held before it: admitted cost less refunds is at
  most one burst plus the accrual of the window, up to rounding.
\<close>

lemma bucket_run_window:
  assumes "small b" "0 \<le> r" "list_all op_ok xs" "bucket_wf b s" "sorted (times xs)"
    and "\<forall>x \<in> set (times xs). t0 \<le> x \<and> x \<le> t1" "t0 \<le> t1"
    and "bucket_run r b xs s = (n, s')"
  shows "of_int n \<le> of_int b + of_int (t1 - t0) * accrual r + of_int (int (length xs)) * slack b"
  using assms(3-6,8)
proof (induction xs arbitrary: s n)
  case Nil
  have "0 \<le> of_int (t1 - t0) * accrual r" using assms(2,7) by (simp add: accrual_nonneg)
  then show ?case using Nil assms(1) by (simp add: small_def)
next
  case (Cons x xs)
  show ?case
  proof (cases x)
    case (Check now c)
    obtain a rt rm t u m where bc: "bucket_check r b c now s = ((a, rt, rm), (t, u))"
      and m: "bucket_run r b xs (Some (t, u)) = (m, s')" and n: "n = (if a then c else 0) + m"
      using Cons.prems(5) Check by (auto split: prod.splits)
    have ok: "small now" "0 \<le> c" using Cons.prems(1) Check by (auto simp: small_def)
    have u: "u = now" using bc bucket_check_state[of r b c now s] by simp
    have wf: "bucket_wf b (Some (t, u))"
      using bucket_check_wf[OF Cons.prems(2) assms(1) ok(1) assms(2) ok(2)] bc by simp
    have l: "bucket_level r b now s \<le> of_int b"
      using bucket_level_bounds[OF Cons.prems(2) assms(1) ok(1) assms(2)] by simp
    have first: "t + (if a then of_int c else 0) \<le> of_int b + slack b"
      using bucket_check_potential[OF assms(1,2) ok(2,1) Cons.prems(2) bc] l assms(1)
      by (simp add: slack_def small_def)
    have "sorted (u # times xs)" "list_all op_ok xs"
      using Cons.prems(1,3) Check u by simp_all
    then obtain t' u' where r: "s' = Some (t', u')" "u' \<in> set (u # times xs)"
      "of_int m + t' \<le> t + of_int (u' - u) * accrual r + of_int (int (length xs)) * slack b"
      using bucket_run_from[OF assms(1,2) _ wf _ m] by blast
    have wf': "0 \<le> t'"
      using bucket_run_wf[OF assms(1,2) \<open>list_all op_ok xs\<close> wf] m r(1) by (simp add: bucket_wf_def)
    have "u' - u \<le> t1 - t0" using r(2) Cons.prems(4) Check u by auto
    then have "of_int (u' - u) * accrual r \<le> of_int (t1 - t0) * accrual r"
      using assms(2) by (intro mult_right_mono) (simp_all only: of_int_le_iff accrual_nonneg)
    then have "of_int n \<le> of_int b + slack b + of_int (t1 - t0) * accrual r +
        of_int (int (length xs)) * slack b"
      using first r(3) wf' n by (simp split: if_splits)
    then show ?thesis by (simp add: algebra_simps)
  next
    case (Refund j)
    have ok: "0 \<le> j" using Cons.prems(1) Refund by (simp add: small_def)
    obtain m where m: "bucket_run r b xs (bucket_refund b j s) = (m, s')" and n: "n = m - j"
      using Cons.prems(5) Refund by (auto split: prod.splits)
    have "of_int m \<le> of_int b + of_int (t1 - t0) * accrual r + of_int (int (length xs)) * slack b"
      using Cons.prems Refund m bucket_refund_wf[OF Cons.prems(2) assms(1) ok] by (intro Cons.IH) auto
    then show ?thesis using n ok slack_nonneg[OF assms(1)] by (simp add: algebra_simps)
  qed
qed

section \<open>Expiry and retries\<close>

definition ttl_s :: "int \<Rightarrow> int \<Rightarrow> int" where
  "ttl_s r b = \<lceil>fl (of_int b / of_int r)\<rceil> + 60"

lemma level_full: "small b \<Longrightarrow> of_int b \<le> t + refill r e \<Longrightarrow> level r b t e = of_int b"
  using fl_ge_of_int[of b "t + refill r e"] by (simp add: level_def small_def)

lemma bucket_level_expired:
  assumes "small b" "0 < r" "0 \<le> t" "1000 * ttl_s r b \<le> now - u"
  shows "bucket_level r b now (Some (t, u)) = of_int b"
proof -
  let ?n = "\<lceil>fl (of_int b / of_int r)\<rceil>"
  have b: "0 \<le> (of_int b / of_int r :: rat)" using assms by (simp add: small_def)
  have n0: "0 \<le> ?n" using fl_nonneg[OF b] by simp
  have "0 \<le> 1000 * ttl_s r b" unfolding ttl_s_def using n0 by (intro mult_nonneg_nonneg add_nonneg_nonneg) auto
  then have "0 \<le> now - u" using assms(4) by linarith
  then have e: "elapsed now u = now - u" by (simp add: elapsed_def)
  have "of_int b / of_int r * (1 - 1 / 2 ^ 53) \<le> (of_int ?n :: rat)"
    using fl_lower[OF b] le_of_int_ceiling[of "fl (of_int b / of_int r)"] by linarith
  then have "of_int r * (of_int b / of_int r * (1 - 1 / 2 ^ 53)) \<le> (of_int r * of_int ?n :: rat)"
    using assms(2) by (intro mult_left_mono) auto
  then have nb: "of_int b * (1 - 1 / 2 ^ 53) \<le> (of_int r * of_int ?n :: rat)"
    using assms(2) by simp
  have "of_int b \<le> of_int b * (1 - 1 / 2 ^ 53) + (1 :: rat)"
    using assms(1) by (simp add: small_def algebra_simps)
  also have "\<dots> \<le> (of_int r * of_int ?n + 1 :: rat)" using nb by simp
  finally have nb1: "of_int b \<le> (of_int r * of_int ?n + 1 :: rat)" .
  have "of_int (1000 * ttl_s r b) * of_int r / 1000 * (1 - 2 / 2 ^ 53) \<le> refill r (1000 * ttl_s r b)"
    using assms(2) n0 by (intro refill_lower) (auto simp: ttl_s_def)
  moreover have "of_int b \<le> (of_int (1000 * ttl_s r b) * of_int r / 1000 * (1 - 2 / 2 ^ 53) :: rat)"
  proof -
    have r1: "1 \<le> (of_int r :: rat)" using assms(2) by simp
    have "of_int b + of_int b * (4 / 2 ^ 53) + 1 \<le> (of_int r * of_int ?n + 1) + 2 + (1 :: rat)"
      using nb1 assms(1) by (simp add: small_def)
    also have "\<dots> \<le> of_int r * of_int ?n + 60 * of_int r" using r1 by linarith
    finally have "of_int b + of_int b * (4 / 2 ^ 53) + 1 \<le> (of_int (ttl_s r b) * of_int r :: rat)"
      by (simp add: ttl_s_def algebra_simps)
    then have "(of_int b + of_int b * (4 / 2 ^ 53) + 1) * (1 - 2 / 2 ^ 53) \<le>
        (of_int (ttl_s r b) * of_int r * (1 - 2 / 2 ^ 53) :: rat)"
      by (intro mult_right_mono) auto
    moreover have "of_int b \<le> (of_int b + of_int b * (4 / 2 ^ 53) + 1) * (1 - 2 / 2 ^ 53 :: rat)"
      using assms(1) by (simp add: small_def algebra_simps)
    ultimately show ?thesis by simp
  qed
  ultimately have "of_int b \<le> refill r (1000 * ttl_s r b)" by linarith
  also have "\<dots> \<le> refill r (now - u)" using assms(2,4) by (intro refill_mono) auto
  finally have "of_int b \<le> t + refill r (now - u)" using assms(3) by simp
  then show ?thesis using level_full[OF assms(1)] e by (simp add: bucket_level_def bucket_now_def)
qed

lemma bucket_level_fresh: "small b \<Longrightarrow> 0 \<le> r \<Longrightarrow> bucket_level r b now None = of_int b"
  using level_full[of b "of_int b" r 0] refill_nonneg[of r 0]
  by (simp add: bucket_level_def bucket_now_def elapsed_def)

lemma bucket_check_expired:
  assumes "small b" "0 < r" "0 \<le> t" "1000 * ttl_s r b \<le> now - u"
  shows "bucket_check r b c now (Some (t, u)) = bucket_check r b c now None"
  using bucket_level_expired[OF assms] bucket_level_fresh[of b r now] assms(1,2)
  by (simp add: bucket_check_def)

lemma retry_ms_lower:
  assumes "0 < r" "l < of_int c"
  shows "(of_int c - l) * (1 - 4 / 2 ^ 53) * 1000 \<le> of_int (retry_ms r c l) * of_int r"
proof -
  define x where "x = of_int c - l"
  define d where "d = fl x"
  define q where "q = fl (d / of_int r)"
  have x: "0 < x" using assms(2) by (simp add: x_def)
  have d: "0 \<le> d" "x * (1 - 1 / 2 ^ 53) \<le> d"
    using x fl_lower[of x] by (auto simp: d_def fl_nonneg)
  have q: "0 \<le> q" "d / of_int r * (1 - 1 / 2 ^ 53) \<le> q"
    using d(1) assms(1) fl_lower[of "d / of_int r"] by (auto simp: q_def fl_nonneg)
  have "d * (1 - 1 / 2 ^ 53) = of_int r * (d / of_int r * (1 - 1 / 2 ^ 53))"
    using assms(1) by simp
  also have "\<dots> \<le> of_int r * q" using q(2) assms(1) by (intro mult_left_mono) auto
  finally have rq: "d * (1 - 1 / 2 ^ 53) \<le> of_int r * q" .
  have "q * 1000 * (1 - 1 / 2 ^ 53) \<le> fl (q * 1000)" using q(1) by (intro fl_lower) simp
  also have "\<dots> \<le> of_int (retry_ms r c l)" by (simp add: retry_ms_def d_def q_def x_def)
  finally have "q * 1000 * (1 - 1 / 2 ^ 53) * of_int r \<le> of_int (retry_ms r c l) * of_int r"
    using assms(1) by (intro mult_right_mono) auto
  moreover have "x * (1 - 4 / 2 ^ 53) * 1000 \<le> q * 1000 * (1 - 1 / 2 ^ 53) * of_int r"
    using rq d x by (simp add: algebra_simps)
  ultimately show ?thesis by (simp add: x_def)
qed

lemma retry_then_admitted:
  assumes "small b" "0 < r" "0 \<le> l" "l < of_int c" "c \<le> b" "c \<le> 2 ^ 31"
    and "now + retry_ms r c l + 1 \<le> now'"
  shows "of_int c \<le> bucket_level r b now' (Some (l, now))"
proof -
  let ?e = "retry_ms r c l + 1"
  define x where "x = of_int c - l"
  define y where "y = of_int (retry_ms r c l) * (of_int r :: rat)"
  have c: "0 \<le> c" using assms(3,4) by (metis le_less_trans of_int_0_less_iff less_imp_le)
  have x: "0 < x" using assms(4) by (simp add: x_def)
  have "of_int c \<le> (of_int (2 ^ 31) :: rat)" using assms(6) by (simp only: of_int_le_iff)
  then have x31: "x \<le> 2 ^ 31" using assms(3) by (simp add: x_def)
  have y: "x * (1 - 4 / 2 ^ 53) * 1000 \<le> y"
    unfolding x_def y_def by (rule retry_ms_lower[OF assms(2,4)])
  have e0: "0 \<le> ?e"
    using retry_ms_bounds(1)[of c r l] assms c by (simp add: small_def)
  have r1: "1 \<le> (of_int r :: rat)" using assms(2) by simp
  have "of_int ?e * of_int r = y + of_int r" by (simp add: y_def algebra_simps)
  then have "x \<le> of_int ?e * of_int r / 1000 * (1 - 2 / 2 ^ 53)"
    using y x x31 r1 by simp
  also have "\<dots> \<le> refill r ?e" using refill_lower[of r ?e] assms(2) e0 by simp
  also have "\<dots> \<le> refill r (elapsed now' now)"
    using refill_mono[of r ?e "elapsed now' now"] assms(2,7) by (simp add: elapsed_def)
  finally have "of_int c \<le> l + refill r (elapsed now' now)" by (simp add: x_def)
  then have "of_int c \<le> fl (l + refill r (elapsed now' now))"
    using c assms(1,5) by (intro fl_ge_of_int) (auto simp: small_def)
  then show ?thesis using assms(5) by (simp add: bucket_level_def bucket_now_def level_def)
qed

end
