(* ===== verification/ScriptSpec.thy ===== *)
theory ScriptSpec
  imports BucketSpec
begin

text \<open>
  The scripts implement the abstract bucket and the abstract set of slots, for every Redis that
  obeys the laws of \<open>redis_laws\<close>.
\<close>

fun check_reply :: "bool \<times> int \<times> int \<Rightarrow> reply list" where
  "check_reply (a, rt, rm) = [RInt (if a then 1 else 0), RInt rt, RInt rm]"

definition slots_incr ::
  "int \<Rightarrow> int \<Rightarrow> int \<Rightarrow> string \<Rightarrow> (string, dbl) fmap \<Rightarrow> bool \<times> (string, dbl) fmap" where
  "slots_incr cap dur now token z =
    (let z1 = zreap (Fin (of_int (now - dur))) z
     in if zcount z1 < cap then (True, fmupd token (Fin (of_int now)) z1) else (False, z1))"

fun incr_reply :: "bool \<Rightarrow> string \<Rightarrow> reply list" where
  "incr_reply a token = (if a then [RInt 1, RStr token] else [RInt 0, RStr ''''])"

lemma whole_of_int [simp]: "whole (Fin (of_int n)) = Some n"
  by (simp add: whole_def)

lemma plus_60: "0 \<le> m \<Longrightarrow> m \<le> n \<Longrightarrow> small n \<Longrightarrow> \<bar>m + 60\<bar> \<le> 2 ^ 53"
  by (simp add: small_def)

lemma expire_arg:
  assumes "0 \<le> x" "x \<le> of_int n" "small n"
  shows "dadd (dceil (Fin (fl x))) (Fin 60) = Fin (of_int (\<lceil>fl x\<rceil> + 60))" "0 < \<lceil>fl x\<rceil> + 60"
    "\<lceil>fl x\<rceil> + 60 \<le> 2 ^ 53"
proof -
  have b: "0 \<le> \<lceil>fl x\<rceil>" "\<lceil>fl x\<rceil> \<le> n"
    using assms fl_nonneg[of x] fl_le_of_int[of x n]
    by (auto simp: ceiling_le_iff small_def intro: order_trans)
  then have "\<bar>\<lceil>fl x\<rceil> + 60\<bar> \<le> 2 ^ 53" using assms(3) plus_60 by blast
  then have "fl (of_int (\<lceil>fl x\<rceil> + 60)) = of_int (\<lceil>fl x\<rceil> + 60)" by (rule fl_of_int)
  then show "dadd (dceil (Fin (fl x))) (Fin 60) = Fin (of_int (\<lceil>fl x\<rceil> + 60))" by simp
  show "0 < \<lceil>fl x\<rceil> + 60" using b(1) by linarith
  show "\<lceil>fl x\<rceil> + 60 \<le> 2 ^ 53" using \<open>\<bar>\<lceil>fl x\<rceil> + 60\<bar> \<le> 2 ^ 53\<close> by (rule abs_le_D1)
qed

lemma reply_number_small: "0 \<le> n \<Longrightarrow> n < 2 ^ 63 \<Longrightarrow> reply_number (Fin (of_int n)) = RInt n"
  by (simp add: reply_number_def int64_id in_int64_def)

lemma reply_number_0 [simp]: "reply_number (Fin 0) = RInt 0"
  using reply_number_small[of 0] by simp

lemma floor_small:
  assumes "0 \<le> (x::rat)" "x \<le> of_int b" "small b" shows "0 \<le> \<lfloor>x\<rfloor>" "\<lfloor>x\<rfloor> < 2 ^ 63"
proof -
  have "\<lfloor>x\<rfloor> \<le> b" using assms(2) by linarith
  then show "0 \<le> \<lfloor>x\<rfloor>" "\<lfloor>x\<rfloor> < 2 ^ 63" using assms by (simp_all add: small_def)
qed

lemma bucket_decide_check:
  assumes "bucket_wf b (Some (t, u))" "small r" "small b" "small c" "small now" "0 < r"
    and "bucket_now b now s = (t, u)"
    and "bucket_check r b c now s = ((a, rt, rm), (t', u'))"
  shows "\<exists>d. bucket_decide (of_int_dbl r) (of_int_dbl b) (of_int_dbl c) (of_int_dbl now)
      (Fin t) (of_int_dbl u) = (a, d, Fin t') \<and> reply_number d = RInt rt \<and>
      reply_number (dfloor (Fin t')) = RInt rm \<and> u' = now"
proof -
  have u: "small u" using assms(1) by (simp add: bucket_wf_def)
  let ?l = "level r b t (elapsed now u)"
  have l: "bucket_level r b now s = ?l" by (simp add: bucket_level_def assms(7))
  have b: "0 \<le> ?l" "?l \<le> of_int b"
    using level_bounds[of r b "elapsed now u" t] assms by (auto simp: small_def bucket_wf_def)
  have t': "0 \<le> t'" "t' \<le> of_int b"
    using bucket_check_wf[of b s now r c] assms l b
    by (auto simp: bucket_check_def small_def Let_def intro!: fl_nonneg fl_le_of_int split: if_splits)
  have rm: "reply_number (dfloor (Fin t')) = RInt rm"
    using floor_small[OF t' assms(3)] assms(8)
    by (auto simp: bucket_check_def Let_def reply_number_small split: if_splits)
  have rt: "\<not> of_int c \<le> ?l \<Longrightarrow> reply_number (Fin (of_int (retry_ms r c ?l))) = RInt (retry_ms r c ?l)"
    using retry_ms_bounds[of c r ?l] assms b by (intro reply_number_small) auto
  show ?thesis
    using bucket_decide_small[OF assms(2-5) u assms(6), of t] assms(8) rm rt l
    by (auto simp: bucket_check_def Let_def split: if_splits)
qed

context redis_laws
begin

lemma token_bucket_lua_refines:
  assumes v: "bucket_view (look db k) s" and wf: "bucket_wf b s"
    and sm: "small r" "small b" "small c" "small now" and r: "0 < r"
  shows "\<exists>db'. token_bucket_lua R k r b c now db = (Inr (check_reply (fst (bucket_check r b c now s))), db') \<and>
    (\<forall>k'. k' \<noteq> k \<longrightarrow> look db' k' = look db k') \<and>
    bucket_view (look db' k) (Some (snd (bucket_check r b c now s)))"
proof -
  obtain a rt rm t' u' where bc: "bucket_check r b c now s = ((a, rt, rm), (t', u'))"
    by (metis prod.collapse)
  obtain t u where tu: "bucket_now b now s = (t, u)" by fastforce
  have wf': "bucket_wf b (Some (t, u))"
    using bucket_now_wf[OF wf sm(2,4) tu] by (simp add: bucket_wf_def)
  obtain d where d: "bucket_decide (of_int_dbl r) (of_int_dbl b) (of_int_dbl c) (of_int_dbl now)
      (Fin t) (of_int_dbl u) = (a, d, Fin t')" "reply_number d = RInt rt"
      "reply_number (Fin (of_int \<lfloor>t'\<rfloor>)) = RInt rm" "u' = now"
    using bucket_decide_check[OF wf' sm r tu bc] by auto
  obtain h where h: "hash_of (look db k) = Some h" "bucket_view (look db k) s"
    and hs: "(case h ''tokens'' of None \<Rightarrow> (of_int_dbl b, Some (of_int_dbl now))
        | Some t \<Rightarrow> (t, h ''updated_at'')) = (Fin t, Some (of_int_dbl u))"
  proof (cases s)
    case None
    then show thesis using v tu of_int_dbl_small[OF sm(2)]
      by (intro that[of Map.empty]) (auto simp: bucket_view_def bucket_now_def)
  next
    case (Some p)
    then show thesis using v tu that by (auto simp: bucket_view_def bucket_now_def)
  qed
  define h' where "h' = h ++ map_of (rev [(''tokens'', Fin t'), (''updated_at'', of_int_dbl now)])"
  obtain db1 where db1: "hset R k [(''tokens'', Fin t'), (''updated_at'', of_int_dbl now)] db = Inr db1"
    "look db1 = (look db)(k \<mapsto> Hash h')"
    using hset_hash[OF h(1)] unfolding h'_def by (blast elim: writesE)
  have q: "0 \<le> (of_int b / of_int r :: rat)" "(of_int b / of_int r :: rat) \<le> of_int b"
  proof -
    have "of_int b / of_int r \<le> of_int b / (1 :: rat)"
      using r sm(2) by (intro divide_left_mono) (auto simp: small_def)
    then show "0 \<le> (of_int b / of_int r :: rat)" "(of_int b / of_int r :: rat) \<le> of_int b"
      using r sm(2) by (auto simp: small_def)
  qed
  have ex: "dadd (dceil (ddiv (of_int_dbl b) (of_int_dbl r))) (Fin 60) =
      Fin (of_int (\<lceil>fl (of_int b / of_int r)\<rceil> + 60))"
    using expire_arg(1)[OF q sm(2)] r by (simp add: of_int_dbl_small sm)
  have "writes look (expire R k (Fin (of_int (\<lceil>fl (of_int b / of_int r)\<rceil> + 60))) db1) (look db1)"
    using expire_arg(2,3)[OF q sm(2)] by (intro expire_ttl[OF whole_of_int])
  then obtain db2 where db2: "expire R k (Fin (of_int (\<lceil>fl (of_int b / of_int r)\<rceil> + 60))) db1 = Inr db2"
    "look db2 = look db1"
    by (blast elim: writesE)
  have hv: "h' ''tokens'' = Some (Fin t')" "h' ''updated_at'' = Some (of_int_dbl now)"
    by (simp_all add: h'_def)
  have "token_bucket_lua R k r b c now db =
      (Inr [RInt (if a then 1 else 0), RInt rt, RInt rm], db2)"
    unfolding token_bucket_lua_def Let_def hmget_hash[OF h(1)]
    using hs d(1-3) db1(1) db2(1) ex by (cases "h ''tokens''") simp_all
  then show ?thesis
    using bc d(4) db1(2) db2(2) hv by (intro exI[of _ db2]) (auto simp: bucket_view_def)
qed

lemma refund_tokens_lua_refines:
  assumes v: "bucket_view (look db k) s" and wf: "bucket_wf b s" and sm: "small b" "\<bar>n\<bar> \<le> 2 ^ 53"
  shows "\<exists>x db'. refund_tokens_lua R k b n db = (Inr x, db') \<and>
    (\<forall>k'. k' \<noteq> k \<longrightarrow> look db' k' = look db k') \<and> bucket_view (look db' k) (bucket_refund b n s)"
proof (cases s)
  case None
  then have h: "hash_of (look db k) = Some Map.empty" using v by (simp add: bucket_view_def)
  then show ?thesis using None v hmget_hash[OF h]
    by (auto simp: refund_tokens_lua_def bucket_view_def bucket_refund_def)
next
  case (Some p)
  then obtain h t u where p: "s = Some (t, u)" and h: "look db k = Some (Hash h)"
    "h ''tokens'' = Some (Fin t)" "h ''updated_at'' = Some (of_int_dbl u)"
    using v by (cases p) (auto simp: bucket_view_def)
  have hh: "hash_of (look db k) = Some h" using h(1) by simp
  let ?t = "min (of_int b) (fl (t + of_int n))"
  have m: "lua_min (of_int_dbl b) (dadd (Fin t) (of_int_dbl n)) = Fin ?t"
    using sm by (auto simp: of_int_dbl_small of_int_dbl_exact lua_min_def min_def)
  obtain db1 where "hset R k [(''tokens'', Fin ?t)] db = Inr db1"
    "look db1 = (look db)(k \<mapsto> Hash (h ++ map_of (rev [(''tokens'', Fin ?t)])))"
    using hset_hash[OF hh] by (blast elim: writesE)
  then show ?thesis using p h m hmget_hash[OF hh]
    by (auto simp: refund_tokens_lua_def bucket_view_def bucket_refund_def)
qed

lemma concurrent_limiter_lua_refines:
  assumes z: "zset_of (look db k) = Some z"
    and sm: "small dur" "small now" "\<bar>cap\<bar> \<le> 2 ^ 53"
    and st: "slots_incr cap dur now token z = (a, z')"
  shows "\<exists>db'. concurrent_limiter_lua R k cap dur now token db = (Inr (incr_reply a token), db') \<and>
    look db' = (look db)(k := zput z')"
proof -
  define c where "c = (Fin (of_int (now - dur)) :: dbl)"
  have c: "dsub (Fin (of_int now)) (of_int_dbl dur) = c"
    using sm by (simp add: of_int_dbl_small fl_of_int_diff c_def)
  have n: "of_int_dbl now = Fin (of_int now)" using sm(2) by (rule of_int_dbl_small)
  obtain db1 where db1: "zremrangebyscore R k c db = Inr db1" "look db1 = (look db)(k := zput (zreap c z))"
    using zrem_range[OF z] by (blast elim: writesE)
  have z1: "zset_of (look db1 k) = Some (zreap c z)" using db1 by simp
  have lt: "dlt (of_int_dbl n) (of_int_dbl cap) \<longleftrightarrow> n < cap" if "0 \<le> n" for n
  proof (cases "n < cap")
    case True
    then have "\<bar>n\<bar> \<le> 2 ^ 53" using that sm(3) by linarith
    then show ?thesis using True sm(3) by (simp add: of_int_dbl_exact)
  next
    case False
    then have "fl (of_int cap) \<le> fl (of_int n)" by (intro fl_mono) simp
    then show ?thesis using False by (simp add: of_int_dbl_def)
  qed
  show ?thesis
  proof (cases "zcount (zreap c z) < cap")
    case True
    obtain db2 where db2: "zadd R k (of_int_dbl now) token db1 = Inr db2"
      "look db2 = (look db1)(k \<mapsto> ZSet (fmupd token (of_int_dbl now) (zreap c z)))"
      using zadd_zset[OF z1] by (blast elim: writesE)
    have q: "0 \<le> (of_int dur / 1000 :: rat)" "(of_int dur / 1000 :: rat) \<le> of_int dur"
      using sm(1) by (auto simp: small_def)
    have "dadd (dceil (ddiv (of_int_dbl dur) (Fin 1000))) (Fin 60) = Fin (of_int (\<lceil>fl (of_int dur / 1000)\<rceil> + 60))"
      using expire_arg(1)[OF q sm(1)] by (simp add: of_int_dbl_small sm)
    moreover obtain db3 where "expire R k (Fin (of_int (\<lceil>fl (of_int dur / 1000)\<rceil> + 60))) db2 = Inr db3"
      "look db3 = look db2"
      using expire_ttl[OF whole_of_int expire_arg(2,3)[OF q sm(1)]] by (blast elim: writesE)
    ultimately show ?thesis
      using True st db1 db2 zcard_zset[OF z1]
      unfolding concurrent_limiter_lua_def slots_incr_def Let_def c_def[symmetric] n c
      by (auto simp: lt zput_def)
  next
    case False
    then show ?thesis
      using st db1 zcard_zset[OF z1]
      unfolding concurrent_limiter_lua_def slots_incr_def Let_def c_def[symmetric] n c
      by (auto simp: lt)
  qed
qed

end

end
