(* ===== verification/CoreMetrics.thy ===== *)
theory CoreMetrics
  imports Prelude
begin

text \<open>
  \<open>services/core/metrics/metrics.go\<close>: the counters, the gauge and the histograms a core process exports.
  A histogram is the list of its observations, in nanoseconds.
\<close>

record core_metrics =
  grpc_requests :: "string \<times> string \<Rightarrow> nat"
  grpc_durations :: "string \<Rightarrow> int list"
  redis_durations :: "string \<Rightarrow> int list"
  redis_errors :: "string \<Rightarrow> nat"
  config_reload :: "string \<Rightarrow> nat"
  fail_open :: "string \<times> string \<Rightarrow> nat"
  config_version :: "string \<rightharpoonup> nat"
  connection_security :: "string \<times> string \<Rightarrow> nat"
  current_config_hash :: string

definition core_metrics0 :: core_metrics where
  "core_metrics0 = \<lparr> grpc_requests = (\<lambda>_. 0), grpc_durations = (\<lambda>_. []), redis_durations = (\<lambda>_. []), redis_errors = (\<lambda>_. 0),
     config_reload = (\<lambda>_. 0), fail_open = (\<lambda>_. 0), config_version = Map.empty,
     connection_security = (\<lambda>_. 0), current_config_hash = '''' \<rparr>"

definition inc :: "('k \<Rightarrow> nat) \<Rightarrow> 'k \<Rightarrow> 'k \<Rightarrow> nat" where
  "inc f k = f(k := Suc (f k))"

definition observe :: "(string \<Rightarrow> int list) \<Rightarrow> string \<Rightarrow> int \<Rightarrow> string \<Rightarrow> int list" where
  "observe h k d = h(k := h k @ [d])"

definition RecordGRPCRequest :: "string \<Rightarrow> string \<Rightarrow> int \<Rightarrow> core_metrics \<Rightarrow> core_metrics" where
  "RecordGRPCRequest meth code duration m =
    m\<lparr>grpc_requests := inc (grpc_requests m) (meth, code), grpc_durations := observe (grpc_durations m) meth duration\<rparr>"

definition RecordRedisCall :: "string \<Rightarrow> int \<Rightarrow> bool \<Rightarrow> core_metrics \<Rightarrow> core_metrics" where
  "RecordRedisCall operation duration failed m =
    (let m1 = m\<lparr>redis_durations := observe (redis_durations m) operation duration\<rparr>
     in if failed then m1\<lparr>redis_errors := inc (redis_errors m1) operation\<rparr> else m1)"

definition RecordConfigReload :: "string \<Rightarrow> core_metrics \<Rightarrow> core_metrics" where
  "RecordConfigReload result m = m\<lparr>config_reload := inc (config_reload m) result\<rparr>"

definition RecordFailOpen :: "string \<Rightarrow> string \<Rightarrow> core_metrics \<Rightarrow> core_metrics" where
  "RecordFailOpen tier reason m = m\<lparr>fail_open := inc (fail_open m) (tier, reason)\<rparr>"

definition RecordConfigVersion :: "string \<Rightarrow> core_metrics \<Rightarrow> core_metrics" where
  "RecordConfigVersion hash m =
    (let m1 = (if current_config_hash m \<noteq> '''' \<and> current_config_hash m \<noteq> hash
               then m\<lparr>config_version := (config_version m)(current_config_hash m := None)\<rparr> else m)
     in m1\<lparr>current_config_hash := hash, config_version := (config_version m1)(hash \<mapsto> 1)\<rparr>)"

definition RecordConnectionSecurity :: "string \<Rightarrow> string \<Rightarrow> core_metrics \<Rightarrow> core_metrics" where
  "RecordConnectionSecurity transport cert m =
    m\<lparr>connection_security := inc (connection_security m) (transport, cert)\<rparr>"

definition version_wf :: "core_metrics \<Rightarrow> bool" where
  "version_wf m \<longleftrightarrow> config_version m =
    (if current_config_hash m = '''' then Map.empty else [current_config_hash m \<mapsto> 1])"

lemma version_wf_start [simp]: "version_wf core_metrics0"
  by (simp add: version_wf_def core_metrics0_def)

lemma RecordConfigVersion_wf:
  "version_wf m \<Longrightarrow> hash \<noteq> '''' \<Longrightarrow> version_wf (RecordConfigVersion hash m)"
  by (auto simp: version_wf_def RecordConfigVersion_def Let_def)

lemma other_metrics_wf [simp]:
  "version_wf (RecordGRPCRequest me c d m) = version_wf m"
  "version_wf (RecordRedisCall op d f m) = version_wf m"
  "version_wf (RecordConfigReload r m) = version_wf m"
  "version_wf (RecordFailOpen t r m) = version_wf m"
  "version_wf (RecordConnectionSecurity t c m) = version_wf m"
  by (simp_all add: version_wf_def RecordGRPCRequest_def RecordRedisCall_def RecordConfigReload_def
      RecordFailOpen_def RecordConnectionSecurity_def Let_def)

text \<open>Once a version is recorded, one series is exported.\<close>

definition version_set :: "core_metrics \<Rightarrow> bool" where
  "version_set m \<longleftrightarrow> current_config_hash m \<noteq> '''' \<and> config_version m = [current_config_hash m \<mapsto> 1]"

lemma RecordConfigVersion_set:
  "version_wf m \<Longrightarrow> hash \<noteq> '''' \<Longrightarrow> version_set (RecordConfigVersion hash m)"
  "version_set m \<Longrightarrow> hash \<noteq> '''' \<Longrightarrow> version_set (RecordConfigVersion hash m)"
  by (auto simp: version_wf_def version_set_def RecordConfigVersion_def Let_def)

lemma other_metrics_set [simp]:
  "version_set (RecordGRPCRequest me c d m) = version_set m"
  "version_set (RecordRedisCall op d f m) = version_set m"
  "version_set (RecordConfigReload r m) = version_set m"
  "version_set (RecordFailOpen t r m) = version_set m"
  "version_set (RecordConnectionSecurity t c m) = version_set m"
  by (simp_all add: version_set_def RecordGRPCRequest_def RecordRedisCall_def RecordConfigReload_def
      RecordFailOpen_def RecordConnectionSecurity_def Let_def)

end
