(* ===== verification/RedisStore.thy ===== *)
theory RedisStore
  imports ScriptSpec CoreMetrics Pipeline "HOL-Library.Stream"
begin

text \<open>
  \<open>services/core/store/redis.go\<close>: the store over the scripts.  A core process is a record: its
  database, the environment of its future calls (clock, UUID, network, other clients), the events
  its \<open>select\<close> loops will see, its metrics, and the log of store calls it has made.
\<close>

section \<open>One call's environment and the state of a core process\<close>

datatype link = Up | LostRequest go_error | LostReply go_error

record 'db call_env =
  unix_milli :: int
  uuid_string :: string
  net :: link
  call_nanos :: int
  others :: "'db \<Rightarrow> 'db"

datatype store_call =
    CallCheck string int int int "go_error + bool \<times> int \<times> int"
  | CallIncr string int int "go_error + bool \<times> string"
  | CallDecr string string "go_error option"
  | CallRefund string int int "go_error option"

record 'db core =
  db :: 'db
  envs :: "'db call_env stream"
  selects :: "sel_event list stream"
  metrics :: core_metrics
  history :: "store_call list"

record 'db redis_store =
  client :: "'db redis"
  signingKey :: string

section \<open>Tokens\<close>

definition hex_digit :: "nat \<Rightarrow> char" where
  "hex_digit n = ''0123456789abcdef'' ! (n mod 16)"

definition hex_encode :: "string \<Rightarrow> string" where
  "hex_encode bs = concat (map (\<lambda>c. [hex_digit (of_char c div 16), hex_digit (of_char c)]) bs)"

text \<open>The parameter \<open>H\<close> is \<open>hmac.New(sha256.New, key)\<close> applied to a message.\<close>

definition signToken :: "(string \<Rightarrow> string \<Rightarrow> string) \<Rightarrow> string \<Rightarrow> string \<Rightarrow> string" where
  "signToken H candidateUUID key = candidateUUID @ ''.'' @ hex_encode (H key candidateUUID)"

section \<open>The store's operations\<close>

definition rateLimiterKeyPrefix :: string where "rateLimiterKeyPrefix = ''rl:''"
definition concurrencyKeyPrefix :: string where "concurrencyKeyPrefix = ''cc:''"

definition over_link :: "link \<Rightarrow> ('db \<Rightarrow> (go_error + 'a) \<times> 'db) \<Rightarrow> 'db \<Rightarrow> (go_error + 'a) \<times> 'db" where
  "over_link l f d = (case l of Up \<Rightarrow> f d | LostRequest e \<Rightarrow> (Inl e, d) | LostReply e \<Rightarrow> (Inl e, snd (f d)))"

text \<open>
  A call to Redis: the environment's next entry gives the clock, the fresh UUID, what became of
  the request and how long it took, and what every other client did to the keyspace since this process's last call.
\<close>

definition redis_call ::
  "string \<Rightarrow> ('db call_env \<Rightarrow> 'db \<Rightarrow> (go_error + 'a) \<times> 'db) \<Rightarrow> 'db core \<Rightarrow> (go_error + 'a) \<times> 'db core" where
  "redis_call operation f s =
    (let env = shd (envs s);
         (result, db') = over_link (net env) (f env) (others env (db s))
     in (result, s\<lparr>db := db', envs := stl (envs s),
           metrics := RecordRedisCall operation (call_nanos env) (\<not> (\<exists>x. result = Inr x)) (metrics s)\<rparr>))"

definition log_call :: "store_call \<Rightarrow> 'db core \<Rightarrow> 'db core" where
  "log_call c s = s\<lparr>history := history s @ [c]\<rparr>"

definition decode_check :: "reply list \<Rightarrow> go_error + bool \<times> int \<times> int" where
  "decode_check result =
    (if length result \<noteq> 3 then Inl ''store: unexpected lua script result shape''
     else case result ! 0 of RStr _ \<Rightarrow> Inl ''store: unexpected allowed type''
     | RInt allowed \<Rightarrow> (case result ! 1 of RStr _ \<Rightarrow> Inl ''store: unexpected retryAfterMs type''
     | RInt retryAfterMs \<Rightarrow> (case result ! 2 of RStr _ \<Rightarrow> Inl ''store: unexpected remaining type''
     | RInt remaining \<Rightarrow> Inr (allowed = 1, retryAfterMs, remaining))))"

definition decode_incr :: "reply list \<Rightarrow> go_error + bool \<times> string" where
  "decode_incr result =
    (if length result \<noteq> 2 then Inl ''store: unexpected lua script result shape''
     else case result ! 0 of RStr _ \<Rightarrow> Inl ''store: unexpected allowed type''
     | RInt allowed \<Rightarrow> (case result ! 1 of RInt _ \<Rightarrow> Inl ''store: unexpected token type''
     | RStr token \<Rightarrow> Inr (allowed = 1, token)))"

definition CheckAndDecrement ::
  "'db redis_store \<Rightarrow> string \<Rightarrow> int \<Rightarrow> int \<Rightarrow> int \<Rightarrow> 'db core \<Rightarrow> (go_error + bool \<times> int \<times> int) \<times> 'db core" where
  "CheckAndDecrement st key rate burst cost s =
    (let (result, s1) = redis_call ''check_and_decrement''
           (\<lambda>env. token_bucket_lua (client st) (rateLimiterKeyPrefix @ key) rate burst cost (unix_milli env)) s;
         r = (case result of Inl e \<Rightarrow> Inl e | Inr reply \<Rightarrow> decode_check reply)
     in (r, log_call (CallCheck key rate burst cost r) s1))"

definition IncrConcurrent ::
  "(string \<Rightarrow> string \<Rightarrow> string) \<Rightarrow> 'db redis_store \<Rightarrow> string \<Rightarrow> int \<Rightarrow> int \<Rightarrow> 'db core \<Rightarrow>
   (go_error + bool \<times> string) \<times> 'db core" where
  "IncrConcurrent H st key cap maxDurationMs s =
    (let (result, s1) = redis_call ''incr_concurrent''
           (\<lambda>env. concurrent_limiter_lua (client st) (concurrencyKeyPrefix @ key) cap maxDurationMs
              (unix_milli env) (signToken H (uuid_string env) (signingKey st))) s;
         r = (case result of Inl e \<Rightarrow> Inl e | Inr reply \<Rightarrow> decode_incr reply)
     in (r, log_call (CallIncr key cap maxDurationMs r) s1))"

definition error_of :: "go_error + 'a \<Rightarrow> go_error option" where
  "error_of r = (case r of Inl e \<Rightarrow> Some e | Inr _ \<Rightarrow> None)"

definition RefundTokens ::
  "'db redis_store \<Rightarrow> string \<Rightarrow> int \<Rightarrow> int \<Rightarrow> 'db core \<Rightarrow> go_error option \<times> 'db core" where
  "RefundTokens st key burst refundAmount s =
    (let (result, s1) = redis_call ''refund_tokens''
           (\<lambda>env. refund_tokens_lua (client st) (rateLimiterKeyPrefix @ key) burst refundAmount) s
     in (error_of result, log_call (CallRefund key burst refundAmount (error_of result)) s1))"

definition zrem_command :: "'db redis \<Rightarrow> string \<Rightarrow> string \<Rightarrow> 'db \<Rightarrow> (go_error + unit) \<times> 'db" where
  "zrem_command R key token d = (case zrem R key token d of Inl e \<Rightarrow> (Inl e, d) | Inr d' \<Rightarrow> (Inr (), d'))"

definition DecrConcurrent ::
  "'db redis_store \<Rightarrow> string \<Rightarrow> string \<Rightarrow> 'db core \<Rightarrow> go_error option \<times> 'db core" where
  "DecrConcurrent st key token s =
    (let (result, s1) = redis_call ''decr_concurrent''
           (\<lambda>env. zrem_command (client st) (concurrencyKeyPrefix @ key) token) s
     in (error_of result, log_call (CallDecr key token (error_of result)) s1))"

section \<open>Facts\<close>

lemma decode_check_reply [simp]: "decode_check (check_reply x) = Inr x"
  by (cases x) (simp add: decode_check_def)

lemma decode_incr_reply [simp]: "decode_incr (incr_reply a t) = Inr (a, if a then t else '''')"
  by (simp add: decode_incr_def)

lemma redis_call_frame:
  "redis_call op f s = (r, s') \<Longrightarrow> history s' = history s \<and> selects s' = selects s \<and> envs s' = stl (envs s)"
  by (auto simp: redis_call_def Let_def split: prod.splits)

lemma log_call_sel [simp]:
  "history (log_call c s) = history s @ [c]" "db (log_call c s) = db s" "envs (log_call c s) = envs s"
  "selects (log_call c s) = selects s" "metrics (log_call c s) = metrics s"
  by (simp_all add: log_call_def)

lemma CheckAndDecrement_history:
  "CheckAndDecrement st k r b c s = (x, s') \<Longrightarrow> history s' = history s @ [CallCheck k r b c x] \<and> selects s' = selects s"
  by (auto simp: CheckAndDecrement_def Let_def dest: redis_call_frame split: prod.splits)

lemma IncrConcurrent_history:
  "IncrConcurrent H st k c d s = (x, s') \<Longrightarrow> history s' = history s @ [CallIncr k c d x] \<and> selects s' = selects s"
  by (auto simp: IncrConcurrent_def Let_def dest: redis_call_frame split: prod.splits)

lemma DecrConcurrent_history:
  "DecrConcurrent st k t s = (x, s') \<Longrightarrow> history s' = history s @ [CallDecr k t x] \<and> selects s' = selects s"
  by (auto simp: DecrConcurrent_def Let_def dest: redis_call_frame split: prod.splits)

lemma RefundTokens_history:
  "RefundTokens st k b n s = (x, s') \<Longrightarrow> history s' = history s @ [CallRefund k b n x] \<and> selects s' = selects s"
  by (auto simp: RefundTokens_def Let_def dest: redis_call_frame split: prod.splits)

section \<open>The store as the limiters see it\<close>

definition next_events :: "'db core \<Rightarrow> sel_event list \<times> 'db core" where
  "next_events s = (shd (selects s), s\<lparr>selects := stl (selects s)\<rparr>)"

definition core_rate_store :: "'db redis_store \<Rightarrow> 'db core rate_store" where
  "core_rate_store st = \<lparr>check_and_decrement = CheckAndDecrement st,
     record_fail_open = (\<lambda>tier why s. s\<lparr>metrics := RecordFailOpen tier why (metrics s)\<rparr>)\<rparr>"

definition core_slot_store :: "(string \<Rightarrow> string \<Rightarrow> string) \<Rightarrow> 'db redis_store \<Rightarrow> 'db core slot_store" where
  "core_slot_store H st = \<lparr>incr_concurrent = IncrConcurrent H st, decr_concurrent = DecrConcurrent st,
     await_events = next_events\<rparr>"

text \<open>What the process still answers for, read off its log: every slot granted to it less those whose
  release it has asked for, whether or not the call succeeded.  A release that failed is not asked
  again: such a slot may stay taken in Redis until it is reaped, which \<open>taken_slots\<close> keeps account of.\<close>

fun ledger_step :: "store_call \<Rightarrow> (string \<times> string) multiset \<Rightarrow> (string \<times> string) multiset" where
  "ledger_step (CallIncr k c d (Inr (a, t))) m = (if a then add_mset (k, t) m else m)"
| "ledger_step (CallDecr k t e) m = m - {#(k, t)#}"
| "ledger_step _ m = m"

definition held_slots :: "'db core \<Rightarrow> (string \<times> string) multiset" where
  "held_slots s = fold ledger_step (history s) {#}"

fun taken_step :: "store_call \<Rightarrow> (string \<times> string) multiset \<Rightarrow> (string \<times> string) multiset" where
  "taken_step (CallDecr k t (Some e)) m = m"
| "taken_step c m = ledger_step c m"

definition taken_slots :: "'db core \<Rightarrow> (string \<times> string) multiset" where
  "taken_slots s = fold taken_step (history s) {#}"

lemma held_slots_log:
  "history s' = history s @ [c] \<Longrightarrow> held_slots s' = ledger_step c (held_slots s)"
  "history s' = history s @ [c] \<Longrightarrow> taken_slots s' = taken_step c (taken_slots s)"
  by (simp_all add: held_slots_def taken_slots_def)

lemma signToken_nonempty [simp]: "signToken H u k \<noteq> ''''"
  by (simp add: signToken_def)

lemma concurrent_limiter_lua_reply:
  "concurrent_limiter_lua R k cap dur now t d = (Inr r, d') \<Longrightarrow> r = [RInt 1, RStr t] \<or> r = [RInt 0, RStr '''']"
  by (auto simp: concurrent_limiter_lua_def Let_def split: sum.splits if_splits)

lemma over_link_reply: "over_link l f d = (Inr r, d') \<Longrightarrow> f d = (Inr r, d')"
  by (auto simp: over_link_def split: link.splits)

lemma IncrConcurrent_reply:
  assumes "IncrConcurrent H st k c d s = (Inr (a, t), s')"
  shows "a \<and> t = signToken H (uuid_string (shd (envs s))) (signingKey st) \<or> \<not> a \<and> t = ''''"
proof -
  let ?t = "signToken H (uuid_string (shd (envs s))) (signingKey st)"
  obtain r d' where "concurrent_limiter_lua (client st) (concurrencyKeyPrefix @ k) c d
      (unix_milli (shd (envs s))) ?t (others (shd (envs s)) (db s)) = (Inr r, d')" "decode_incr r = Inr (a, t)"
    using assms by (auto simp: IncrConcurrent_def redis_call_def Let_def dest!: over_link_reply
        split: sum.splits prod.splits)
  with concurrent_limiter_lua_reply[OF this(1)] show ?thesis by (auto simp: decode_incr_def)
qed

interpretation slots: slot_ledger "core_slot_store H st" held_slots for H st
proof
  fix k c d t e x es and s s' :: "'a core"
  let ?S = "core_slot_store H st :: 'a core slot_store"
  show "t \<noteq> '''' \<and> held_slots s' = held_slots s + {#(k, t)#}"
    if "incr_concurrent ?S k c d s = (Inr (True, t), s')"
    using that IncrConcurrent_history[of H st k c d s "Inr (True, t)" s'] IncrConcurrent_reply[of H st k c d s True t s']
    by (auto simp: core_slot_store_def held_slots_log)
  show "t = '''' \<and> held_slots s' = held_slots s"
    if "incr_concurrent ?S k c d s = (Inr (False, t), s')"
    using that IncrConcurrent_history[of H st k c d s "Inr (False, t)" s'] IncrConcurrent_reply[of H st k c d s False t s']
    by (auto simp: core_slot_store_def held_slots_log)
  show "held_slots s' = held_slots s" if "incr_concurrent ?S k c d s = (Inl e, s')"
    using that IncrConcurrent_history[of H st k c d s "Inl e" s'] by (auto simp: core_slot_store_def held_slots_log)
  show "held_slots s' = held_slots s - {#(k, t)#}" if "decr_concurrent ?S k t s = (x, s')"
    using that DecrConcurrent_history[of st k t s x s'] by (auto simp: core_slot_store_def held_slots_log)
  show "held_slots s' = held_slots s" if "await_events ?S s = (es, s')"
    using that by (auto simp: core_slot_store_def next_events_def held_slots_def)
qed

interpretation taken: taken_ledger "core_slot_store H st" taken_slots for H st
proof
  fix k c d t e x es and s s' :: "'a core"
  let ?S = "core_slot_store H st :: 'a core slot_store"
  show "t \<noteq> '''' \<and> taken_slots s' = taken_slots s + {#(k, t)#}"
    if "incr_concurrent ?S k c d s = (Inr (True, t), s')"
    using that IncrConcurrent_history[of H st k c d s "Inr (True, t)" s'] IncrConcurrent_reply[of H st k c d s True t s']
    by (auto simp: core_slot_store_def held_slots_log)
  show "t = '''' \<and> taken_slots s' = taken_slots s"
    if "incr_concurrent ?S k c d s = (Inr (False, t), s')"
    using that IncrConcurrent_history[of H st k c d s "Inr (False, t)" s'] IncrConcurrent_reply[of H st k c d s False t s']
    by (auto simp: core_slot_store_def held_slots_log)
  show "taken_slots s' = taken_slots s" if "incr_concurrent ?S k c d s = (Inl e, s')"
    using that IncrConcurrent_history[of H st k c d s "Inl e" s'] by (auto simp: core_slot_store_def held_slots_log)
  show "taken_slots s' = (case x of None \<Rightarrow> taken_slots s - {#(k, t)#} | Some e \<Rightarrow> taken_slots s)"
    if "decr_concurrent ?S k t s = (x, s')"
    using that DecrConcurrent_history[of st k t s x s']
    by (auto simp: core_slot_store_def held_slots_log split: option.split)
  show "taken_slots s' = taken_slots s" if "await_events ?S s = (es, s')"
    using that by (auto simp: core_slot_store_def next_events_def taken_slots_def)
qed

interpretation rates: rate_ledger "core_rate_store st" held_slots for st
proof
  fix k r b c x tier why and s s' :: "'a core"
  show "held_slots s' = held_slots s" if "check_and_decrement (core_rate_store st) k r b c s = (x, s')"
    using that CheckAndDecrement_history[of st k r b c s x s'] by (auto simp: core_rate_store_def held_slots_log)
  show "held_slots (record_fail_open (core_rate_store st) tier why s) = held_slots s"
    by (simp add: core_rate_store_def held_slots_def)
qed

end
