(* ===== verification/CoreServer.thy ===== *)
theory CoreServer
  imports Pipeline RedisStore GoStrings
begin

text \<open>
  \<open>services/core/grpcserver/server.go\<close>, \<open>auth/auth.go\<close> and \<open>metrics/interceptor.go\<close>: the four RPCs of
  a core process and the two interceptors around them.  A handler is a function of its request and
  the state; the limiters and the store it calls are arguments, as the interfaces of the source
  are.  Log lines and trace attributes are left out.
\<close>

section \<open>Statuses and messages\<close>

datatype code = OK | InvalidArgument | PermissionDenied | Internal | Unauthenticated | OtherCode string

fun code_String :: "code \<Rightarrow> string" where
  "code_String OK = ''OK''"
| "code_String InvalidArgument = ''InvalidArgument''"
| "code_String PermissionDenied = ''PermissionDenied''"
| "code_String Internal = ''Internal''"
| "code_String Unauthenticated = ''Unauthenticated''"
| "code_String (OtherCode c) = c"

type_synonym status = "code \<times> string"

text \<open>An enum of proto3 is open: a caller may send any number.\<close>

datatype proto_priority = PRIORITY_UNSPECIFIED | SHEDDABLE | CRITICAL | UnknownPriority int

datatype proto_action = P_ALLOW | P_REJECT_429 | P_REJECT_503 | P_SHADOW_LOG | P_QUEUE | P_UnknownAction int

record check_request =
  crq_Key :: string
  crq_Cost :: int
  crq_SkipReservations :: bool
  crq_Priority :: proto_priority

record check_response =
  crs_Action :: proto_action
  crs_RetryAfterMs :: int
  crs_Reservations :: "token_reservation list"
  crs_Tier :: string
  crs_Limit :: int
  crs_Remaining :: int

definition internalError :: status where
  "internalError = (Internal, ''internal error'')"

definition priorityAttrLabel :: "Priority \<Rightarrow> string" where
  "priorityAttrLabel p = (if p = Critical then ''critical'' else ''sheddable'')"

fun toProtoAction :: "Action \<Rightarrow> proto_action" where
  "toProtoAction ALLOW = P_ALLOW"
| "toProtoAction REJECT_429 = P_REJECT_429"
| "toProtoAction REJECT_503 = P_REJECT_503"
| "toProtoAction SHADOW_LOG = P_SHADOW_LOG"
| "toProtoAction QUEUE = P_QUEUE"

section \<open>The check\<close>

definition request_priority :: "proto_priority \<Rightarrow> Priority" where
  "request_priority p = (case p of CRITICAL \<Rightarrow> Critical | SHEDDABLE \<Rightarrow> Sheddable
     | PRIORITY_UNSPECIFIED \<Rightarrow> Sheddable | UnknownPriority _ \<Rightarrow> Sheddable)"

definition CheckRateLimit ::
  "'s limiter \<Rightarrow> check_request \<Rightarrow> 's \<Rightarrow> (status + check_response) outcome \<times> 's" where
  "CheckRateLimit pipeline req s =
    (if crq_Cost req \<le> 0 then (Done (Inl (InvalidArgument, ''cost must be greater than 0'')), s)
     else
      (case pipeline \<lparr>Key = crq_Key req, Cost = crq_Cost req,
          SkipReservations = crq_SkipReservations req, Priority = request_priority (crq_Priority req)\<rparr> s of
         (Done (decision, err), s1) \<Rightarrow>
           (if err \<noteq> None then (Done (Inl internalError), s1)
            else (Done (Inr \<lparr>crs_Action = toProtoAction (Action decision), crs_RetryAfterMs = RetryAfterMs decision,
                   crs_Reservations = Reservations decision, crs_Tier = Tier decision,
                   crs_Limit = Limit decision, crs_Remaining = Remaining decision\<rparr>), s1))
       | (Panicked m, s1) \<Rightarrow> (Panicked m, s1)
       | (Waiting, s1) \<Rightarrow> (Waiting, s1)))"

section \<open>Releasing a slot\<close>

definition verifyToken :: "(string \<Rightarrow> string \<Rightarrow> string) \<Rightarrow> string \<Rightarrow> string \<Rightarrow> bool" where
  "verifyToken H token key =
    (let (uuidPart, sigPart, found) = Cut token (CHR ''.'')
     in if \<not> found then False else sigPart = hex_encode (H key uuidPart))"

definition ReleaseConcurrency ::
  "(string \<Rightarrow> string \<Rightarrow> string) \<Rightarrow> string \<Rightarrow> 's slot_store \<Rightarrow> string \<Rightarrow> string \<Rightarrow> 's \<Rightarrow> (status + unit) \<times> 's" where
  "ReleaseConcurrency H key S req_Key req_ConcurrencyToken s =
    (if \<not> verifyToken H req_ConcurrencyToken key then (Inl (PermissionDenied, ''invalid concurrency token''), s)
     else (case decr_concurrent S req_Key req_ConcurrencyToken s of
       (Some err, s1) \<Rightarrow> (Inl internalError, s1)
     | (None, s1) \<Rightarrow> (Inr (), s1)))"

section \<open>Changing a limit\<close>

record set_response =
  srs_Tier :: string
  srs_PreviousValue :: int
  srs_NewValue :: int

definition SetDynamicLimit ::
  "string \<Rightarrow> int \<Rightarrow> token_bucket_limiter \<times> fleet_shedder \<Rightarrow>
   (status + set_response) \<times> token_bucket_limiter \<times> fleet_shedder" where
  "SetDynamicLimit req_Tier req_Value st =
    (case st of (rateLimiter, fleetShedder) \<Rightarrow>
      if req_Tier = ''rate_limiter'' then
        (case SetRate req_Value rateLimiter of (previous, rateLimiter') \<Rightarrow>
          (Inr \<lparr>srs_Tier = req_Tier, srs_PreviousValue = int32 previous, srs_NewValue = req_Value\<rparr>,
           rateLimiter', fleetShedder))
      else if req_Tier = ''fleet_shedder'' then
        (case SetReservedCriticalPct req_Value fleetShedder of
           (Inl err, fleetShedder') \<Rightarrow> (Inl (InvalidArgument, err), rateLimiter, fleetShedder')
         | (Inr previous, fleetShedder') \<Rightarrow>
           (Inr \<lparr>srs_Tier = req_Tier, srs_PreviousValue = int32 previous, srs_NewValue = req_Value\<rparr>,
            rateLimiter, fleetShedder'))
      else (Inl (InvalidArgument, ''tier must be \"rate_limiter\" or \"fleet_shedder\"''), rateLimiter, fleetShedder))"

section \<open>Refunding a cost\<close>

text \<open>\<open>refunder\<close> and the optional \<open>burstGetter\<close> of the rate limiter.\<close>

definition RefundCost ::
  "(string \<Rightarrow> int \<Rightarrow> int \<Rightarrow> 's \<Rightarrow> go_error option \<times> 's) \<Rightarrow> token_bucket_limiter option \<Rightarrow>
   string \<Rightarrow> int \<Rightarrow> 's \<Rightarrow> (status + unit) \<times> 's" where
  "RefundCost refund rateLimiter req_Key req_RefundAmount s =
    (let burst = (case rateLimiter of Some bg \<Rightarrow> Burst bg | None \<Rightarrow> 0)
     in case refund req_Key burst req_RefundAmount s of
       (Some err, s1) \<Rightarrow> (Inl internalError, s1)
     | (None, s1) \<Rightarrow> (Inr (), s1))"

section \<open>The interceptors\<close>

definition MetadataKey :: string where "MetadataKey = ''x-ratecap-shared-secret''"

text \<open>\<open>md\<close> is the incoming metadata, if the context has any.\<close>

definition auth_interceptor ::
  "string \<Rightarrow> (string \<Rightarrow> string list) option \<Rightarrow> ('s \<Rightarrow> (status + 'r) outcome \<times> 's) \<Rightarrow> 's \<Rightarrow>
   (status + 'r) outcome \<times> 's" where
  "auth_interceptor secret md handler s =
    (case md of None \<Rightarrow> (Done (Inl (Unauthenticated, ''missing shared secret'')), s)
     | Some m \<Rightarrow>
       if length (m MetadataKey) \<noteq> 1 then (Done (Inl (Unauthenticated, ''missing shared secret'')), s)
       else if m MetadataKey ! 0 \<noteq> secret then (Done (Inl (Unauthenticated, ''invalid shared secret'')), s)
       else handler s)"

definition methodName :: "string \<Rightarrow> string" where
  "methodName fullMethod = (case after_last fullMethod (CHR ''/'') of Some m \<Rightarrow> m | None \<Rightarrow> fullMethod)"

text \<open>What gRPC knows of the peer: nothing, another security, or TLS with so many certificates.\<close>

datatype peer = NoPeer | NoAuthInfo | OtherAuth | TLSInfo nat

fun classifyTransport :: "peer \<Rightarrow> string \<times> string" where
  "classifyTransport NoPeer = (''plaintext'', ''n/a'')"
| "classifyTransport NoAuthInfo = (''plaintext'', ''n/a'')"
| "classifyTransport OtherAuth = (''plaintext'', ''n/a'')"
| "classifyTransport (TLSInfo n) = (if n > 0 then (''tls'', ''present'') else (''tls'', ''absent''))"

text \<open>What the interceptor learns of a call besides its answer: the peer and the time it took.\<close>

record rpc_info =
  ri_peer :: peer
  ri_nanos :: int

definition status_Code :: "status + 'r \<Rightarrow> code" where
  "status_Code r = (case r of Inl (c, _) \<Rightarrow> c | Inr _ \<Rightarrow> OK)"

definition metrics_interceptor ::
  "string \<Rightarrow> rpc_info \<Rightarrow> ('db core \<Rightarrow> (status + 'r) outcome \<times> 'db core) \<Rightarrow> 'db core \<Rightarrow>
   (status + 'r) outcome \<times> 'db core" where
  "metrics_interceptor fullMethod p handler s =
    (case handler s of
       (Done r, s1) \<Rightarrow>
         (let (transport, clientCert) = classifyTransport (ri_peer p);
              m = RecordGRPCRequest (methodName fullMethod) (code_String (status_Code r)) (ri_nanos p) (metrics s1)
          in (Done r, s1\<lparr>metrics := RecordConnectionSecurity transport clientCert m\<rparr>))
     | (Panicked m, s1) \<Rightarrow> (Panicked m, s1)
     | (Waiting, s1) \<Rightarrow> (Waiting, s1))"

text \<open>\<open>grpc.ChainUnaryInterceptor\<close>: authentication is the outer one.\<close>

definition chained ::
  "string \<Rightarrow> (string \<Rightarrow> string list) option \<Rightarrow> string \<Rightarrow> rpc_info \<Rightarrow>
   ('db core \<Rightarrow> (status + 'r) outcome \<times> 'db core) \<Rightarrow> 'db core \<Rightarrow> (status + 'r) outcome \<times> 'db core" where
  "chained secret md fullMethod p handler =
    auth_interceptor secret md (metrics_interceptor fullMethod p handler)"

section \<open>The tiers of a core process\<close>

definition core_tiers ::
  "(string \<Rightarrow> string \<Rightarrow> string) \<Rightarrow> 'db redis_store \<Rightarrow> token_bucket_limiter \<Rightarrow> concurrency_limiter \<Rightarrow>
   fleet_shedder \<Rightarrow> 'db core limiter list" where
  "core_tiers H st tb cl fs =
    [tb_Check (core_rate_store st) tb, cl_Check (core_slot_store H st) cl, fs_Check (core_slot_store H st) fs]"

interpretation core_tiers: accounted_tiers "core_tiers H st tb cl fs" held_slots for H st tb cl fs
  by unfold_locales
    (auto simp: core_tiers_def dest: rates.tb_accounted slots.cl_accounted slots.fs_accounted)

lemma verifyToken_iff:
  "verifyToken H t key \<longleftrightarrow> (\<exists>u. CHR ''.'' \<notin> set u \<and> t = signToken H u key)"
proof
  assume v: "verifyToken H t key"
  obtain u s f where c: "Cut t (CHR ''.'') = (u, s, f)" by (metis prod_cases3)
  with v have "f" "s = hex_encode (H key u)" by (auto simp: verifyToken_def split: if_splits)
  with c show "\<exists>u. CHR ''.'' \<notin> set u \<and> t = signToken H u key"
    by (auto dest!: Cut_found simp: signToken_def)
qed (auto simp: verifyToken_def signToken_def Cut_append)

lemma core_tiers_cases:
  assumes "t \<in> set (core_tiers H st tb cl fs)"
  obtains (tier1) "t = tb_Check (core_rate_store st) tb" | (tier2) "t = cl_Check (core_slot_store H st) cl"
    | (tier3) "t = fs_Check (core_slot_store H st) fs"
  using assms by (auto simp: core_tiers_def)

end
