(* ===== verification/CoreConfig.thy ===== *)
theory CoreConfig
  imports CoreServer
begin

text \<open>
  \<open>services/core/config/config.go\<close> and \<open>services/core/main.go\<close>: the configuration, its validation and
  hash, what a process decides at start-up from its environment, the hot reload, and the process
  itself as a state machine of RPCs and reloads.  The YAML parser (\<open>unmarshal\<close>), the file system
  (\<open>read_file\<close>) and SHA-256 are parameters.
\<close>

section \<open>The configuration\<close>

record rate_limiter_config =
  rl_DefaultRate :: int
  rl_DefaultBurst :: int
  rl_ShadowMode :: bool

record concurrency_limiter_config =
  cc_DefaultMaxConcurrent :: int
  cc_MaxRequestDurationMs :: int
  cc_ShadowMode :: bool
  cc_QueueingEnabled :: bool
  cc_MaxBacklog :: int
  cc_MaxQueueWaitMs :: int
  cc_PollIntervalMs :: int

record fleet_shedder_config =
  fc_DefaultMaxConcurrent :: int
  fc_ReservedCriticalPct :: int
  fc_MaxRequestDurationMs :: int
  fc_ShadowMode :: bool

record config =
  cfg_RateLimiter :: rate_limiter_config
  cfg_ConcurrencyLimiter :: concurrency_limiter_config
  cfg_FleetShedder :: fleet_shedder_config

definition Load ::
  "(string \<Rightarrow> go_error + string) \<Rightarrow> (string \<Rightarrow> go_error + config) \<Rightarrow> string \<Rightarrow> go_error + config" where
  "Load read_file unmarshal path =
    (case read_file path of
       Inl err \<Rightarrow> Inl (''reading config '' @ path @ '': '' @ err)
     | Inr data \<Rightarrow>
       (case unmarshal data of
          Inl err \<Rightarrow> Inl (''parsing config '' @ path @ '': '' @ err)
        | Inr cfg \<Rightarrow> Inr cfg))"

text \<open>\<open>None\<close> is a nil error.\<close>

definition Validate :: "config \<Rightarrow> go_error option" where
  "Validate c =
    (let rl = cfg_RateLimiter c; cc = cfg_ConcurrencyLimiter c; fc = cfg_FleetShedder c in
     if rl_DefaultRate rl \<le> 0 then
       Some (''tiers.rate_limiter.default_rate must be > 0, got '' @ Itoa (rl_DefaultRate rl) @
         '' (is the rate_limiter block missing from your config?)'')
     else if rl_DefaultBurst rl < 0 then
       Some (''tiers.rate_limiter.default_burst must be >= 0, got '' @ Itoa (rl_DefaultBurst rl))
     else if cc_DefaultMaxConcurrent cc \<le> 0 then
       Some (''tiers.concurrency_limiter.default_max_concurrent must be > 0, got '' @
         Itoa (cc_DefaultMaxConcurrent cc) @ '' (is the concurrency_limiter block missing from your config?)'')
     else if fc_DefaultMaxConcurrent fc \<le> 0 then
       Some (''tiers.fleet_shedder.default_max_concurrent must be > 0, got '' @
         Itoa (fc_DefaultMaxConcurrent fc) @ '' (is the fleet_shedder block missing from your config?)'')
     else if fc_ReservedCriticalPct fc < 0 \<or> fc_ReservedCriticalPct fc > 100 then
       Some (''tiers.fleet_shedder.reserved_critical_pct must be between 0 and 100 inclusive, got '' @
         Itoa (fc_ReservedCriticalPct fc))
     else if cc_QueueingEnabled cc then
       (if cc_MaxBacklog cc \<le> 0 then
          Some (''tiers.concurrency_limiter.max_backlog must be > 0 when queueing_enabled is true, got '' @
            Itoa (cc_MaxBacklog cc))
        else if cc_MaxQueueWaitMs cc \<le> 0 then
          Some (''tiers.concurrency_limiter.max_queue_wait_ms must be > 0 when queueing_enabled is true, got '' @
            Itoa (cc_MaxQueueWaitMs cc))
        else if cc_PollIntervalMs cc \<le> 0 then
          Some (''tiers.concurrency_limiter.poll_interval_ms must be > 0 when queueing_enabled is true, got '' @
            Itoa (cc_PollIntervalMs cc))
        else if cc_PollIntervalMs cc > cc_MaxQueueWaitMs cc then
          Some (''tiers.concurrency_limiter.poll_interval_ms ('' @ Itoa (cc_PollIntervalMs cc) @
            '') must not exceed max_queue_wait_ms ('' @ Itoa (cc_MaxQueueWaitMs cc) @ '')'' @
            em_dash @ ''a waiter would never get a chance to poll before timing out'')
        else None)
     else None)"

definition json_bool :: "bool \<Rightarrow> string" where
  "json_bool b = (if b then ''true'' else ''false'')"

definition json_field :: "string \<Rightarrow> string \<Rightarrow> string" where
  "json_field name v = CHR 0x22 # name @ [CHR 0x22] @ '':'' @ v"

definition json_object :: "string list \<Rightarrow> string" where
  "json_object fs = ''{'' @ concat (case fs of [] \<Rightarrow> [] | f # r \<Rightarrow> f # map (\<lambda>g. '','' @ g) r) @ ''}''"

text \<open>\<open>json.Marshal\<close> of a configuration: the fields of the structs in their order.\<close>

definition config_json :: "config \<Rightarrow> string" where
  "config_json c =
    (let rl = cfg_RateLimiter c; cc = cfg_ConcurrencyLimiter c; fc = cfg_FleetShedder c in
     json_object [json_field ''Tiers'' (json_object [
       json_field ''RateLimiter'' (json_object [
         json_field ''DefaultRate'' (Itoa (rl_DefaultRate rl)),
         json_field ''DefaultBurst'' (Itoa (rl_DefaultBurst rl)),
         json_field ''ShadowMode'' (json_bool (rl_ShadowMode rl))]),
       json_field ''ConcurrencyLimiter'' (json_object [
         json_field ''DefaultMaxConcurrent'' (Itoa (cc_DefaultMaxConcurrent cc)),
         json_field ''MaxRequestDurationMs'' (Itoa (cc_MaxRequestDurationMs cc)),
         json_field ''ShadowMode'' (json_bool (cc_ShadowMode cc)),
         json_field ''QueueingEnabled'' (json_bool (cc_QueueingEnabled cc)),
         json_field ''MaxBacklog'' (Itoa (cc_MaxBacklog cc)),
         json_field ''MaxQueueWaitMs'' (Itoa (cc_MaxQueueWaitMs cc)),
         json_field ''PollIntervalMs'' (Itoa (cc_PollIntervalMs cc))]),
       json_field ''FleetShedder'' (json_object [
         json_field ''DefaultMaxConcurrent'' (Itoa (fc_DefaultMaxConcurrent fc)),
         json_field ''ReservedCriticalPct'' (Itoa (fc_ReservedCriticalPct fc)),
         json_field ''MaxRequestDurationMs'' (Itoa (fc_MaxRequestDurationMs fc)),
         json_field ''ShadowMode'' (json_bool (fc_ShadowMode fc))])])])"

definition Config_Hash :: "(string \<Rightarrow> string) \<Rightarrow> config \<Rightarrow> string" where
  "Config_Hash sha256 c = take 12 (hex_encode (sha256 (config_json c)))"

section \<open>The limiters of a configuration\<close>

record limiters =
  rateLimiter :: token_bucket_limiter
  concurrencyLimiter :: concurrency_limiter
  fleetShedder :: fleet_shedder

definition new_limiters :: "config \<Rightarrow> limiters" where
  "new_limiters c =
    (let rl = cfg_RateLimiter c; cc = cfg_ConcurrencyLimiter c; fc = cfg_FleetShedder c in
     \<lparr>rateLimiter = NewTokenBucketLimiter (rl_DefaultRate rl) (rl_DefaultBurst rl) (rl_ShadowMode rl),
      concurrencyLimiter = NewConcurrencyLimiter (cc_DefaultMaxConcurrent cc) (cc_MaxRequestDurationMs cc)
        (cc_ShadowMode cc) (cc_QueueingEnabled cc) (cc_MaxBacklog cc) (cc_MaxQueueWaitMs cc) (cc_PollIntervalMs cc),
      fleetShedder = NewFleetShedder (fc_DefaultMaxConcurrent fc) (fc_ReservedCriticalPct fc)
        (fc_MaxRequestDurationMs fc) (fc_ShadowMode fc)\<rparr>)"

text \<open>The callback of \<open>config.Watch\<close>: it is given a configuration or the error of loading one.\<close>

definition on_reload ::
  "(string \<Rightarrow> string) \<Rightarrow> go_error + config \<Rightarrow> limiters \<times> core_metrics \<Rightarrow> limiters \<times> core_metrics" where
  "on_reload sha256 loaded st =
    (case st of (ls, m) \<Rightarrow>
      (case loaded of
         Inl loadErr \<Rightarrow> (ls, RecordConfigReload ''failure'' m)
       | Inr newCfg \<Rightarrow>
         if Validate newCfg \<noteq> None then (ls, RecordConfigReload ''failure'' m)
         else
           (let m1 = RecordConfigReload ''success'' m; m2 = RecordConfigVersion (Config_Hash sha256 newCfg) m1;
                rl = cfg_RateLimiter newCfg; cc = cfg_ConcurrencyLimiter newCfg; fc = cfg_FleetShedder newCfg
            in (ls\<lparr>rateLimiter := tb_Reconfigure (rl_DefaultRate rl) (rl_DefaultBurst rl) (rl_ShadowMode rl) (rateLimiter ls),
                  concurrencyLimiter := cl_Reconfigure (cc_DefaultMaxConcurrent cc) (cc_MaxRequestDurationMs cc)
                    (cc_ShadowMode cc) (cc_QueueingEnabled cc) (cc_MaxBacklog cc) (cc_MaxQueueWaitMs cc)
                    (cc_PollIntervalMs cc) (concurrencyLimiter ls),
                  fleetShedder := fs_Reconfigure (fc_DefaultMaxConcurrent fc) (fc_ReservedCriticalPct fc)
                    (fc_MaxRequestDurationMs fc) (fc_ShadowMode fc) (fleetShedder ls)\<rparr>, m2))))"

lemma on_reload_valid:
  "Validate c = None \<Longrightarrow> fst (on_reload sha256 (Inr c) (ls, m)) = new_limiters c"
  by (simp add: on_reload_def new_limiters_def Let_def tb_Reconfigure_def NewTokenBucketLimiter_def
      cl_Reconfigure_def NewConcurrencyLimiter_def fs_Reconfigure_def NewFleetShedder_def)

text \<open>What validation establishes for the limiters.\<close>

definition limiters_ok :: "limiters \<Rightarrow> bool" where
  "limiters_ok ls \<longleftrightarrow> 0 \<le> tb_burst (rateLimiter ls) \<and> 0 < cl_cap (concurrencyLimiter ls) \<and>
    fleet_ok (fleetShedder ls) \<and>
    (cl_queueingEnabled (concurrencyLimiter ls) \<longrightarrow>
       0 < cl_maxBacklog (concurrencyLimiter ls) \<and> 0 < cl_pollIntervalMs (concurrencyLimiter ls) \<and>
       cl_pollIntervalMs (concurrencyLimiter ls) \<le> cl_maxQueueWaitMs (concurrencyLimiter ls))"

lemma Validate_limiters_ok:
  "Validate c = None \<Longrightarrow> limiters_ok (new_limiters c) \<and> 0 < tb_rate (rateLimiter (new_limiters c))"
  by (simp add: Validate_def Let_def limiters_ok_def new_limiters_def NewTokenBucketLimiter_def
      NewConcurrencyLimiter_def NewFleetShedder_def fleet_ok_def split: if_splits)

lemma SetDynamicLimit_ok:
  assumes "limiters_ok ls" "SetDynamicLimit tier v (rateLimiter ls, fleetShedder ls) = (r, tb, fs)"
  shows "limiters_ok (ls\<lparr>rateLimiter := tb, fleetShedder := fs\<rparr>)"
  using assms
  by (auto simp: SetDynamicLimit_def SetRate_def SetReservedCriticalPct_def limiters_ok_def fleet_ok_def Let_def
      split: if_splits)

lemma on_reload_cases:
  "fst (on_reload sha256 loaded (ls, m)) =
    (case loaded of Inl _ \<Rightarrow> ls | Inr c \<Rightarrow> if Validate c = None then new_limiters c else ls)"
proof (cases loaded)
  case (Inr c)
  then show ?thesis using on_reload_valid[of c sha256 ls m] by (simp add: on_reload_def)
qed (simp add: on_reload_def)

lemma on_reload_ok:
  "limiters_ok ls \<Longrightarrow> limiters_ok (fst (on_reload sha256 loaded (ls, m)))"
  using Validate_limiters_ok by (auto simp: on_reload_cases split: sum.splits)

text \<open>A small configuration that passes validation.\<close>

definition demo_cfg :: config where
  "demo_cfg = \<lparr>cfg_RateLimiter = \<lparr>rl_DefaultRate = 100, rl_DefaultBurst = 200, rl_ShadowMode = False\<rparr>,
     cfg_ConcurrencyLimiter = \<lparr>cc_DefaultMaxConcurrent = 20, cc_MaxRequestDurationMs = 30000, cc_ShadowMode = False,
       cc_QueueingEnabled = True, cc_MaxBacklog = 5, cc_MaxQueueWaitMs = 500, cc_PollIntervalMs = 50\<rparr>,
     cfg_FleetShedder = \<lparr>fc_DefaultMaxConcurrent = 200, fc_ReservedCriticalPct = 20, fc_MaxRequestDurationMs = 30000,
       fc_ShadowMode = False\<rparr>\<rparr>"

lemma demo_cfg_valid: "Validate demo_cfg = None"
  by (simp add: Validate_def demo_cfg_def)

end
