(* ===== verification/CoreMain.thy ===== *)
theory CoreMain
  imports CoreConfig
begin

text \<open>
  \<open>services/core/main.go\<close> and \<open>tlsconfig.EnvVarsPartiallySet\<close>: what a core process makes of its
  environment variables, which Redis it dials, which gRPC listeners it opens and with what
  security, the loop that reports Redis' health, and the process as a state machine.
\<close>

section \<open>Reading the environment\<close>

definition parseSentinelAddrs :: "string \<Rightarrow> string list" where
  "parseSentinelAddrs raw =
    (if raw = '''' then []
     else filter (\<lambda>trimmed. trimmed \<noteq> '''') (map TrimSpace (Split raw (CHR '',''))))"

datatype redis_options = SingleInstance string | Failover string "string list"

definition newRedisClient :: "string \<Rightarrow> string \<Rightarrow> string \<Rightarrow> redis_options" where
  "newRedisClient redisAddr sentinelAddrsRaw sentinelMasterName =
    (let sentinelAddrs = parseSentinelAddrs sentinelAddrsRaw
     in if length sentinelAddrs = 0 then SingleInstance redisAddr
        else Failover sentinelMasterName sentinelAddrs)"

text \<open>\<open>%q\<close> also escapes what is not printable, which is left out here and below.\<close>

definition resolveTLSMode :: "string \<Rightarrow> go_error + string" where
  "resolveTLSMode raw =
    (if raw = '''' then Inr ''off''
     else if raw \<in> {''off'', ''permissive'', ''strict''} then Inr raw
     else Inl (''RATECAP_TLS_MODE=\"'' @ raw @ ''\" is invalid'' @ em_dash @ ''must be one of: off, permissive, strict''))"

definition resolvePprofEnabled :: "string \<Rightarrow> bool" where
  "resolvePprofEnabled raw =
    (if raw = '''' then False else (case ParseBool raw of None \<Rightarrow> False | Some enabled \<Rightarrow> enabled))"

definition EnvVarsPartiallySet :: "string \<Rightarrow> string \<Rightarrow> string \<Rightarrow> bool" where
  "EnvVarsPartiallySet cert key ca =
    (let set0 = 0; set1 = (if cert \<noteq> '''' then set0 + 1 else set0);
         set2 = (if key \<noteq> '''' then set1 + 1 else set1);
         set3 = (if ca \<noteq> '''' then set2 + (1::int) else set2)
     in set3 \<noteq> 0 \<and> set3 \<noteq> 3)"

lemma EnvVarsPartiallySet_iff:
  "EnvVarsPartiallySet cert key ca \<longleftrightarrow> \<not> ((cert = '''' \<longleftrightarrow> key = '''') \<and> (key = '''' \<longleftrightarrow> ca = ''''))"
  by (auto simp: EnvVarsPartiallySet_def Let_def)

section \<open>Start-up\<close>

datatype security = Plaintext | MutualTLS | OptionalClientCert

record core_start =
  cs_config :: config
  cs_redis :: redis_options
  cs_sharedSecret :: string
  cs_signingKey :: string
  cs_listeners :: "(string \<times> security) list"
  cs_health :: string
  cs_metrics :: string
  cs_pprof :: "string option"

definition or_default :: "string \<Rightarrow> string \<Rightarrow> string" where
  "or_default v d = (if v = '''' then d else v)"

text \<open>The gRPC listeners: the main one, and in permissive mode a second one with optional client
  certificates.\<close>

definition core_listeners :: "(string \<Rightarrow> string) \<Rightarrow> string \<Rightarrow> (string \<times> security) list" where
  "core_listeners getenv tlsMode =
    (let listenAddr = or_default (getenv ''RATECAP_GRPC_ADDR'') '':9090'';
         tlsCertPath = getenv ''RATECAP_TLS_CERT_PATH'';
         main = (listenAddr, if tlsCertPath \<noteq> '''' \<and> tlsMode \<noteq> ''permissive'' then MutualTLS else Plaintext)
     in if tlsMode = ''permissive''
        then [main, (or_default (getenv ''RATECAP_GRPC_TLS_ADDR'') '':9443'', OptionalClientCert)]
        else [main])"

text \<open>
  \<open>main\<close> up to the listeners, \<open>Inl\<close> being \<open>log.Fatalf\<close>: \<open>load\<close> reads and parses a configuration file,
  \<open>tls_load\<close> says whether \<open>tlsconfig.Load\<close> reads the certificate, the key and the CA.
\<close>

definition core_main ::
  "(string \<Rightarrow> go_error + config) \<Rightarrow> (string \<Rightarrow> string \<Rightarrow> string \<Rightarrow> go_error option) \<Rightarrow> (string \<Rightarrow> string) \<Rightarrow>
   go_error + core_start" where
  "core_main load tls_load getenv =
    (let configPath = or_default (getenv ''RATECAP_CONFIG_PATH'') ''/etc/ratecap/ratecap.yaml'' in
     case load configPath of
       Inl err \<Rightarrow> Inl (''failed to load config: '' @ err)
     | Inr cfg \<Rightarrow>
     (case Validate cfg of
       Some err \<Rightarrow> Inl (''invalid config: '' @ err)
     | None \<Rightarrow>
     (let redisAddr = or_default (getenv ''RATECAP_REDIS_ADDR'') ''localhost:6379'';
          sharedSecret = getenv ''RATECAP_SHARED_SECRET'';
          concurrencySigningKey = getenv ''RATECAP_CONCURRENCY_SIGNING_KEY'';
          tlsCertPath = getenv ''RATECAP_TLS_CERT_PATH''; tlsKeyPath = getenv ''RATECAP_TLS_KEY_PATH'';
          tlsCAPath = getenv ''RATECAP_TLS_CA_PATH''
      in if sharedSecret = '''' then Inl (''RATECAP_SHARED_SECRET must be set'' @ em_dash @
          ''ratecap-core refuses to start without gRPC authentication configured'')
         else if concurrencySigningKey = '''' then Inl (''RATECAP_CONCURRENCY_SIGNING_KEY must be set'' @ em_dash @
          ''ratecap-core refuses to start without Tier 2 concurrency-token signing configured'')
         else if EnvVarsPartiallySet tlsCertPath tlsKeyPath tlsCAPath then
           Inl ''RATECAP_TLS_CERT_PATH, RATECAP_TLS_KEY_PATH, and RATECAP_TLS_CA_PATH must be set together or not at all''
         else (case resolveTLSMode (getenv ''RATECAP_TLS_MODE'') of
           Inl err \<Rightarrow> Inl err
         | Inr tlsMode \<Rightarrow>
           if (tlsMode = ''permissive'' \<or> tlsMode = ''strict'') \<and> tlsCertPath = '''' then
             Inl (''RATECAP_TLS_MODE='' @ tlsMode @
              '' requires RATECAP_TLS_CERT_PATH/RATECAP_TLS_KEY_PATH/RATECAP_TLS_CA_PATH to be set'')
           else
             (let sentinelMasterName = or_default (getenv ''RATECAP_REDIS_SENTINEL_MASTER_NAME'') ''mymaster'';
                  redis = newRedisClient redisAddr (getenv ''RATECAP_REDIS_SENTINEL_ADDRS'') sentinelMasterName;
                  needs_tls = (tlsCertPath \<noteq> '''' \<and> tlsMode \<noteq> ''permissive'') \<or> tlsMode = ''permissive''
              in case (if needs_tls then tls_load tlsCertPath tlsKeyPath tlsCAPath else None) of
                Some err \<Rightarrow> Inl (''failed to load TLS config: '' @ err)
              | None \<Rightarrow> Inr \<lparr>cs_config = cfg, cs_redis = redis, cs_sharedSecret = sharedSecret,
                  cs_signingKey = concurrencySigningKey,
                  cs_listeners = core_listeners getenv tlsMode,
                  cs_health = or_default (getenv ''RATECAP_HEALTH_ADDR'') '':9091'',
                  cs_metrics = or_default (getenv ''RATECAP_METRICS_ADDR'') '':9092'',
                  cs_pprof = (if resolvePprofEnabled (getenv ''RATECAP_PPROF_ENABLED'')
                              then Some ''127.0.0.1:6060'' else None)\<rparr>)))))"

section \<open>The health loop\<close>

datatype serving = SERVING | NOT_SERVING

text \<open>What the loop's \<open>select\<close> receives: the stop signal, or a tick followed by a ping.\<close>

datatype health_event = HealthStop | HealthTick "go_error option"

text \<open>The statuses set, in order, and whether the loop has returned.\<close>

fun runRedisHealthLoop :: "health_event list \<Rightarrow> serving list \<times> bool" where
  "runRedisHealthLoop [] = ([], False)"
| "runRedisHealthLoop (HealthStop # evs) = ([], True)"
| "runRedisHealthLoop (HealthTick err # evs) =
    (let (ss, stopped) = runRedisHealthLoop evs
     in (if err \<noteq> None then (NOT_SERVING # ss, stopped) else (SERVING # ss, stopped)))"

definition health_status :: "health_event list \<Rightarrow> serving" where
  "health_status evs = last (SERVING # fst (runRedisHealthLoop evs))"

lemma runRedisHealthLoop_ticks:
  "HealthStop \<notin> set evs \<Longrightarrow>
    runRedisHealthLoop evs = (map (\<lambda>ev. case ev of HealthTick (Some e) \<Rightarrow> NOT_SERVING | _ \<Rightarrow> SERVING) evs, False)"
proof (induction evs)
  case (Cons ev evs)
  then show ?case by (cases ev) (auto split: option.splits)
qed simp

section \<open>The process\<close>

record 'db process =
  p_limiters :: limiters
  p_core :: "'db core"

text \<open>
  One step of a process: a configuration reload, or an RPC of a client that passed the interceptor.
  A check works on a copy of the limiters; a check that waits or panics is a step as well.
\<close>

inductive process_step ::
  "(string \<Rightarrow> string \<Rightarrow> string) \<Rightarrow> (string \<Rightarrow> string) \<Rightarrow> 'db redis_store \<Rightarrow> 'db process \<Rightarrow> 'db process \<Rightarrow> bool"
  for H sha256 st where
  reload: "on_reload sha256 loaded (p_limiters p, metrics (p_core p)) = (ls, m) \<Longrightarrow>
    process_step H sha256 st p (p\<lparr>p_limiters := ls, p_core := (p_core p)\<lparr>metrics := m\<rparr>\<rparr>)"
| check: "CheckRateLimit (pipeline_Check (core_tiers H st (rateLimiter (p_limiters p))
      (concurrencyLimiter (p_limiters p)) (fleetShedder (p_limiters p)))) req (p_core p) = (r, s) \<Longrightarrow>
    process_step H sha256 st p (p\<lparr>p_core := s\<rparr>)"
| release: "ReleaseConcurrency H (signingKey st) (core_slot_store H st) k t (p_core p) = (r, s) \<Longrightarrow>
    process_step H sha256 st p (p\<lparr>p_core := s\<rparr>)"
| set_limit: "SetDynamicLimit tier v (rateLimiter (p_limiters p), fleetShedder (p_limiters p)) = (x, tb, fs) \<Longrightarrow>
    process_step H sha256 st p
      (p\<lparr>p_limiters := (p_limiters p)\<lparr>rateLimiter := tb, fleetShedder := fs\<rparr>\<rparr>)"
| refund: "RefundCost (RefundTokens st) (Some (rateLimiter (p_limiters p))) k n (p_core p) = (x, s) \<Longrightarrow>
    process_step H sha256 st p (p\<lparr>p_core := s\<rparr>)"

inductive process_reachable ::
  "(string \<Rightarrow> string \<Rightarrow> string) \<Rightarrow> (string \<Rightarrow> string) \<Rightarrow> 'db redis_store \<Rightarrow> config \<Rightarrow> 'db process \<Rightarrow> bool"
  for H sha256 st cfg where
  start: "p_limiters p = new_limiters cfg \<Longrightarrow> metrics (p_core p) = RecordConfigVersion (Config_Hash sha256 cfg) core_metrics0 \<Longrightarrow>
    process_reachable H sha256 st cfg p"
| step: "process_reachable H sha256 st cfg p \<Longrightarrow> process_step H sha256 st p p' \<Longrightarrow>
    process_reachable H sha256 st cfg p'"

inductive_cases process_stepE: "process_step H sha256 st p p'"

lemma process_step_limiters_ok:
  assumes "process_step H sha256 st p p'" "limiters_ok (p_limiters p)"
  shows "limiters_ok (p_limiters p')"
  using assms
proof (cases rule: process_step.cases)
  case (reload loaded ls m)
  then show ?thesis using on_reload_ok[OF assms(2), of sha256 loaded "metrics (p_core p)"] by simp
qed (auto dest: SetDynamicLimit_ok)

lemma process_reachable_limiters_ok:
  "process_reachable H sha256 st cfg p \<Longrightarrow> Validate cfg = None \<Longrightarrow> limiters_ok (p_limiters p)"
proof (induction rule: process_reachable.induct)
  case (start p)
  then show ?case using Validate_limiters_ok by metis
qed (blast intro: process_step_limiters_ok)

lemma core_main_starts:
  assumes "core_main load tls_load getenv = Inr cs"
  obtains tlsMode where "Validate (cs_config cs) = None"
    "cs_sharedSecret cs \<noteq> ''''" "cs_signingKey cs \<noteq> ''''"
    "resolveTLSMode (getenv ''RATECAP_TLS_MODE'') = Inr tlsMode"
    "\<not> ((tlsMode = ''permissive'' \<or> tlsMode = ''strict'') \<and> getenv ''RATECAP_TLS_CERT_PATH'' = '''')"
    "cs_listeners cs = core_listeners getenv tlsMode"
    "cs_pprof cs = (if resolvePprofEnabled (getenv ''RATECAP_PPROF_ENABLED'') then Some ''127.0.0.1:6060'' else None)"
proof -
  obtain cfg where "load (or_default (getenv ''RATECAP_CONFIG_PATH'') ''/etc/ratecap/ratecap.yaml'') = Inr cfg"
    "Validate cfg = None"
    using assms by (cases "load (or_default (getenv ''RATECAP_CONFIG_PATH'') ''/etc/ratecap/ratecap.yaml'')")
      (auto simp: core_main_def Let_def split: option.split_asm)
  moreover obtain tlsMode where "resolveTLSMode (getenv ''RATECAP_TLS_MODE'') = Inr tlsMode"
    using assms calculation
    by (cases "resolveTLSMode (getenv ''RATECAP_TLS_MODE'')") (simp_all add: core_main_def Let_def split: if_split_asm)
  moreover obtain r m where "\<lparr>cs_config = cfg, cs_redis = r, cs_sharedSecret = getenv ''RATECAP_SHARED_SECRET'',
      cs_signingKey = getenv ''RATECAP_CONCURRENCY_SIGNING_KEY'', cs_listeners = core_listeners getenv tlsMode,
      cs_health = or_default (getenv ''RATECAP_HEALTH_ADDR'') '':9091'', cs_metrics = m,
      cs_pprof = (if resolvePprofEnabled (getenv ''RATECAP_PPROF_ENABLED'') then Some ''127.0.0.1:6060'' else None)\<rparr> = cs"
    "getenv ''RATECAP_SHARED_SECRET'' \<noteq> ''''" "getenv ''RATECAP_CONCURRENCY_SIGNING_KEY'' \<noteq> ''''"
    "\<not> ((tlsMode = ''permissive'' \<or> tlsMode = ''strict'') \<and> getenv ''RATECAP_TLS_CERT_PATH'' = '''')"
    using assms calculation unfolding core_main_def Let_def
    by (simp split: if_split_asm option.split_asm)
  ultimately show thesis by (intro that) auto
qed

end
