(* ===== verification/SlotSafety.thy ===== *)
theory SlotSafety
  imports CoreServer
begin

text \<open>
  The cap on concurrent slots, whatever the clients of the same Redis do: \<open>redis_step\<close> is one script
  or command of any client, or the expiry of a key, and \<open>slots_within\<close> is kept by each of them as
  long as no client asks for a slot with a larger cap.  The locale \<open>slot_guard\<close> carries an invariant
  of the store through the limiters.
\<close>

section \<open>Any client's steps\<close>

text \<open>How many slots of a key are taken, counting those a client has leaked.\<close>

definition slot_count :: "('db \<Rightarrow> string \<rightharpoonup> rvalue) \<Rightarrow> 'db \<Rightarrow> string \<Rightarrow> int" where
  "slot_count look d k = (case zset_of (look d (concurrencyKeyPrefix @ k)) of None \<Rightarrow> 0 | Some z \<Rightarrow> zcount z)"

definition slots_within :: "('db \<Rightarrow> string \<rightharpoonup> rvalue) \<Rightarrow> (string \<Rightarrow> int) \<Rightarrow> 'db \<Rightarrow> bool" where
  "slots_within look limit d \<longleftrightarrow> (\<forall>k. slot_count look d k \<le> limit k)"

inductive redis_step ::
  "'db redis \<Rightarrow> ('db \<Rightarrow> string \<rightharpoonup> rvalue) \<Rightarrow> (string \<Rightarrow> int) \<Rightarrow> 'db \<Rightarrow> 'db \<Rightarrow> bool"
  for R look limit where
  check: "token_bucket_lua R (rateLimiterKeyPrefix @ k) rate burst cost now d = (x, d') \<Longrightarrow>
    redis_step R look limit d d'"
| refund: "refund_tokens_lua R (rateLimiterKeyPrefix @ k) burst n d = (y, d') \<Longrightarrow> redis_step R look limit d d'"
| incr: "concurrent_limiter_lua R (concurrencyKeyPrefix @ k) cap dur now t d = (x, d') \<Longrightarrow> cap \<le> limit k \<Longrightarrow>
    redis_step R look limit d d'"
| decr: "zrem_command R (concurrencyKeyPrefix @ k) t d = (z, d') \<Longrightarrow> redis_step R look limit d d'"
| expiry: "look d' = (look d)(k := None) \<Longrightarrow> redis_step R look limit d d'"

lemma prefixes_differ [simp]:
  "concurrencyKeyPrefix @ k \<noteq> rateLimiterKeyPrefix @ k'" "rateLimiterKeyPrefix @ k' \<noteq> concurrencyKeyPrefix @ k"
  by (simp_all add: concurrencyKeyPrefix_def rateLimiterKeyPrefix_def)

lemma dlt_of_int_dbl: "dlt (of_int_dbl n) (of_int_dbl c) \<Longrightarrow> n < c"
  using fl_mono[of "of_int c" "of_int n"] by (cases "n < c") (auto simp: of_int_dbl_def)

definition count_at :: "rvalue option \<Rightarrow> int" where
  "count_at v = (case zset_of v of None \<Rightarrow> 0 | Some z \<Rightarrow> zcount z)"

lemma count_at_simps [simp]:
  "count_at None = 0" "count_at (Some (Hash h)) = 0" "count_at (Some (ZSet z)) = zcount z" "count_at (zput z) = zcount z"
  by (simp_all add: count_at_def zcount_def)

lemma zset_of_Some: "zset_of v = Some z \<Longrightarrow> count_at v = zcount z"
  by (simp add: count_at_def)

lemma slot_count_at: "slot_count look d k = count_at (look d (concurrencyKeyPrefix @ k))"
  by (simp add: slot_count_def count_at_def)

lemma count_at_nonneg [simp]: "0 \<le> count_at v"
  by (simp add: count_at_def split: option.splits)

text \<open>A step that touches one key, and there only lowers the count or stays under the limit.\<close>

lemma within_one:
  assumes "slots_within look limit d" "\<forall>k'. k' \<noteq> key \<longrightarrow> look d' k' = look d k'"
    and "\<And>k. key = concurrencyKeyPrefix @ k \<Longrightarrow>
      count_at (look d' key) \<le> count_at (look d key) \<or> count_at (look d' key) \<le> limit k"
  shows "slots_within look limit d'"
  unfolding slots_within_def slot_count_at
proof
  fix k
  have w: "count_at (look d (concurrencyKeyPrefix @ k)) \<le> limit k"
    using assms(1) by (simp add: slots_within_def slot_count_at)
  show "count_at (look d' (concurrencyKeyPrefix @ k)) \<le> limit k"
  proof (cases "concurrencyKeyPrefix @ k = key")
    case True
    then show ?thesis using assms(3)[of k] w by auto
  next
    case False
    then show ?thesis using assms(2) w by simp
  qed
qed

context redis_laws
begin

lemma hset_other: "hset R k fvs d = Inr d' \<Longrightarrow> k' \<noteq> k \<Longrightarrow> look d' k' = look d k'"
  using hset_hash[of d k _ fvs] hset_wrongtype[of d k fvs]
  by (cases "hash_of (look d k)") (auto simp: fails_def writes_def)

lemma expire_other: "expire R k x d = Inr d' \<Longrightarrow> k' \<noteq> k \<Longrightarrow> look d' k' = look d k'"
  using expire_effect by fastforce

lemma expire_count: "expire R k x d = Inr d' \<Longrightarrow> count_at (look d' k) \<le> count_at (look d k)"
  using expire_effect by fastforce

lemma zrem_range_count:
  assumes "zremrangebyscore R k c d = Inr d'"
  shows "\<exists>z z'. zset_of (look d k) = Some z \<and> look d' = (look d)(k := zput z') \<and> zcount z' \<le> zcount z"
  using assms zrem_range[of d k _ c] zrem_range_wrongtype[of d k c] zcount_zreap_le
  by (cases "zset_of (look d k)") (auto simp: fails_def writes_def)

lemma zcard_count: "zcard R k d = Inr n \<Longrightarrow> n = count_at (look d k)"
  using zcard_zset[of d k] zcard_wrongtype[of d k]
  by (cases "zset_of (look d k)") (auto simp: fails_def zset_of_Some)

lemma zadd_count:
  assumes "zadd R k x m d = Inr d'"
  shows "(\<forall>k'. k' \<noteq> k \<longrightarrow> look d' k' = look d k') \<and> count_at (look d' k) \<le> count_at (look d k) + 1"
  using assms zadd_zset[of d k _ x m] zadd_wrongtype[of d k x m]
  by (cases "zset_of (look d k)") (auto simp: fails_def writes_def zset_of_Some zcount_fmupd)

lemma zrem_count:
  assumes "zrem R k m d = Inr d'"
  shows "(\<forall>k'. k' \<noteq> k \<longrightarrow> look d' k' = look d k') \<and> count_at (look d' k) \<le> count_at (look d k)"
  using assms zrem_zset[of d k _ m] zrem_wrongtype[of d k m]
  by (cases "zset_of (look d k)") (auto simp: fails_def writes_def zset_of_Some zcount_fmdrop)

lemma token_bucket_other:
  assumes "token_bucket_lua R k r b c now d = (x, d')" "k' \<noteq> k"
  shows "look d' k' = look d k'"
  using assms
  by (auto simp: token_bucket_lua_def Let_def hset_other expire_other split: sum.splits option.splits prod.splits)

lemma refund_other:
  assumes "refund_tokens_lua R k b n d = (x, d')" "k' \<noteq> k"
  shows "look d' k' = look d k'"
  using assms by (auto simp: refund_tokens_lua_def Let_def hset_other split: sum.splits option.splits)

lemma concurrent_limiter_effect:
  assumes "concurrent_limiter_lua R k cap dur now t d = (x, d')"
  shows "(\<forall>k'. k' \<noteq> k \<longrightarrow> look d' k' = look d k') \<and>
    (count_at (look d' k) \<le> count_at (look d k) \<or> count_at (look d' k) \<le> cap)"
proof (cases "zremrangebyscore R k (dsub (of_int_dbl now) (of_int_dbl dur)) d")
  case (Inl e)
  then show ?thesis using assms by (simp add: concurrent_limiter_lua_def)
next
  case r: (Inr d1)
  then have o1: "\<forall>k'. k' \<noteq> k \<longrightarrow> look d1 k' = look d k'" and c1: "count_at (look d1 k) \<le> count_at (look d k)"
    using zrem_range_count[OF r] by (auto simp: zset_of_Some)
  show ?thesis
  proof (cases "\<exists>n. zcard R k d1 = Inr n \<and> dlt (of_int_dbl n) (of_int_dbl cap)")
    case False
    then have "d' = d1" using assms r by (auto simp: concurrent_limiter_lua_def Let_def split: sum.splits if_splits)
    then show ?thesis using o1 c1 by simp
  next
    case True
    then obtain n where n: "zcard R k d1 = Inr n" "n < cap" "dlt (of_int_dbl n) (of_int_dbl cap)"
      using dlt_of_int_dbl by blast
    then have cap: "count_at (look d1 k) < cap" using zcard_count by simp
    show ?thesis
    proof (cases "zadd R k (of_int_dbl now) t d1")
      case (Inl e)
      then have "d' = d1" using assms r n by (auto simp: concurrent_limiter_lua_def Let_def)
      then show ?thesis using o1 c1 by simp
    next
      case (Inr d2)
      have "d' = d2 \<or> (\<exists>y. expire R k y d2 = Inr d')"
        using assms r n Inr by (auto simp: concurrent_limiter_lua_def Let_def split: sum.splits)
      then have "count_at (look d' k) \<le> count_at (look d2 k) \<and> (\<forall>k'. k' \<noteq> k \<longrightarrow> look d' k' = look d2 k')"
        using expire_count expire_other by blast
      then show ?thesis using zadd_count[OF Inr] o1 cap by fastforce
    qed
  qed
qed

lemma zrem_command_effect:
  assumes "zrem_command R k t d = (x, d')"
  shows "(\<forall>k'. k' \<noteq> k \<longrightarrow> look d' k' = look d k') \<and> count_at (look d' k) \<le> count_at (look d k)"
  using assms zrem_count by (auto simp: zrem_command_def split: sum.splits)

lemma redis_step_within:
  assumes "redis_step R look limit d d'" "slots_within look limit d" "\<And>k. 0 \<le> limit k"
  shows "slots_within look limit d'"
  using assms(1)
proof cases
  case (check k rate burst cost now x)
  show ?thesis using token_bucket_other[OF check]
    by (intro within_one[OF assms(2), of "rateLimiterKeyPrefix @ k"]) auto
next
  case (refund k burst n y)
  show ?thesis using refund_other[OF refund]
    by (intro within_one[OF assms(2), of "rateLimiterKeyPrefix @ k"]) auto
next
  case (incr k cap dur now t x)
  show ?thesis using concurrent_limiter_effect[OF incr(1)] incr(2)
    by (intro within_one[OF assms(2), of "concurrencyKeyPrefix @ k"]) fastforce+
next
  case (decr k t z)
  show ?thesis using zrem_command_effect[OF decr]
    by (intro within_one[OF assms(2), of "concurrencyKeyPrefix @ k"]) auto
next
  case (expiry k)
  then show ?thesis using assms(3) by (intro within_one[OF assms(2), of k]) auto
qed

end

section \<open>An invariant of the store through the limiters\<close>

locale slot_guard =
  fixes S :: "'s slot_store" and inv :: "'s \<Rightarrow> bool" and permitted :: "string \<Rightarrow> int \<Rightarrow> bool"
  assumes guard_incr: "inv s \<Longrightarrow> permitted k c \<Longrightarrow> incr_concurrent S k c d s = (x, s') \<Longrightarrow> inv s'"
    and guard_decr: "inv s \<Longrightarrow> decr_concurrent S k t s = (y, s') \<Longrightarrow> inv s'"
    and guard_await: "inv s \<Longrightarrow> await_events S s = (es, s') \<Longrightarrow> inv s'"
begin

lemma poll_loop_guarded:
  "inv s \<Longrightarrow> permitted k c \<Longrightarrow> poll_loop S k c d evs s = (a, s') \<Longrightarrow> inv s'"
proof (induction evs arbitrary: s)
  case (Cons ev evs)
  then show ?case
    by (cases ev) (auto dest: guard_incr split: sum.splits prod.splits if_splits)
qed simp

lemma poll_guarded:
  "inv s \<Longrightarrow> permitted (Key req) c \<Longrightarrow> pollUntilAllowedOrDeadline S req c d w p s = (a, s') \<Longrightarrow> inv s'"
  by (auto simp: pollUntilAllowedOrDeadline_def Let_def dest: guard_await poll_loop_guarded
      split: prod.splits if_splits)

lemma queue_guarded:
  assumes "inv s" "permitted (Key req) c"
    and "with_deferred (\<lambda>s. snd (decr_concurrent S bk t s)) (pollUntilAllowedOrDeadline S req c d w p s) = (a, s')"
  shows "inv s'"
proof -
  obtain a1 s2 where p: "pollUntilAllowedOrDeadline S req c d w p s = (a1, s2)" by fastforce
  have "inv s2" by (rule poll_guarded[OF assms(1,2) p])
  moreover from this have "inv (snd (decr_concurrent S bk t s2))"
    by (metis guard_decr prod.collapse)
  ultimately show ?thesis using assms(3) p by (cases a1) (auto simp: with_deferred_def)
qed

text \<open>What a limiter may ask for, given its configuration.\<close>

definition cl_permitted :: "concurrency_limiter \<Rightarrow> request \<Rightarrow> bool" where
  "cl_permitted l req \<longleftrightarrow> permitted (Key req) (cl_cap l) \<and>
    (cl_shadowMode l \<longrightarrow> permitted (Key req) unboundedCap) \<and>
    (cl_queueingEnabled l \<longrightarrow> permitted (backlogKeyPrefix @ Key req) (cl_maxBacklog l))"

definition fs_permitted :: "fleet_shedder \<Rightarrow> request \<Rightarrow> bool" where
  "fs_permitted l req \<longleftrightarrow> permitted fleetKey (effectiveCap l (Priority req)) \<and>
    (fs_shadowMode l \<longrightarrow> permitted fleetKey unboundedCap)"

lemma cl_guarded:
  assumes "inv s" "cl_permitted l req" "cl_Check S l req s = (a, s')" shows "inv s'"
proof -
  have queue: "inv s'" if "inv s1" "permitted (Key req) (cl_cap l)" "permitted bk mb"
      "incr_concurrent S bk mb w s1 = (Inr (b, t), s2)"
      "with_deferred (\<lambda>s. snd (decr_concurrent S bk t s))
        (pollUntilAllowedOrDeadline S req (cl_cap l) d w p s2) = (a, s')" for bk mb w s1 b t s2 d p
    using queue_guarded[OF guard_incr[OF that(1,3,4)] that(2,5)] .
  show ?thesis
    using assms
    by (auto simp: cl_Check_def Let_def acquireBacklogSlot_def cl_permitted_def
        dest: guard_incr queue[OF guard_incr] split: if_splits sum.splits prod.splits)
qed

lemma fs_guarded:
  assumes "inv s" "fs_permitted l req" "fs_Check S l req s = (a, s')" shows "inv s'"
  using assms by (auto simp: fs_Check_def fs_permitted_def dest: guard_incr split: if_splits sum.splits prod.splits)

end

lemma pipeline_loop_guarded:
  assumes "\<And>t s a s'. t \<in> set ts \<Longrightarrow> P s \<Longrightarrow> t req s = (a, s') \<Longrightarrow> P s'"
    and "P s" "pipeline_loop ts rs l f req s = (a, s')"
  shows "P s'"
  using assms
proof (induction ts arbitrary: rs l f s)
  case (Cons t ts)
  obtain a1 s1 where t: "t req s = (a1, s1)" by fastforce
  then have i: "P s1" using Cons.prems(1)[of t] Cons.prems(2) by simp
  have step: "P s'" if "pipeline_loop ts rs' l' f' req s1 = (a, s')" for rs' l' f'
  proof (rule Cons.IH[OF _ i that])
    show "P s2'" if "t' \<in> set ts" "P s2" "t' req s2 = (a2, s2')" for t' s2 a2 s2'
      using Cons.prems(1)[of t' s2 a2 s2'] that by simp
  qed
  then show ?case
    using Cons.prems(3) t i by (cases a1) (auto simp: Let_def split: prod.splits if_splits)
qed auto

section \<open>The store of a core process under the limits\<close>

text \<open>The database is within its limits, and so it stays whatever other clients do to it.\<close>

definition core_within :: "('db \<Rightarrow> string \<rightharpoonup> rvalue) \<Rightarrow> (string \<Rightarrow> int) \<Rightarrow> 'db core \<Rightarrow> bool" where
  "core_within look limit s \<longleftrightarrow> slots_within look limit (db s) \<and>
    (\<forall>env \<in> sset (envs s). \<forall>d. slots_within look limit d \<longrightarrow> slots_within look limit (others env d))"

lemma redis_call_within:
  assumes "core_within look limit s" "redis_call op f s = (x, s')"
    and "\<And>env d y d'. slots_within look limit d \<Longrightarrow> f env d = (y, d') \<Longrightarrow> slots_within look limit d'"
  shows "core_within look limit s'"
proof -
  define env where "env = shd (envs s)"
  have env: "env \<in> sset (envs s)" by (simp add: env_def shd_sset)
  then have o: "slots_within look limit (others env (db s))" using assms(1) by (simp add: core_within_def)
  have f: "slots_within look limit (snd (f env (others env (db s))))"
    by (rule assms(3)[OF o]) (rule prod.collapse[symmetric])
  have "slots_within look limit (db s')"
    using assms(2) o f
    by (cases "net env") (auto simp: redis_call_def Let_def over_link_def env_def[symmetric] split: prod.splits)
  moreover have "envs s' = stl (envs s)" using redis_call_frame[OF assms(2)] by simp
  moreover have "sset (stl (envs s)) \<subseteq> sset (envs s)" by (metis stl_sset subsetI)
  ultimately show ?thesis using assms(1) by (auto simp: core_within_def)
qed

lemma core_within_update [simp]:
  "core_within look limit (log_call c s) = core_within look limit s"
  "core_within look limit (s\<lparr>metrics := m\<rparr>) = core_within look limit s"
  "core_within look limit (s\<lparr>selects := e\<rparr>) = core_within look limit s"
  by (simp_all add: core_within_def)

context redis_laws
begin

lemma IncrConcurrent_within:
  assumes "client st = R" "\<forall>k. 0 \<le> limit k" "c \<le> limit k" "core_within look limit s"
    and "IncrConcurrent H st k c d s = (x, s')"
  shows "core_within look limit s'"
proof -
  let ?f = "\<lambda>env. concurrent_limiter_lua (client st) (concurrencyKeyPrefix @ k) c d
    (unix_milli env) (signToken H (uuid_string env) (signingKey st))"
  obtain y s1 where r: "redis_call ''incr_concurrent'' ?f s = (y, s1)" by fastforce
  have "core_within look limit s1"
  proof (rule redis_call_within[OF assms(4) r])
    show "slots_within look limit d'" if "slots_within look limit d0" "?f env d0 = (y, d')" for env d0 y d'
      using redis_step_within[OF redis_step.incr[where limit = limit and k = k, OF that(2)[unfolded assms(1)] assms(3)] that(1)] assms(2) by simp
  qed
  then show ?thesis using assms(5) r by (auto simp: IncrConcurrent_def Let_def)
qed

lemma DecrConcurrent_within:
  assumes "client st = R" "\<forall>k. 0 \<le> limit k" "core_within look limit s" "DecrConcurrent st k t s = (x, s')"
  shows "core_within look limit s'"
proof -
  let ?f = "\<lambda>env. zrem_command (client st) (concurrencyKeyPrefix @ k) t"
  obtain y s1 where r: "redis_call ''decr_concurrent'' ?f s = (y, s1)" by fastforce
  have "core_within look limit s1"
  proof (rule redis_call_within[OF assms(3) r])
    show "slots_within look limit d'" if "slots_within look limit d0" "?f env d0 = (y, d')" for env d0 y d'
      using redis_step_within[OF redis_step.decr[OF that(2)[unfolded assms(1)]] that(1)] assms(2) by simp
  qed
  then show ?thesis using assms(4) r by (auto simp: DecrConcurrent_def Let_def)
qed

lemma CheckAndDecrement_within:
  assumes "client st = R" "\<forall>k. 0 \<le> limit k" "core_within look limit s"
    and "CheckAndDecrement st k rate burst cost s = (x, s')"
  shows "core_within look limit s'"
proof -
  let ?f = "\<lambda>env. token_bucket_lua (client st) (rateLimiterKeyPrefix @ k) rate burst cost (unix_milli env)"
  obtain y s1 where r: "redis_call ''check_and_decrement'' ?f s = (y, s1)" by fastforce
  have "core_within look limit s1"
  proof (rule redis_call_within[OF assms(3) r])
    show "slots_within look limit d'" if "slots_within look limit d0" "?f env d0 = (y, d')" for env d0 y d'
      using redis_step_within[OF redis_step.check[OF that(2)[unfolded assms(1)]] that(1)] assms(2) by simp
  qed
  then show ?thesis using assms(4) r by (auto simp: CheckAndDecrement_def Let_def)
qed

lemma core_slot_guard:
  assumes "client st = R" "\<forall>k. 0 \<le> limit k"
  shows "slot_guard (core_slot_store H st) (core_within look limit) (\<lambda>k c. c \<le> limit k)"
proof
  fix s k c d x s' t y es
  assume s: "core_within look limit s"
  show "core_within look limit s'"
    if "c \<le> limit k" "incr_concurrent (core_slot_store H st) k c d s = (x, s')"
    using IncrConcurrent_within[OF assms that(1) s] that(2) by (simp add: core_slot_store_def)
  show "core_within look limit s'" if "decr_concurrent (core_slot_store H st) k t s = (y, s')"
    using DecrConcurrent_within[OF assms s] that by (simp add: core_slot_store_def)
  show "core_within look limit s'" if "await_events (core_slot_store H st) s = (es, s')"
    using s that by (auto simp: core_slot_store_def next_events_def)
qed

lemma tb_within:
  assumes "client st = R" "\<forall>k. 0 \<le> limit k" "core_within look limit s"
    and "tb_Check (core_rate_store st) l req s = (a, s')"
  shows "core_within look limit s'"
  using assms CheckAndDecrement_within[OF assms(1-3)]
  by (auto simp: tb_Check_def core_rate_store_def Let_def split: sum.splits prod.splits if_splits)

end

text \<open>The guard on the store over a keyspace in memory.\<close>

definition mem_store :: "string \<Rightarrow> (string \<rightharpoonup> rvalue) redis_store" where
  "mem_store key = \<lparr>client = mem_redis, signingKey = key\<rparr>"

lemma mem_store_client [simp]: "client (mem_store key) = mem_redis"
  by (simp add: mem_store_def)

interpretation mem_guard: slot_guard "core_slot_store H (mem_store key)"
  "core_within (\<lambda>db. db) (\<lambda>k. max 0 (limit k))" "\<lambda>k c. c \<le> max 0 (limit k)" for H key limit
  by (rule mem.core_slot_guard) auto

end
