(* ===== verification/ScriptRuns.thy ===== *)
theory ScriptRuns
  imports RedisStore
begin

text \<open>
  Runs of the token-bucket scripts against a Redis that other clients use as well: what is
  admitted, what the bucket holds, what an expiry changes and what a retry finds.
\<close>

section \<open>Runs\<close>

text \<open>A check or a refund on the bucket's key, or anything at all on other keys.\<close>

datatype 'db script_op = SCheck int int | SRefund int | SOther "'db \<Rightarrow> 'db"

fun script_step :: "'db redis \<Rightarrow> string \<Rightarrow> int \<Rightarrow> int \<Rightarrow> 'db script_op \<Rightarrow> 'db \<Rightarrow> int \<times> 'db" where
  "script_step R k r b (SCheck now c) d =
    (case token_bucket_lua R k r b c now d of
       (Inr reply, d') \<Rightarrow> (if reply ! 0 = RInt 1 then c else 0, d')
     | (Inl _, d') \<Rightarrow> (0, d'))"
| "script_step R k r b (SRefund n) d = (- n, snd (refund_tokens_lua R k b n d))"
| "script_step R k r b (SOther f) d = (0, f d)"

text \<open>Admitted cost less refunds, and the database at the end.\<close>

fun script_run :: "'db redis \<Rightarrow> string \<Rightarrow> int \<Rightarrow> int \<Rightarrow> 'db script_op list \<Rightarrow> 'db \<Rightarrow> int \<times> 'db" where
  "script_run R k r b [] d = (0, d)"
| "script_run R k r b (x # xs) d =
    (let (n, d') = script_step R k r b x d; (m, d'') = script_run R k r b xs d' in (n + m, d''))"

fun bucket_ops :: "'db script_op list \<Rightarrow> bucket_op list" where
  "bucket_ops [] = []"
| "bucket_ops (SCheck now c # xs) = Check now c # bucket_ops xs"
| "bucket_ops (SRefund n # xs) = Refund n # bucket_ops xs"
| "bucket_ops (SOther f # xs) = bucket_ops xs"

definition others_elsewhere :: "('db \<Rightarrow> string \<rightharpoonup> rvalue) \<Rightarrow> string \<Rightarrow> 'db script_op list \<Rightarrow> bool" where
  "others_elsewhere look k xs \<longleftrightarrow> (\<forall>f. SOther f \<in> set xs \<longrightarrow> (\<forall>d. look (f d) k = look d k))"

context redis_laws
begin

lemma script_check_refines:
  assumes "bucket_view (look d k) s" "bucket_wf b s" "small r" "small b" "0 < r" "small c" "small now"
  shows "\<exists>d'. script_step R k r b (SCheck now c) d = (fst (bucket_step r b (Check now c) s), d') \<and>
    bucket_view (look d' k) (snd (bucket_step r b (Check now c) s))"
proof -
  obtain a rt rm p where bc: "bucket_check r b c now s = ((a, rt, rm), p)" by (metis prod.collapse)
  obtain d' where "token_bucket_lua R k r b c now d = (Inr (check_reply (a, rt, rm)), d')"
    "bucket_view (look d' k) (Some p)"
    using token_bucket_lua_refines[OF assms(1,2,3,4,6,7,5)] bc by auto
  then show ?thesis using bc by auto
qed

lemma script_refund_refines:
  assumes "bucket_view (look d k) s" "bucket_wf b s" "small b" "small n"
  shows "\<exists>d'. script_step R k r b (SRefund n) d = (fst (bucket_step r b (Refund n) s), d') \<and>
    bucket_view (look d' k) (snd (bucket_step r b (Refund n) s))"
  using refund_tokens_lua_refines[OF assms(1-3), of n] small_abs[OF assms(4)] by auto

lemma script_run_refines:
  assumes "bucket_view (look d k) s" "bucket_wf b s" "small r" "small b" "0 < r"
    and "list_all op_ok (bucket_ops xs)" "others_elsewhere look k xs"
  shows "\<exists>d'. script_run R k r b xs d = (fst (bucket_run r b (bucket_ops xs) s), d') \<and>
    bucket_view (look d' k) (snd (bucket_run r b (bucket_ops xs) s))"
  using assms
proof (induction xs arbitrary: d s)
  case (Cons x xs)
  have rest: "\<exists>d''. script_run R k r b xs d' = (fst (bucket_run r b (bucket_ops xs) s'), d'') \<and>
      bucket_view (look d'' k) (snd (bucket_run r b (bucket_ops xs) s'))"
    if "bucket_view (look d' k) s'" "bucket_wf b s'" for d' s'
    using Cons.prems that by (intro Cons.IH) (cases x; auto simp: others_elsewhere_def)+
  have bucket: ?case if "bucket_ops (x # xs) = y # bucket_ops xs" "op_ok y"
      "script_step R k r b x d = (fst (bucket_step r b y s), d')"
      "bucket_view (look d' k) (snd (bucket_step r b y s))" for y d'
  proof -
    have "bucket_wf b (snd (bucket_step r b y s))"
      using that(2) Cons.prems by (intro bucket_step_wf) auto
    from rest[OF that(4) this] show ?thesis using that(1,3) by (auto simp: split_beta Let_def)
  qed
  show ?case
  proof (cases x)
    case (SCheck now c)
    then have ok: "small now" "small c" using Cons.prems by auto
    from script_check_refines[OF Cons.prems(1-5) ok(2,1)] obtain d' where
      "script_step R k r b x d = (fst (bucket_step r b (Check now c) s), d')"
      "bucket_view (look d' k) (snd (bucket_step r b (Check now c) s))" using SCheck by blast
    then show ?thesis using SCheck ok by (intro bucket[of "Check now c"]) auto
  next
    case (SRefund n)
    then have ok: "small n" using Cons.prems by auto
    from script_refund_refines[OF Cons.prems(1,2,4) ok, of r] obtain d' where
      "script_step R k r b x d = (fst (bucket_step r b (Refund n) s), d')"
      "bucket_view (look d' k) (snd (bucket_step r b (Refund n) s))" using SRefund by blast
    then show ?thesis using SRefund ok by (intro bucket[of "Refund n"]) auto
  next
    case (SOther f)
    then have "look (f d) k = look d k" using Cons.prems(7) by (auto simp: others_elsewhere_def)
    then show ?thesis using rest[of "f d" s] SOther Cons.prems(1,2) by (auto simp: split_beta Let_def)
  qed
qed auto

lemma script_run_window:
  assumes "bucket_view (look d k) s" "bucket_wf b s" "small r" "small b" "0 < r"
    and "list_all op_ok (bucket_ops xs)" "others_elsewhere look k xs"
    and "sorted (times (bucket_ops xs))" "set (times (bucket_ops xs)) \<subseteq> {t0..t1}" "t0 \<le> t1"
  shows "of_int (fst (script_run R k r b xs d)) \<le>
    of_int b + of_int (t1 - t0) * accrual r + of_int (int (length (bucket_ops xs))) * slack b"
proof -
  obtain d' where "script_run R k r b xs d = (fst (bucket_run r b (bucket_ops xs) s), d')"
    using script_run_refines[OF assms(1-7)] by blast
  moreover have "\<forall>x\<in>set (times (bucket_ops xs)). t0 \<le> x \<and> x \<le> t1" using assms(9) by auto
  ultimately show ?thesis
    using bucket_run_window[OF assms(4) less_imp_le[OF assms(5)] assms(6,2,8) _ assms(10) prod.collapse[symmetric]]
    by simp
qed

lemma expired_bucket:
  assumes "bucket_view (look d k) (Some (t, u))" "bucket_wf b (Some (t, u))"
    and "small r" "small b" "0 < r" "small c" "small now" "1000 * ttl_s r b \<le> now - u"
    and "look d0 = (look d)(k := None)"
  shows "fst (token_bucket_lua R k r b c now d0) = fst (token_bucket_lua R k r b c now d)"
proof -
  have "bucket_view (look d0 k) None" using assms(9) by (simp add: bucket_view_def)
  then obtain d1 where "token_bucket_lua R k r b c now d0 = (Inr (check_reply (fst (bucket_check r b c now None))), d1)"
    using token_bucket_lua_refines[of d0 k None b r c now] assms by (auto simp: bucket_wf_def)
  moreover obtain d2 where "token_bucket_lua R k r b c now d =
      (Inr (check_reply (fst (bucket_check r b c now (Some (t, u))))), d2)"
    using token_bucket_lua_refines[of d k "Some (t, u)" b r c now] assms by auto
  moreover have "bucket_check r b c now (Some (t, u)) = bucket_check r b c now None"
    using assms by (intro bucket_check_expired) (auto simp: bucket_wf_def)
  ultimately show ?thesis by simp
qed

lemma retry_admitted:
  assumes v: "bucket_view (look d k) s" "bucket_wf b s" and sm: "small r" "small b" "0 < r"
    and c: "small c" "small now" "c \<le> b" "c \<le> 2 ^ 31"
    and d1: "token_bucket_lua R k r b c now d = (Inr [RInt 0, RInt rt, RInt rm], d1)"
    and d2: "look d2 k = look d1 k" and late: "small now'" "now + rt + 1 \<le> now'"
  shows "\<exists>rm' d3. token_bucket_lua R k r b c now' d2 = (Inr [RInt 1, RInt 0, RInt rm'], d3)"
proof -
  let ?l = "bucket_level r b now s"
  obtain d1' where r1: "token_bucket_lua R k r b c now d = (Inr (check_reply (fst (bucket_check r b c now s))), d1')"
    "bucket_view (look d1' k) (Some (snd (bucket_check r b c now s)))"
    using token_bucket_lua_refines[OF v sm(1,2) c(1,2) sm(3)] by blast
  have lt: "?l < of_int c" and rt: "rt = retry_ms r c ?l"
    using r1(1) d1 by (auto simp: bucket_check_def Let_def split: if_splits)
  have st: "snd (bucket_check r b c now s) = (?l, now)" using lt by (simp add: bucket_check_state)
  have v2: "bucket_view (look d2 k) (Some (?l, now))" using r1 d1 d2 st by auto
  have wf2: "bucket_wf b (Some (?l, now))"
    using bucket_check_wf[OF v(2) sm(2) c(2), of r c] sm(3) c(1) st by (simp add: small_def)
  then have "0 \<le> ?l" by (simp add: bucket_wf_def)
  then have "of_int c \<le> bucket_level r b now' (Some (?l, now))"
    using retry_then_admitted[OF sm(2,3) _ lt c(3,4)] late(2) rt by simp
  then show ?thesis
    using token_bucket_lua_refines[OF v2 wf2 sm(1,2) c(1) late(1) sm(3)] by (auto simp: bucket_check_def Let_def)
qed

lemma over_burst_refused:
  assumes "bucket_view (look d k) s" "bucket_wf b s" "small r" "small b" "0 < r" "small c" "small now" "b < c"
  shows "\<exists>rt rm d'. token_bucket_lua R k r b c now d = (Inr [RInt 0, RInt rt, RInt rm], d')"
proof -
  have "bucket_level r b now s \<le> of_int b" using bucket_level_bounds[OF assms(2,4,7)] assms(5) by simp
  also have "\<dots> < of_int c" using assms(8) by simp
  finally show ?thesis
    using token_bucket_lua_refines[OF assms(1-4,6,7,5)] by (auto simp: bucket_check_def Let_def)
qed

text \<open>With a rate of zero the script ends in an error, whatever the bucket.\<close>

lemma rate_zero_errors: "fails (fst (token_bucket_lua R k 0 b c now d))"
proof -
  have "whole (dadd (dceil (ddiv (of_int_dbl b) (of_int_dbl 0))) (Fin 60)) = None"
    by (simp add: of_int_dbl_def dinf_def whole_def)
  then have "\<exists>e. expire R k (dadd (dceil (ddiv (of_int_dbl b) (of_int_dbl 0))) (Fin 60)) d1 = Inl e" for d1
    using expire_not_integer by (blast elim: failsE)
  then have "\<exists>e d'. (case expire R k (dadd (dceil (ddiv (of_int_dbl b) (of_int_dbl 0))) (Fin 60)) d1 of
      Inl e \<Rightarrow> (Inl e, d1) | Inr d2 \<Rightarrow> (Inr (x d2), d2)) = (Inl e, d')" for d1 and x :: "'db \<Rightarrow> reply list"
    by (metis (no_types, lifting) sum.simps(5))
  then have "\<exists>e d'. token_bucket_lua R k 0 b c now d = (Inl e, d')"
    unfolding token_bucket_lua_def Let_def
    by (simp split: sum.split option.split prod.split)
  then show ?thesis by (auto simp: fails_def)
qed

end

section \<open>What the bucket promises\<close>

text \<open>
  C1: Over any window of time, whatever the bucket held at its start and whatever happens on other
  keys, the cost the script admits on a key, less what is refunded, is at most one burst plus the
  rate times the length of the window, up to the rounding of doubles (a relative \<open>3 / 2 ^ 53\<close> of the
  accrual and \<open>2 * burst / 2 ^ 53\<close> per operation), as long as the clocks of the callers do not run
  backwards.
\<close>

theorem admission_bound:
  assumes "redis_laws R look" "bucket_view (look d k) s" "bucket_wf b s"
    and "small r" "0 < r" "small b" "list_all op_ok (bucket_ops xs)" "others_elsewhere look k xs"
    and "sorted (times (bucket_ops xs))" "set (times (bucket_ops xs)) \<subseteq> {t0..t1}" "t0 \<le> t1"
  shows "of_int (fst (script_run R k r b xs d)) \<le>
    of_int b + of_int (t1 - t0) * accrual r + of_int (int (length (bucket_ops xs))) * slack b"
  using redis_laws.script_run_window[OF assms(1-4,6,5,7-)] .

theorem admission_bound_witness:
  "(of_int (fst (script_run mem_redis ''rl:a'' 10 5 [SCheck 1000 3, SRefund 1, SCheck 1200 4] Map.empty)) :: rat) \<le>
    5 + 200 * accrual 10 + 3 * slack 5"
  using admission_bound[OF mem.redis_laws_axioms, of "Map.empty" "''rl:a''" None 5 10
      "[SCheck 1000 3, SRefund 1, SCheck 1200 4]" 1000 1200]
  by (simp add: bucket_view_def bucket_wf_def small_def others_elsewhere_def)

text \<open>
  C10: The level of a bucket stays between zero and the burst and its time stays a clock reading,
  through every run of checks and refunds, and the stored hash always holds exactly that pair.
\<close>

theorem bucket_invariant:
  assumes "redis_laws R look" "bucket_view (look d k) s" "bucket_wf b s"
    and "small r" "0 < r" "small b" "list_all op_ok (bucket_ops xs)" "others_elsewhere look k xs"
  shows "\<exists>s'. bucket_view (look (snd (script_run R k r b xs d)) k) s' \<and> bucket_wf b s'"
proof -
  obtain d' where "script_run R k r b xs d = (fst (bucket_run r b (bucket_ops xs) s), d')"
    "bucket_view (look d' k) (snd (bucket_run r b (bucket_ops xs) s))"
    using redis_laws.script_run_refines[OF assms(1-4,6,5,7,8)] by blast
  then show ?thesis using bucket_run_wf[OF assms(6) less_imp_le[OF assms(5)] assms(7,3)] by auto
qed

theorem bucket_invariant_witness:
  "\<exists>s'. bucket_view (snd (script_run mem_redis ''rl:a'' 10 5 [SCheck 1000 3, SRefund 9, SCheck 900 4] Map.empty)
    ''rl:a'') s' \<and> bucket_wf 5 s'"
  using bucket_invariant[OF mem.redis_laws_axioms, of "Map.empty" "''rl:a''" None 5 10
      "[SCheck 1000 3, SRefund 9, SCheck 900 4]"]
  by (simp add: bucket_view_def bucket_wf_def small_def others_elsewhere_def)

text \<open>
  C31: The time to live the script sets, \<open>ceil(burst / rate) + 60\<close> seconds, never loses a refusal: once
  that long has passed since the last check, the script answers the same whether or not Redis has
  expired the key.
\<close>

theorem expiry_harmless:
  assumes "redis_laws R look" "bucket_view (look d k) (Some (t, u))" "bucket_wf b (Some (t, u))"
    and "small r" "small b" "0 < r" "small c" "small now" "1000 * ttl_s r b \<le> now - u"
    and "look d0 = (look d)(k := None)"
  shows "fst (token_bucket_lua R k r b c now d0) = fst (token_bucket_lua R k r b c now d)"
  using redis_laws.expired_bucket[OF assms] .

theorem expiry_harmless_witness:
  "fst (token_bucket_lua mem_redis ''rl:a'' 5 5 2 100000 Map.empty) =
   fst (token_bucket_lua mem_redis ''rl:a'' 5 5 2 100000
     [''rl:a'' \<mapsto> Hash [''tokens'' \<mapsto> Fin 1, ''updated_at'' \<mapsto> Fin 1000]])"
proof -
  let ?d = "[''rl:a'' \<mapsto> Hash [''tokens'' \<mapsto> Fin 1, ''updated_at'' \<mapsto> Fin 1000]]"
  have u: "of_int_dbl 1000 = Fin 1000" by (simp add: of_int_dbl_small small_def)
  show ?thesis
    by (rule expiry_harmless[OF mem.redis_laws_axioms, of ?d _ 1 1000])
      (simp_all add: bucket_view_def bucket_wf_def small_def u ttl_s_def)
qed

text \<open>
  C11: \<open>Retry-After\<close> is sound: a caller that was refused and comes back with the same cost one
  millisecond after the announced time is admitted, if nothing else used the bucket meanwhile and
  the cost is at most the burst (one that is larger is never admitted, whatever is announced).
\<close>

theorem retry_after_sound:
  assumes "redis_laws R look" "bucket_view (look d k) s" "bucket_wf b s"
    and "small r" "small b" "0 < r" "small c" "small now" "c \<le> b" "c \<le> 2 ^ 31"
    and "token_bucket_lua R k r b c now d = (Inr [RInt 0, RInt rt, RInt rm], d1)"
    and "look d2 k = look d1 k" "small now'" "now + rt + 1 \<le> now'"
  shows "\<exists>rm' d3. token_bucket_lua R k r b c now' d2 = (Inr [RInt 1, RInt 0, RInt rm'], d3)"
  using redis_laws.retry_admitted[OF assms] .

theorem retry_after_sound_witness:
  "\<exists>rm d. token_bucket_lua mem_redis ''rl:a'' 1 5 3 3001 (snd (token_bucket_lua mem_redis ''rl:a'' 1 5 3 1000
    [''rl:a'' \<mapsto> Hash [''tokens'' \<mapsto> Fin 1, ''updated_at'' \<mapsto> Fin 1000]])) = (Inr [RInt 1, RInt 0, RInt rm], d)"
proof -
  let ?d = "[''rl:a'' \<mapsto> Hash [''tokens'' \<mapsto> Fin 1, ''updated_at'' \<mapsto> Fin 1000]]"
  have u: "of_int_dbl n = Fin (of_int n)" if "small n" for n by (rule of_int_dbl_small[OF that])
  have "fst (token_bucket_lua mem_redis ''rl:a'' 1 5 3 1000 ?d) = Inr [RInt 0, RInt 2000, RInt 1]"
    by (simp add: token_bucket_lua_def Let_def u small_def bucket_decide_def lua_max_def lua_min_def
        mem_redis_def whole_def reply_number_def int64_def trunc_def)
  then have e: "token_bucket_lua mem_redis ''rl:a'' 1 5 3 1000 ?d =
      (Inr [RInt 0, RInt 2000, RInt 1], snd (token_bucket_lua mem_redis ''rl:a'' 1 5 3 1000 ?d))"
    by (metis prod.collapse)
  show ?thesis
    by (rule retry_after_sound[OF mem.redis_laws_axioms _ _ _ _ _ _ _ _ _ e, of "Some (1, 1000)"])
      (simp_all add: bucket_view_def bucket_wf_def small_def u)
qed

text \<open>
  A request whose cost exceeds the burst is refused, always, with a \<open>Retry-After\<close> that promises
  an admission that never comes.
\<close>

theorem cost_over_burst_refused:
  assumes "redis_laws R look" "bucket_view (look d k) s" "bucket_wf b s"
    and "small r" "small b" "0 < r" "small c" "small now" "b < c"
  shows "\<exists>rt rm d'. token_bucket_lua R k r b c now d = (Inr [RInt 0, RInt rt, RInt rm], d')"
  using redis_laws.over_burst_refused[OF assms] .

theorem cost_over_burst_refused_witness:
  "\<exists>rt rm d'. token_bucket_lua mem_redis ''rl:a'' 10 5 6 1000 Map.empty = (Inr [RInt 0, RInt rt, RInt rm], d')"
  by (rule cost_over_burst_refused[OF mem.redis_laws_axioms, of _ _ None])
    (simp_all add: bucket_view_def bucket_wf_def small_def)

end
