(* ===== verification/CoreProps.thy ===== *)
theory CoreProps
  imports CoreMain SlotSafety ScriptRuns
begin

text \<open>
  What a core process guarantees: its behaviour when Redis is away, its accounting of slots, the
  caps, the queue, the reserved share, its configuration and its start-up.
\<close>

section \<open>Facts about one check\<close>

lemma redis_call_lost:
  assumes "net (shd (envs s)) \<noteq> Up"
  shows "\<exists>e s'. redis_call op f s = (Inl e, s') \<and> envs s' = stl (envs s) \<and> selects s' = selects s \<and>
    history s' = history s \<and> fail_open (metrics s') = fail_open (metrics s)"
  using assms
  by (cases "net (shd (envs s))")
    (auto simp: redis_call_def Let_def over_link_def RecordRedisCall_def split: prod.splits)

lemma CheckAndDecrement_lost:
  assumes "net (shd (envs s)) \<noteq> Up"
  shows "\<exists>e s'. CheckAndDecrement st k r b c s = (Inl e, s') \<and> envs s' = stl (envs s) \<and>
    fail_open (metrics s') = fail_open (metrics s)"
  using redis_call_lost[OF assms, of "''check_and_decrement''" "\<lambda>env. token_bucket_lua (client st)
      (rateLimiterKeyPrefix @ k) r b c (unix_milli env)"]
  by (auto simp: CheckAndDecrement_def Let_def)

lemma IncrConcurrent_lost:
  assumes "net (shd (envs s)) \<noteq> Up"
  shows "\<exists>e s'. IncrConcurrent H st k c d s = (Inl e, s') \<and> fail_open (metrics s') = fail_open (metrics s)"
  using redis_call_lost[OF assms, of "''incr_concurrent''" "\<lambda>env. concurrent_limiter_lua (client st)
      (concurrencyKeyPrefix @ k) c d (unix_milli env) (signToken H (uuid_string env) (signingKey st))"]
  by (auto simp: IncrConcurrent_def Let_def)

lemma tb_Check_error:
  assumes "CheckAndDecrement st (Key req) (tb_rate l) (tb_burst l) (Cost req) s = (Inl e, s1)"
  shows "tb_Check (core_rate_store st) l req s =
    (Done (decision0\<lparr>Action := ALLOW, Tier := ''rate_limiter''\<rparr>, None),
     s1\<lparr>metrics := RecordFailOpen ''rate_limiter'' ''store_error'' (metrics s1)\<rparr>)"
  using assms by (simp add: tb_Check_def core_rate_store_def Let_def)

text \<open>A request of the wire as the pipeline sees it.\<close>

definition limiter_request :: "check_request \<Rightarrow> request" where
  "limiter_request req = \<lparr>Key = crq_Key req, Cost = crq_Cost req,
     SkipReservations = crq_SkipReservations req, Priority = request_priority (crq_Priority req)\<rparr>"

lemma CheckRateLimit_pipeline:
  "0 < crq_Cost req \<Longrightarrow> CheckRateLimit p req s =
    (case p (limiter_request req) s of
       (Done (d, None), s1) \<Rightarrow> (Done (Inr \<lparr>crs_Action = toProtoAction (Action d), crs_RetryAfterMs = RetryAfterMs d,
           crs_Reservations = Reservations d, crs_Tier = Tier d, crs_Limit = Limit d, crs_Remaining = Remaining d\<rparr>), s1)
     | (Done (d, Some e), s1) \<Rightarrow> (Done (Inl internalError), s1)
     | (Panicked m, s1) \<Rightarrow> (Panicked m, s1)
     | (Waiting, s1) \<Rightarrow> (Waiting, s1))"
  by (auto simp: CheckRateLimit_def limiter_request_def split: prod.splits outcome.splits option.splits)

section \<open>Redis away\<close>

lemma outage_pipeline:
  assumes "\<forall>env \<in> sset (envs s). net env \<noteq> Up"
  shows "\<exists>d e s'. pipeline_Check (core_tiers H st tb cl fs) req s = (Done (d, e), s') \<and>
    (if SkipReservations req then e = None \<and> Action d = ALLOW \<and> Tier d = ''rate_limiter'' else e \<noteq> None) \<and>
    fail_open (metrics s') = inc (fail_open (metrics s)) (''rate_limiter'', ''store_error'')"
proof -
  have n: "net (shd (envs s)) \<noteq> Up" "net (shd (stl (envs s))) \<noteq> Up"
    using assms by (auto simp: shd_sset stl_sset)
  obtain e1 s1 where c: "CheckAndDecrement st (Key req) (tb_rate tb) (tb_burst tb) (Cost req) s = (Inl e1, s1)"
    "envs s1 = stl (envs s)" "fail_open (metrics s1) = fail_open (metrics s)"
    using CheckAndDecrement_lost[OF n(1)] by blast
  define s2 where "s2 = s1\<lparr>metrics := RecordFailOpen ''rate_limiter'' ''store_error'' (metrics s1)\<rparr>"
  have s2: "net (shd (envs s2)) \<noteq> Up"
    "fail_open (metrics s2) = inc (fail_open (metrics s)) (''rate_limiter'', ''store_error'')"
    using c n by (simp_all add: s2_def RecordFailOpen_def)
  note tb = tb_Check_error[OF c(1), folded s2_def]
  obtain e2 s3 where i: "IncrConcurrent H st (Key req) (cl_cap cl) (cl_maxDurationMs cl) s2 = (Inl e2, s3)"
    "fail_open (metrics s3) = fail_open (metrics s2)"
    using IncrConcurrent_lost[OF s2(1)] by blast
  show ?thesis
    using tb i s2
    by (cases "SkipReservations req")
      (simp_all add: pipeline_Check_def core_tiers_def cl_Check_def fs_Check_def core_slot_store_def decision0_def)
qed

definition lost_env :: "'db call_env" where
  "lost_env = \<lparr>unix_milli = 1000, uuid_string = ''u1'', net = LostRequest ''dial tcp: connection refused'', call_nanos = 0, others = id\<rparr>"

definition lost_core :: "'db \<Rightarrow> 'db core" where
  "lost_core d = \<lparr>db = d, envs = sconst lost_env, selects = sconst [], metrics = core_metrics0, history = []\<rparr>"

text \<open>
  A rate of zero, which the admin RPC accepts, turns Tier 1 off: the script divides by it, the
  time to live it computes is not an integer, Redis refuses the script, and the limiter fails open
  for every key, every cost and every burst.
\<close>

theorem rate_zero_fails_open:
  assumes "redis_laws (client st) look" "tb_rate l = 0"
  shows "\<exists>d s'. tb_Check (core_rate_store st) l req s = (Done (d, None), s') \<and> Action d = ALLOW \<and>
    fail_open (metrics s') (''rate_limiter'', ''store_error'') =
      Suc (fail_open (metrics s) (''rate_limiter'', ''store_error''))"
proof -
  let ?f = "\<lambda>env. token_bucket_lua (client st) (rateLimiterKeyPrefix @ Key req) 0 (tb_burst l) (Cost req) (unix_milli env)"
  have "fails (fst (over_link (net env) (?f env) d))" for env d
    using redis_laws.rate_zero_errors[OF assms(1)] by (cases "net env") (auto simp: over_link_def fails_def)
  then have "fails (fst (redis_call ''check_and_decrement'' ?f s))"
    by (simp add: redis_call_def Let_def split_beta)
  then obtain e s1 where r: "redis_call ''check_and_decrement'' ?f s = (Inl e, s1)"
    by (metis failsE prod.collapse)
  then have m: "fail_open (metrics s1) = fail_open (metrics s)"
    by (auto simp: redis_call_def Let_def RecordRedisCall_def split: prod.splits)
  have "CheckAndDecrement st (Key req) (tb_rate l) (tb_burst l) (Cost req) s =
      (Inl e, log_call (CallCheck (Key req) 0 (tb_burst l) (Cost req) (Inl e)) s1)"
    using r assms(2) by (simp add: CheckAndDecrement_def Let_def)
  from tb_Check_error[OF this] m show ?thesis
    by (simp add: decision0_def RecordFailOpen_def inc_def)
qed

definition up_env :: "int \<Rightarrow> string \<Rightarrow> 'db call_env" where
  "up_env now u = \<lparr>unix_milli = now, uuid_string = u, net = Up, call_nanos = 0, others = id\<rparr>"

definition up_core :: "'db \<Rightarrow> 'db core" where
  "up_core d = \<lparr>db = d, envs = sconst (up_env 1000 ''u1''), selects = sconst [], metrics = core_metrics0, history = []\<rparr>"

theorem rate_zero_fails_open_witness:
  "\<exists>d s'. tb_Check (core_rate_store (mem_store ''k'')) (snd (SetRate 0 (NewTokenBucketLimiter 10 5 False)))
      \<lparr>Key = ''a'', Cost = 1000000, SkipReservations = False, Priority = Sheddable\<rparr> (up_core Map.empty) =
    (Done (d, None), s') \<and> Action d = ALLOW"
  using rate_zero_fails_open[of "mem_store ''k''" "\<lambda>db. db" "snd (SetRate 0 (NewTokenBucketLimiter 10 5 False))"
      "\<lparr>Key = ''a'', Cost = 1000000, SkipReservations = False, Priority = Sheddable\<rparr>" "up_core Map.empty"]
    mem.redis_laws_axioms
  by (auto simp: SetRate_def)

end
