(* ===== verification/SlotProps.thy ===== *)
theory SlotProps
  imports CoreProps
begin

text \<open>
  The slots a core process takes: they are exactly the reservations it answers with, they can be
  released with the tokens it answers with, a queued request waits on a backlog slot it gives back,
  and requests that take no slots touch none.
\<close>

section \<open>Tokens\<close>

text \<open>The tokens of a store are good as long as its invariant holds.\<close>

locale slot_tokens = slot_guard S inv "\<lambda>_ _. True"
  for S :: "'s slot_store" and inv :: "'s \<Rightarrow> bool" +
  fixes good :: "string \<Rightarrow> bool"
  assumes grant_good: "inv s \<Longrightarrow> incr_concurrent S k c d s = (Inr (True, t), s') \<Longrightarrow> good t"
    and refuse_empty: "incr_concurrent S k c d s = (Inr (False, t), s') \<Longrightarrow> t = ''''"
begin

definition good_tokens :: "token_reservation list \<Rightarrow> bool" where
  "good_tokens rs \<longleftrightarrow> (\<forall>r \<in> set rs. res_Token r = '''' \<or> good (res_Token r))"

lemma good_tokens_simps [simp]:
  "good_tokens []" "good_tokens (xs @ ys) \<longleftrightarrow> good_tokens xs \<and> good_tokens ys"
  "good_tokens [reservation k t] \<longleftrightarrow> t = '''' \<or> good t"
  by (auto simp: good_tokens_def reservation_def)

lemma incr_good: "incr_concurrent S k c d s = (Inr (b, t), s') \<Longrightarrow> inv s \<Longrightarrow> t = '''' \<or> good t"
  using grant_good refuse_empty by (cases b) auto

lemma grant_reservations [simp]:
  "Reservations (concurrency_grant a k t) = [reservation k t]" "Reservations (fleet_grant a t) = [reservation fleetKey t]"
  "Reservations (concurrency_reject d) = []"
  by (simp_all add: concurrency_grant_def fleet_grant_def concurrency_reject_def)

lemma incr_inv: "incr_concurrent S k c d s = (x, s') \<Longrightarrow> inv s \<Longrightarrow> inv s'"
  using guard_incr by blast

lemma poll_loop_good:
  "poll_loop S k c d evs s = (Done (x, e), s') \<Longrightarrow> inv s \<Longrightarrow> good_tokens (Reservations x)"
proof (induction evs arbitrary: s)
  case (Cons ev evs)
  then show ?case
    by (cases ev) (auto dest: incr_good incr_inv split: sum.splits prod.splits if_splits)
qed simp

lemma queue_good:
  assumes "with_deferred f (pollUntilAllowedOrDeadline S req c d w p s) = (Done (x, e), s')" "inv s"
  shows "good_tokens (Reservations x)"
proof -
  obtain a s1 where p: "pollUntilAllowedOrDeadline S req c d w p s = (a, s1)" by fastforce
  with assms(1) have "a = Done (x, e)" by (cases a) (auto simp: with_deferred_def)
  with p obtain es s2 where "await_events S s = (es, s2)" "poll_loop S (Key req) c d es s2 = (Done (x, e), s1)"
    by (auto simp: pollUntilAllowedOrDeadline_def Let_def split: if_splits prod.splits)
  then show ?thesis using poll_loop_good guard_await[OF assms(2)] by blast
qed

lemma cl_good:
  "cl_Check S l req s = (Done (x, e), s') \<Longrightarrow> inv s \<Longrightarrow> good_tokens (Reservations x)"
  by (auto simp: cl_Check_def Let_def acquireBacklogSlot_def dest: incr_good incr_inv queue_good
      split: if_splits sum.splits prod.splits)

lemma fs_good:
  "fs_Check S l req s = (Done (x, e), s') \<Longrightarrow> inv s \<Longrightarrow> good_tokens (Reservations x)"
  by (auto simp: fs_Check_def dest: incr_good incr_inv split: if_splits sum.splits prod.splits)

lemma cl_inv: "cl_Check S l req s = (a, s') \<Longrightarrow> inv s \<Longrightarrow> inv s'"
  using cl_guarded[of s l req a s'] by (simp add: cl_permitted_def)

end

text \<open>The UUIDs a process will draw contain no dot.\<close>

definition uuids_ok :: "'db core \<Rightarrow> bool" where
  "uuids_ok s \<longleftrightarrow> (\<forall>env \<in> sset (envs s). CHR ''.'' \<notin> set (uuid_string env))"

lemma uuids_ok_tail: "uuids_ok s \<Longrightarrow> envs s' = stl (envs s) \<Longrightarrow> uuids_ok s'"
  by (auto simp: uuids_ok_def dest: stl_sset)

lemma IncrConcurrent_envs: "IncrConcurrent H st k c d s = (x, s') \<Longrightarrow> envs s' = stl (envs s)"
  by (auto simp: IncrConcurrent_def Let_def dest: redis_call_frame split: prod.splits)

lemma DecrConcurrent_envs: "DecrConcurrent st k t s = (x, s') \<Longrightarrow> envs s' = stl (envs s)"
  by (auto simp: DecrConcurrent_def Let_def dest: redis_call_frame split: prod.splits)

lemma CheckAndDecrement_envs: "CheckAndDecrement st k r b c s = (x, s') \<Longrightarrow> envs s' = stl (envs s)"
  by (auto simp: CheckAndDecrement_def Let_def dest: redis_call_frame split: prod.splits)

interpretation tokens: slot_tokens "core_slot_store H st" uuids_ok "\<lambda>t. verifyToken H t (signingKey st)" for H st
proof
  fix k c d x t y es and s s' :: "'a core"
  let ?S = "core_slot_store H st :: 'a core slot_store"
  show "uuids_ok s'" if "uuids_ok s" "incr_concurrent ?S k c d s = (x, s')"
    using that IncrConcurrent_envs uuids_ok_tail by (fastforce simp: core_slot_store_def)
  show "uuids_ok s'" if "uuids_ok s" "decr_concurrent ?S k t s = (y, s')"
    using that DecrConcurrent_envs uuids_ok_tail by (fastforce simp: core_slot_store_def)
  show "uuids_ok s'" if "uuids_ok s" "await_events ?S s = (es, s')"
    using that by (auto simp: core_slot_store_def next_events_def uuids_ok_def)
  show "verifyToken H t (signingKey st)" if "uuids_ok s" "incr_concurrent ?S k c d s = (Inr (True, t), s')"
    using that IncrConcurrent_reply[of H st k c d s True t s']
    by (auto simp: core_slot_store_def verifyToken_iff uuids_ok_def shd_sset)
  show "t = ''''" if "incr_concurrent ?S k c d s = (Inr (False, t), s')"
    using that IncrConcurrent_reply[of H st k c d s False t s'] by (auto simp: core_slot_store_def)
qed

lemma tb_envs: "tb_Check (core_rate_store st) l req s = (a, s') \<Longrightarrow> envs s' = stl (envs s)"
  by (auto simp: tb_Check_def core_rate_store_def Let_def dest!: CheckAndDecrement_envs
      split: sum.splits prod.splits if_splits)

lemma tb_uuids: "tb_Check (core_rate_store st) l req s = (a, s') \<Longrightarrow> uuids_ok s \<Longrightarrow> uuids_ok s'"
  using tb_envs uuids_ok_tail by blast

section \<open>One run of the three tiers\<close>

text \<open>How the pipeline of a core process ends, given how each tier answered.\<close>

lemma core_pipeline_cases:
  assumes "pipeline_Check (core_tiers H st tb cl fs) req s = (Done (d, e), s')"
  obtains (first) d1 where "tb_Check (core_rate_store st) tb req s = (Done (d1, None), s')"
      "Action d1 \<noteq> ALLOW" "Action d = Action d1" "Reservations d = []" "e = None"
    | (second) d1 s1 d2 where "tb_Check (core_rate_store st) tb req s = (Done (d1, None), s1)" "Action d1 = ALLOW"
      "cl_Check (core_slot_store H st) cl req s1 = (Done (d2, e), s')"
      "e \<noteq> None \<or> Action d2 \<notin> {ALLOW, QUEUE}" "Action d = Action d2" "Reservations d = Reservations d2"
    | (third) d1 s1 d2 s2 d3 where "tb_Check (core_rate_store st) tb req s = (Done (d1, None), s1)" "Action d1 = ALLOW"
      "cl_Check (core_slot_store H st) cl req s1 = (Done (d2, None), s2)" "Action d2 \<in> {ALLOW, QUEUE}"
      "fs_Check (core_slot_store H st) fs req s2 = (Done (d3, e), s')"
      "Reservations d = Reservations d2 @ Reservations d3"
      "Action d = (if e \<noteq> None \<or> Action d3 \<notin> {ALLOW, QUEUE} then Action d3
         else if Action d3 = QUEUE then QUEUE else Action d2)"
proof -
  obtain d1 s1 where t: "tb_Check (core_rate_store st) tb req s = (Done (d1, None), s1)" "Reservations d1 = []"
    using tb_Check_returns[of "core_rate_store st" tb req s] by blast
  have a1: "Action d1 \<noteq> QUEUE" using tb_Check_action[OF t(1)] by auto
  show thesis
  proof (cases "Action d1 = ALLOW")
    case False
    then show thesis using assms t a1
      by (intro first[of d1]) (auto simp: pipeline_Check_def core_tiers_def Let_def)
  next
    case True
    obtain a2 s2 where c: "cl_Check (core_slot_store H st) cl req s1 = (a2, s2)" by fastforce
    have rest: "pipeline_loop [cl_Check (core_slot_store H st) cl, fs_Check (core_slot_store H st) fs] []
        (Tier d1) ALLOW req s1 = (Done (d, e), s') \<or>
      pipeline_loop [cl_Check (core_slot_store H st) cl, fs_Check (core_slot_store H st) fs] []
        '''' ALLOW req s1 = (Done (d, e), s')"
      using assms t True by (auto simp: pipeline_Check_def core_tiers_def Let_def split: if_splits)
    then obtain d2 e2 where a2: "a2 = Done (d2, e2)" using c by (cases a2) auto
    show thesis
    proof (cases "e2 \<noteq> None \<or> Action d2 \<notin> {ALLOW, QUEUE}")
      case True': True
      then show thesis using rest c a2 t True by (intro second[of d1 s1 d2]) auto
    next
      case False
      obtain a3 s3 where f: "fs_Check (core_slot_store H st) fs req s2 = (a3, s3)" by fastforce
      obtain d3 e3 where a3: "a3 = Done (d3, e3)" using rest c a2 False f by (cases a3) auto
      show thesis using rest c a2 False f a3 t True
        by (intro third[of d1 s1 d2 s2 d3]) (auto simp: Let_def split: if_splits)
    qed
  qed
qed

lemma CheckRateLimit_response:
  assumes "CheckRateLimit p req s = (Done (Inr resp), s')"
  obtains d where "p (limiter_request req) s = (Done (d, None), s')" "0 < crq_Cost req"
    "crs_Action resp = toProtoAction (Action d)" "crs_Reservations resp = Reservations d"
proof -
  have c: "0 < crq_Cost req" using assms by (auto simp: CheckRateLimit_def split: if_splits)
  then obtain d where "p (limiter_request req) s = (Done (d, None), s')"
    "crs_Action resp = toProtoAction (Action d)" "crs_Reservations resp = Reservations d"
    using assms by (auto simp: CheckRateLimit_pipeline split: prod.splits outcome.splits option.splits)
  then show thesis using that c by blast
qed

section \<open>A process to evaluate on\<close>

text \<open>A process over a keyspace in memory, whose next calls see these environments and whose next
  queue sees these events; it drives the witnesses of the properties below.\<close>

definition demo_core ::
  "(string \<rightharpoonup> rvalue) \<Rightarrow> (string \<rightharpoonup> rvalue) call_env stream \<Rightarrow> sel_event list \<Rightarrow> (string \<rightharpoonup> rvalue) core" where
  "demo_core d es evs = \<lparr>db = d, envs = es, selects = evs ## sconst [], metrics = core_metrics0, history = []\<rparr>"

definition demo_mac :: "string \<Rightarrow> string \<Rightarrow> string" where "demo_mac k m = ''a''"

definition demo_tb :: "bool \<Rightarrow> token_bucket_limiter" where "demo_tb shadow = NewTokenBucketLimiter 5 5 shadow"
definition demo_cl :: "bool \<Rightarrow> bool \<Rightarrow> concurrency_limiter" where
  "demo_cl shadow queue = NewConcurrencyLimiter 1 1000 shadow queue 1 1000 100"
definition demo_fs :: "bool \<Rightarrow> fleet_shedder" where "demo_fs shadow = NewFleetShedder 10 20 1000 shadow"

definition demo_req :: "int \<Rightarrow> bool \<Rightarrow> check_request" where
  "demo_req cost skip =
    \<lparr>crq_Key = ''a'', crq_Cost = cost, crq_SkipReservations = skip, crq_Priority = SHEDDABLE\<rparr>"

definition demo_store :: "(string \<rightharpoonup> rvalue) redis_store" where "demo_store = mem_store ''k''"

definition demo_envs :: "(string \<rightharpoonup> rvalue) call_env stream" where
  "demo_envs = up_env 1000 ''u1'' ## up_env 1000 ''u2'' ## up_env 1000 ''u3'' ## sconst (up_env 1000 ''u4'')"

lemma zcount_fmempty [simp]: "zcount fmempty = 0"
  by (simp add: zcount_def)

lemma zreap_fmempty [simp]: "zreap c fmempty = fmempty"
  by (simp add: zreap_def)

lemmas demo_defs = demo_core_def demo_tb_def demo_cl_def demo_fs_def demo_req_def demo_store_def mem_store_def
  demo_mac_def up_env_def core_tiers_def core_rate_store_def core_slot_store_def NewTokenBucketLimiter_def
  NewConcurrencyLimiter_def NewFleetShedder_def demo_envs_def lost_env_def

lemmas demo_eval = demo_defs CheckRateLimit_def pipeline_Check_def Let_def tb_Check_def CheckAndDecrement_def
  redis_call_def over_link_def token_bucket_lua_def of_int_dbl_small small_def bucket_decide_def lua_max_def
  lua_min_def mem_redis_def whole_def reply_number_def int64_def trunc_def decode_check_def decision0_def
  cl_Check_def IncrConcurrent_def concurrent_limiter_lua_def zput_def zcount_fmupd decode_incr_def concurrency_grant_def
  concurrency_reject_def fs_Check_def fleet_grant_def effectiveCap_def request_priority_def signed_divide_int_def
  sgn_if signToken_def hex_encode_def hex_digit_def rateLimiterKeyPrefix_def concurrencyKeyPrefix_def
  fleetKey_def log_call_def RecordRedisCall_def core_metrics0_def limiter_request_def

lemma demo_check:
  "fst (CheckRateLimit (pipeline_Check (core_tiers demo_mac demo_store (demo_tb False) (demo_cl False False) (demo_fs False)))
      (demo_req 2 False) (demo_core Map.empty demo_envs [])) =
    Done (Inr \<lparr>crs_Action = P_ALLOW, crs_RetryAfterMs = 0, crs_Reservations =
      [reservation ''a'' ''u2.61'', reservation ''fleet'' ''u3.61''], crs_Tier = ''fleet_shedder'', crs_Limit = 0,
      crs_Remaining = 0\<rparr>)"
  by (simp add: demo_eval)

section \<open>Slots and reservations\<close>

text \<open>
  C5: No slot is lost or invented on the way to the client: after a check that answers, the process
  has been granted exactly the slots of the response's reservations, whatever the tiers' settings,
  the queue and the network did.
\<close>

theorem check_accounted:
  assumes "CheckRateLimit (pipeline_Check (core_tiers H st tb cl fs)) req s = (Done (Inr resp), s')"
  shows "held_slots s' = held_slots s + slots_in (crs_Reservations resp)"
proof -
  obtain d where "pipeline_Check (core_tiers H st tb cl fs) (limiter_request req) s = (Done (d, None), s')"
    "crs_Reservations resp = Reservations d"
    using CheckRateLimit_response[OF assms] by blast
  then show ?thesis using core_tiers.pipeline_accounted by simp
qed

theorem check_accounted_witness:
  "\<exists>s'. CheckRateLimit (pipeline_Check (core_tiers demo_mac demo_store (demo_tb False) (demo_cl False False)
      (demo_fs False))) (demo_req 2 False) (demo_core Map.empty demo_envs []) =
    (Done (Inr \<lparr>crs_Action = P_ALLOW, crs_RetryAfterMs = 0, crs_Reservations =
      [reservation ''a'' ''u2.61'', reservation ''fleet'' ''u3.61''], crs_Tier = ''fleet_shedder'', crs_Limit = 0,
      crs_Remaining = 0\<rparr>), s') \<and> held_slots s' = {#(''a'', ''u2.61''), (''fleet'', ''u3.61'')#}"
proof -
  obtain s' where r: "CheckRateLimit (pipeline_Check (core_tiers demo_mac demo_store (demo_tb False) (demo_cl False False)
      (demo_fs False))) (demo_req 2 False) (demo_core Map.empty demo_envs []) =
    (Done (Inr \<lparr>crs_Action = P_ALLOW, crs_RetryAfterMs = 0, crs_Reservations =
      [reservation ''a'' ''u2.61'', reservation ''fleet'' ''u3.61''], crs_Tier = ''fleet_shedder'', crs_Limit = 0,
      crs_Remaining = 0\<rparr>), s')" using demo_check by (metis prod.collapse)
  from check_accounted[OF r] r show ?thesis
    by (simp add: held_slots_def demo_core_def slots_in_def slots_of_def reservation_def decision0_def)
qed

lemma cl_admits:
  assumes "cl_Check (core_slot_store H st) l req s = (Done (d, None), s')" "Action d \<in> {ALLOW, QUEUE}"
    and "\<not> SkipReservations req" "uuids_ok s"
  shows "\<exists>t. Reservations d = [reservation (Key req) t] \<and> t \<noteq> ''''"
proof -
  let ?S = "core_slot_store H st"
  have poll: "Action x \<in> {ALLOW, QUEUE} \<Longrightarrow> \<exists>t. Reservations x = [reservation (Key req) t] \<and> t \<noteq> ''''"
    if "poll_loop ?S (Key req) c dur evs s1 = (Done (x, None), s2)" for c dur evs s1 x s2
    using that
  proof (induction evs arbitrary: s1)
    case (Cons ev evs)
    then show ?case
      by (cases ev) (auto simp: concurrency_reject_def concurrency_grant_def decision0_def
          dest!: slots.incr_ledger split: sum.splits prod.splits if_splits)
  qed simp
  have queue: "Action x \<in> {ALLOW, QUEUE} \<Longrightarrow> \<exists>t. Reservations x = [reservation (Key req) t] \<and> t \<noteq> ''''"
    if "with_deferred f (pollUntilAllowedOrDeadline ?S req c dur w p s1) = (Done (x, None), s2)" for f c dur w p s1 x s2
    using that poll by (auto simp: with_deferred_def pollUntilAllowedOrDeadline_def Let_def
        split: prod.splits outcome.splits if_splits)
  show ?thesis
    using assms
    by (auto simp: cl_Check_def Let_def acquireBacklogSlot_def concurrency_reject_def concurrency_grant_def decision0_def
        dest!: slots.incr_ledger dest: queue split: if_splits sum.splits prod.splits)
qed

lemma fs_admits:
  assumes "fs_Check (core_slot_store H st) l req s = (Done (d, None), s')" "Action d \<in> {ALLOW, QUEUE}"
    and "\<not> SkipReservations req"
  shows "Action d = ALLOW \<and> (\<exists>t. Reservations d = [reservation fleetKey t] \<and> t \<noteq> '''')"
  using assms
  by (auto simp: fs_Check_def fleet_grant_def decision0_def dest!: slots.incr_ledger
      split: if_splits sum.splits prod.splits)

text \<open>
  C6: A request that takes slots and is admitted, at once or from the queue, holds exactly two: one
  of its key and one of the fleet, in this order, each with a token of its own that the release
  RPC accepts, provided the UUID generator writes no dots.
\<close>

theorem admitted_holds_both_slots:
  assumes "CheckRateLimit (pipeline_Check (core_tiers H st tb cl fs)) req s = (Done (Inr resp), s')"
    and "crs_Action resp \<in> {P_ALLOW, P_QUEUE}" "\<not> crq_SkipReservations req" "uuids_ok s"
  shows "\<exists>t1 t2. crs_Reservations resp = [reservation (crq_Key req) t1, reservation fleetKey t2] \<and>
    verifyToken H t1 (signingKey st) \<and> verifyToken H t2 (signingKey st)"
proof -
  let ?q = "limiter_request req"
  obtain d where p: "pipeline_Check (core_tiers H st tb cl fs) ?q s = (Done (d, None), s')"
    and resp: "crs_Action resp = toProtoAction (Action d)" "crs_Reservations resp = Reservations d"
    using CheckRateLimit_response[OF assms(1)] by blast
  have a: "Action d \<in> {ALLOW, QUEUE}" using assms(2) resp(1) by (cases "Action d") auto
  have q: "\<not> SkipReservations ?q" "Key ?q = crq_Key req" using assms(3) by (simp_all add: limiter_request_def)
  show ?thesis using p
  proof (cases rule: core_pipeline_cases)
    case (first d1)
    then show ?thesis using a tb_Check_action[OF first(1)] by auto
  next
    case (second d1 s1 d2)
    then show ?thesis using a by auto
  next
    case (third d1 s1 d2 s2 d3)
    have u1: "uuids_ok s1" by (rule tb_uuids[OF third(1) assms(4)])
    have u2: "uuids_ok s2" by (rule tokens.cl_inv[OF third(3) u1])
    have "Action d3 \<in> {ALLOW, QUEUE}" using third(7) a by (auto split: if_splits)
    then obtain t1 t2 where r: "Reservations d2 = [reservation (Key ?q) t1]" "t1 \<noteq> ''''"
      "Reservations d3 = [reservation fleetKey t2]" "t2 \<noteq> ''''"
      using cl_admits[OF third(3,4) q(1) u1] fs_admits[OF third(5) _ q(1)] by blast
    moreover have "verifyToken H t1 (signingKey st)" "verifyToken H t2 (signingKey st)"
      using tokens.cl_good[OF third(3) u1] tokens.fs_good[OF third(5) u2] r by auto
    ultimately show ?thesis using third(6) resp(2) q(2) by auto
  qed
qed

theorem admitted_holds_both_slots_witness:
  "verifyToken demo_mac ''u2.61'' ''k'' \<and> verifyToken demo_mac ''u3.61'' ''k''"
proof -
  obtain s' where r: "CheckRateLimit (pipeline_Check (core_tiers demo_mac demo_store (demo_tb False) (demo_cl False False)
      (demo_fs False))) (demo_req 2 False) (demo_core Map.empty demo_envs []) =
    (Done (Inr \<lparr>crs_Action = P_ALLOW, crs_RetryAfterMs = 0, crs_Reservations =
      [reservation ''a'' ''u2.61'', reservation ''fleet'' ''u3.61''], crs_Tier = ''fleet_shedder'', crs_Limit = 0,
      crs_Remaining = 0\<rparr>), s')" using demo_check by (metis prod.collapse)
  show ?thesis
    using admitted_holds_both_slots[OF r]
    by (auto simp: uuids_ok_def demo_core_def demo_envs_def up_env_def demo_req_def demo_store_def mem_store_def reservation_def)
qed

section \<open>Failing calls\<close>

fun slot_call_failed :: "store_call \<Rightarrow> bool" where
  "slot_call_failed (CallIncr k c d (Inl e)) = True"
| "slot_call_failed _ = False"

fun rate_call_failed :: "store_call \<Rightarrow> bool" where
  "rate_call_failed (CallCheck k r b c (Inl e)) = True"
| "rate_call_failed _ = False"

definition failures :: "(store_call \<Rightarrow> bool) \<Rightarrow> 'db core \<Rightarrow> nat" where
  "failures f s = length (filter f (history s))"

text \<open>A count of failed reservations; \<open>kept\<close> is what calls for slots do not touch.\<close>

locale slot_failures =
  fixes S :: "'s slot_store" and failed :: "'s \<Rightarrow> nat" and kept :: "'s \<Rightarrow> 'k"
  assumes incr_failed: "incr_concurrent S k c d s = (x, s') \<Longrightarrow>
      failed s' = (case x of Inl e \<Rightarrow> Suc (failed s) | Inr _ \<Rightarrow> failed s) \<and> kept s' = kept s"
    and decr_failed: "decr_concurrent S k t s = (y, s') \<Longrightarrow> failed s' = failed s \<and> kept s' = kept s"
    and await_failed: "await_events S s = (es, s') \<Longrightarrow> failed s' = failed s \<and> kept s' = kept s"
begin

definition failure_seen :: "answer \<Rightarrow> 's \<Rightarrow> 's \<Rightarrow> bool" where
  "failure_seen a s s' \<longleftrightarrow> kept s' = kept s \<and> failed s \<le> failed s' \<and>
    (\<forall>d. a = Done (d, None) \<longrightarrow> failed s' = failed s)"

lemma poll_failure: "poll_loop S k c d evs s = (a, s') \<Longrightarrow> failure_seen a s s'"
proof (induction evs arbitrary: s)
  case (Cons ev evs)
  then show ?case
    by (cases ev) (fastforce simp: failure_seen_def dest!: incr_failed split: sum.splits prod.splits if_splits)+
qed (simp add: failure_seen_def)

lemma queue_failure:
  assumes "with_deferred (\<lambda>s. snd (decr_concurrent S bk t s)) (pollUntilAllowedOrDeadline S req c d w p s) = (a, s')"
  shows "failure_seen a s s'"
proof -
  obtain a1 s1 where p: "pollUntilAllowedOrDeadline S req c d w p s = (a1, s1)" by fastforce
  then have "failure_seen a1 s s1"
    using poll_failure[of "Key req" c d] await_failed
    by (fastforce simp: pollUntilAllowedOrDeadline_def Let_def failure_seen_def split: prod.splits if_splits)
  moreover obtain y s2 where d: "decr_concurrent S bk t s1 = (y, s2)" by fastforce
  ultimately show ?thesis
    using assms p decr_failed[OF d] by (cases a1) (auto simp: with_deferred_def failure_seen_def)
qed

lemma cl_failure:
  assumes "cl_Check S l req s = (a, s')" shows "failure_seen a s s'"
  using assms
  by (auto simp: cl_Check_def Let_def acquireBacklogSlot_def failure_seen_def dest!: incr_failed
      dest: queue_failure[unfolded failure_seen_def] split: if_splits sum.splits prod.splits)

lemma fs_failure:
  assumes "fs_Check S l req s = (a, s')" shows "failure_seen a s s'"
  using assms
  by (auto simp: fs_Check_def failure_seen_def dest!: incr_failed split: if_splits sum.splits prod.splits)

end

lemma redis_call_fail_open: "redis_call op f s = (r, s') \<Longrightarrow> fail_open (metrics s') = fail_open (metrics s)"
  by (auto simp: redis_call_def Let_def RecordRedisCall_def split: prod.splits)

lemma store_fail_open:
  "CheckAndDecrement st k r b c s = (x, s') \<Longrightarrow> fail_open (metrics s') = fail_open (metrics s)"
  "IncrConcurrent H st k c d s = (z, s') \<Longrightarrow> fail_open (metrics s') = fail_open (metrics s)"
  "DecrConcurrent st k t s = (y, s') \<Longrightarrow> fail_open (metrics s') = fail_open (metrics s)"
  by (auto simp: CheckAndDecrement_def IncrConcurrent_def DecrConcurrent_def Let_def
      dest: redis_call_fail_open split: prod.splits)

interpretation failing: slot_failures "core_slot_store H st" "failures slot_call_failed"
  "\<lambda>s. (failures rate_call_failed s, fail_open (metrics s))" for H st
proof
  fix k c d t x y es and s s' :: "'a core"
  let ?S = "core_slot_store H st :: 'a core slot_store" and ?k = "\<lambda>s. (failures rate_call_failed s, fail_open (metrics s))"
  show "failures slot_call_failed s' = (case x of Inl e \<Rightarrow> Suc (failures slot_call_failed s) | Inr _ \<Rightarrow> failures slot_call_failed s) \<and>
      ?k s' = ?k s" if "incr_concurrent ?S k c d s = (x, s')"
    using that IncrConcurrent_history[of H st k c d s x s'] store_fail_open(2)[of H st k c d s x s']
    by (auto simp: core_slot_store_def failures_def split: sum.split)
  show "failures slot_call_failed s' = failures slot_call_failed s \<and> ?k s' = ?k s" if "decr_concurrent ?S k t s = (y, s')"
    using that DecrConcurrent_history[of st k t s y s'] store_fail_open(3)[of st k t s y s']
    by (auto simp: core_slot_store_def failures_def)
  show "failures slot_call_failed s' = failures slot_call_failed s \<and> ?k s' = ?k s" if "await_events ?S s = (es, s')"
    using that by (auto simp: core_slot_store_def next_events_def failures_def)
qed

text \<open>What Tier 1 makes of its one call.\<close>

definition fails_open :: "'db core \<Rightarrow> 'db core \<Rightarrow> bool" where
  "fails_open s s' \<longleftrightarrow> fail_open (metrics s') =
    (if failures rate_call_failed s' = failures rate_call_failed s then fail_open (metrics s)
     else inc (fail_open (metrics s)) (''rate_limiter'', ''store_error''))"

lemma tb_failure:
  assumes "tb_Check (core_rate_store st) tb req s = (Done (d, e), s')"
  shows "failures slot_call_failed s' = failures slot_call_failed s \<and> fails_open s s' \<and>
    (failures rate_call_failed s' \<noteq> failures rate_call_failed s \<longrightarrow> Action d = ALLOW \<and> Tier d = ''rate_limiter'')"
proof -
  obtain x s1 where c: "CheckAndDecrement st (Key req) (tb_rate tb) (tb_burst tb) (Cost req) s = (x, s1)" by fastforce
  note CheckAndDecrement_history[OF c] store_fail_open(1)[OF c]
  then show ?thesis
    using assms c
    by (cases x) (auto simp: tb_Check_def core_rate_store_def Let_def failures_def fails_open_def RecordFailOpen_def
        decision0_def split: if_splits prod.splits)
qed

lemma pipeline_failure:
  assumes "pipeline_Check (core_tiers H st tb cl fs) req s = (Done (d, e), s')"
  shows "(failures slot_call_failed s' \<noteq> failures slot_call_failed s \<longrightarrow> e \<noteq> None) \<and> fails_open s s'"
  using assms
proof (cases rule: core_pipeline_cases)
  case (first d1)
  then show ?thesis using tb_failure[OF first(1)] by simp
next
  case (second d1 s1 d2)
  then show ?thesis
    using tb_failure[OF second(1)] failing.cl_failure[OF second(3)]
    by (auto simp: failing.failure_seen_def fails_open_def)
next
  case (third d1 s1 d2 s2 d3)
  then show ?thesis
    using tb_failure[OF third(1)] failing.cl_failure[OF third(3)] failing.fs_failure[OF third(5)]
    by (auto simp: failing.failure_seen_def fails_open_def)
qed

lemma pipeline_skip_fails_open:
  assumes "pipeline_Check (core_tiers H st tb cl fs) req s = (Done (d, e), s')" "SkipReservations req"
    and "failures rate_call_failed s' \<noteq> failures rate_call_failed s"
  shows "e = None \<and> Action d = ALLOW \<and> Tier d = ''rate_limiter''"
proof -
  obtain d1 s1 where t: "tb_Check (core_rate_store st) tb req s = (Done (d1, None), s1)"
    using tb_Check_returns[of "core_rate_store st" tb req s] by blast
  have s1: "s1 = s'"
    using assms(1,2) t
    by (auto simp: pipeline_Check_def core_tiers_def cl_Check_def fs_Check_def Let_def split: if_splits)
  then have "Action d1 = ALLOW" "Tier d1 = ''rate_limiter''"
    using tb_failure[OF t] assms(3) by auto
  then show ?thesis using assms(1,2) t
    by (auto simp: pipeline_Check_def core_tiers_def cl_Check_def fs_Check_def decision0_def Let_def)
qed

text \<open>
  C8: Tier 1 fails open, Tiers 2 and 3 fail closed, each by itself: whichever reservation of a check
  with a positive cost fails, of Tier 2, of its queue or of Tier 3, in shadow mode or not, the answer is an internal error;
  a failing call of Tier 1 is counted as a fail-open, exactly then, and lets a request pass that takes
  no slots.  So when Redis is away altogether a request that takes no slots is admitted and any
  other gets an internal error.
\<close>

theorem redis_outage:
  assumes "0 < crq_Cost req"
  shows "(\<forall>r s'. CheckRateLimit (pipeline_Check (core_tiers H st tb cl fs)) req s = (Done r, s') \<longrightarrow>
      (failures slot_call_failed s' \<noteq> failures slot_call_failed s \<longrightarrow> r = Inl internalError) \<and>
      (failures rate_call_failed s' \<noteq> failures rate_call_failed s \<longrightarrow> crq_SkipReservations req \<longrightarrow>
        (\<exists>resp. r = Inr resp \<and> crs_Action resp = P_ALLOW \<and> crs_Tier resp = ''rate_limiter'')) \<and>
      fail_open (metrics s') (''rate_limiter'', ''store_error'') =
        fail_open (metrics s) (''rate_limiter'', ''store_error'') +
          (if failures rate_call_failed s' = failures rate_call_failed s then 0 else 1)) \<and>
    ((\<forall>env \<in> sset (envs s). net env \<noteq> Up) \<longrightarrow>
      (\<exists>r s'. CheckRateLimit (pipeline_Check (core_tiers H st tb cl fs)) req s = (Done r, s') \<and>
        (if crq_SkipReservations req
         then \<exists>resp. r = Inr resp \<and> crs_Action resp = P_ALLOW \<and> crs_Tier resp = ''rate_limiter''
         else r = Inl internalError) \<and>
        fail_open (metrics s') (''rate_limiter'', ''store_error'') =
          Suc (fail_open (metrics s) (''rate_limiter'', ''store_error''))))"
proof (intro conjI allI impI)
  let ?q = "limiter_request req" and ?P = "pipeline_Check (core_tiers H st tb cl fs)"
  have skip: "SkipReservations ?q = crq_SkipReservations req" by (simp add: limiter_request_def)
  fix r s'
  assume run: "CheckRateLimit ?P req s = (Done r, s')"
  obtain d e where p: "?P ?q s = (Done (d, e), s')"
    and r: "case e of Some _ \<Rightarrow> r = Inl internalError
      | None \<Rightarrow> \<exists>resp. r = Inr resp \<and> crs_Action resp = toProtoAction (Action d) \<and> crs_Tier resp = Tier d"
    using run assms by (auto simp: CheckRateLimit_pipeline split: outcome.splits option.splits prod.splits)
  note f = pipeline_failure[OF p]
  show "r = Inl internalError" if "failures slot_call_failed s' \<noteq> failures slot_call_failed s"
    using that f r by auto
  show "fail_open (metrics s') (''rate_limiter'', ''store_error'') =
      fail_open (metrics s) (''rate_limiter'', ''store_error'') +
        (if failures rate_call_failed s' = failures rate_call_failed s then 0 else 1)"
    using f by (simp add: fails_open_def inc_def)
  show "\<exists>resp. r = Inr resp \<and> crs_Action resp = P_ALLOW \<and> crs_Tier resp = ''rate_limiter''"
    if "failures rate_call_failed s' \<noteq> failures rate_call_failed s" "crq_SkipReservations req"
    using pipeline_skip_fails_open[OF p] that skip r by auto
next
  assume "\<forall>env \<in> sset (envs s). net env \<noteq> Up"
  then obtain d e s' where "pipeline_Check (core_tiers H st tb cl fs) (limiter_request req) s = (Done (d, e), s')"
    "if crq_SkipReservations req then e = None \<and> Action d = ALLOW \<and> Tier d = ''rate_limiter'' else e \<noteq> None"
    "fail_open (metrics s') = inc (fail_open (metrics s)) (''rate_limiter'', ''store_error'')"
    using outage_pipeline[of s H st tb cl fs "limiter_request req"] by (auto simp: limiter_request_def)
  then show "\<exists>r s'. CheckRateLimit (pipeline_Check (core_tiers H st tb cl fs)) req s = (Done r, s') \<and>
      (if crq_SkipReservations req
       then \<exists>resp. r = Inr resp \<and> crs_Action resp = P_ALLOW \<and> crs_Tier resp = ''rate_limiter''
       else r = Inl internalError) \<and>
      fail_open (metrics s') (''rate_limiter'', ''store_error'') =
        Suc (fail_open (metrics s) (''rate_limiter'', ''store_error''))"
    using assms by (cases "crq_SkipReservations req") (auto simp: CheckRateLimit_pipeline inc_def)
qed

theorem redis_outage_witness:
  "\<exists>r s'. CheckRateLimit (pipeline_Check (core_tiers (\<lambda>k m. m) (mem_store ''k'') (NewTokenBucketLimiter 10 5 False)
      (NewConcurrencyLimiter 3 1000 False False 0 0 0) (NewFleetShedder 10 20 1000 False)))
      \<lparr>crq_Key = ''a'', crq_Cost = 1, crq_SkipReservations = False, crq_Priority = SHEDDABLE\<rparr>
      (lost_core Map.empty) = (Done r, s') \<and> r = Inl internalError"
  using redis_outage[of "\<lparr>crq_Key = ''a'', crq_Cost = 1, crq_SkipReservations = False, crq_Priority = SHEDDABLE\<rparr>"
      "\<lambda>k m. m" "mem_store ''k''" "NewTokenBucketLimiter 10 5 False"
      "NewConcurrencyLimiter 3 1000 False False 0 0 0" "NewFleetShedder 10 20 1000 False" "lost_core Map.empty",
      THEN conjunct2]
  by (auto simp: lost_core_def lost_env_def)

text \<open>
  When the store fails at Tier 3 after Tier 2 has granted a slot, the client gets an internal
  error and no reservation, and the process keeps the slot: no RPC can release it, it stays taken
  until it is reaped after the maximal request duration.
\<close>

theorem fleet_error_keeps_slot:
  assumes "tb_Check (core_rate_store st) tb (limiter_request req) s = (Done (d1, None), s1)" "Action d1 = ALLOW"
    and "IncrConcurrent H st (crq_Key req) (cl_cap cl) (cl_maxDurationMs cl) s1 = (Inr (True, t), s2)"
    and "IncrConcurrent H st fleetKey (effectiveCap fs (request_priority (crq_Priority req))) (fs_maxDurationMs fs) s2 =
      (Inl e, s3)"
    and "0 < crq_Cost req" "\<not> crq_SkipReservations req"
  shows "CheckRateLimit (pipeline_Check (core_tiers H st tb cl fs)) req s = (Done (Inl internalError), s3) \<and>
    held_slots s3 = held_slots s + {#(crq_Key req, t)#}"
proof -
  let ?S = "core_slot_store H st" and ?q = "limiter_request req"
  have q: "Key ?q = crq_Key req" "\<not> SkipReservations ?q" "Priority ?q = request_priority (crq_Priority req)"
    using assms(6) by (simp_all add: limiter_request_def)
  have c: "cl_Check ?S cl ?q s1 = (Done (concurrency_grant ALLOW (crq_Key req) t, None), s2)"
    using assms(3) q by (simp add: cl_Check_def core_slot_store_def Let_def)
  have f: "fs_Check ?S fs ?q s2 = (Done (decision0, Some e), s3)"
    using assms(4) q by (simp add: fs_Check_def core_slot_store_def)
  obtain d where p: "pipeline_Check (core_tiers H st tb cl fs) ?q s = (Done (d, Some e), s3)"
    using assms(1,2) c f by (auto simp: pipeline_Check_def core_tiers_def concurrency_grant_def decision0_def Let_def)
  have "held_slots s1 = held_slots s + slots_of d1"
    using rates.tb_accounted[OF assms(1)] by simp
  moreover have "slots_of d1 = {#}" using tb_Check_returns[of "core_rate_store st" tb ?q s] assms(1)
    by (auto simp: slots_of_def)
  moreover have "held_slots s2 = held_slots s1 + {#(crq_Key req, t)#}"
    using slots.incr_grant[of H st "crq_Key req" "cl_cap cl" "cl_maxDurationMs cl" s1 t s2] assms(3)
    by (simp add: core_slot_store_def)
  moreover have "held_slots s3 = held_slots s2"
    using slots.fs_accounted[OF f] by simp
  ultimately show ?thesis using p assms(5) by (simp add: CheckRateLimit_pipeline)
qed

theorem fleet_error_keeps_slot_witness:
  "\<exists>s'. CheckRateLimit (pipeline_Check (core_tiers demo_mac demo_store (demo_tb False) (demo_cl False False)
      (demo_fs False))) (demo_req 2 False)
      (demo_core Map.empty (up_env 1000 ''u1'' ## up_env 1000 ''u2'' ## sconst lost_env) []) =
    (Done (Inl internalError), s') \<and> held_slots s' = {#(''a'', ''u2.61'')#}"
proof -
  let ?s = "demo_core Map.empty (up_env 1000 ''u1'' ## up_env 1000 ''u2'' ## sconst lost_env) []"
  let ?t = "tb_Check (core_rate_store demo_store) (demo_tb False) (limiter_request (demo_req 2 False)) ?s"
  let ?i = "IncrConcurrent demo_mac demo_store ''a'' 1 1000 (snd ?t)"
  let ?j = "IncrConcurrent demo_mac demo_store fleetKey 8 1000 (snd ?i)"
  let ?d = "decision0\<lparr>Action := ALLOW, Tier := ''rate_limiter'', Limit := 5, Remaining := 3\<rparr>"
  have "fst ?t = Done (?d, None)" "fst ?i = Inr (True, ''u2.61'')"
    "fst ?j = Inl ''dial tcp: connection refused''"
    by (simp_all add: demo_eval)
  then have "?t = (Done (?d, None), snd ?t)" "?i = (Inr (True, ''u2.61''), snd ?i)"
    "?j = (Inl ''dial tcp: connection refused'', snd ?j)"
    by (metis prod.collapse)+
  from fleet_error_keeps_slot[where req = "demo_req 2 False" and cl = "demo_cl False False" and fs = "demo_fs False",
      OF this(1)] this(2,3) show ?thesis
    by (force simp: demo_req_def demo_cl_def demo_fs_def NewConcurrencyLimiter_def NewFleetShedder_def decision0_def
        effectiveCap_def request_priority_def signed_divide_int_def sgn_if int64_def held_slots_def demo_core_def)
qed

end
