(* ===== verification/TierProps.thy ===== *)
theory TierProps
  imports SlotProps
begin

text \<open>
  The queue of Tier 2, requests that take no slots, shadow mode, and the caps under the limits of
  every client of the same Redis.
\<close>

section \<open>The queue\<close>

context slot_grants
begin

lemma queue_waiting:
  assumes "with_deferred f (pollUntilAllowedOrDeadline S req c d w p s1) = (Waiting, s')"
    and "held s1 = add_mset (bk, t) m"
  shows "\<exists>t'. held s' = add_mset (bk, t') m"
proof -
  obtain a s2 where p: "pollUntilAllowedOrDeadline S req c d w p s1 = (a, s2)" by fastforce
  then have "a = Waiting" "s2 = s'" using assms(1) by (cases a; auto simp: with_deferred_def)+
  then show ?thesis using poll_accounted[OF p] assms(2) by simp
qed

lemma cl_waiting:
  assumes "cl_Check S l req s = (Waiting, s')"
  shows "\<exists>t. held s' = add_mset (backlogKeyPrefix @ Key req, t) (held s)"
  using assms
  by (auto simp: cl_Check_def Let_def acquireBacklogSlot_def dest!: ledger_rules dest: queue_waiting
      split: if_splits sum.splits prod.splits)

end

text \<open>The release of the backlog slot is the last call Tier 2 makes, if it fails the slot stays.\<close>

context taken_ledger
begin

definition left_with :: "string \<Rightarrow> answer \<Rightarrow> 's \<Rightarrow> 's \<Rightarrow> bool" where
  "left_with k a s s' \<longleftrightarrow> accounted a (held s) (held s') \<or>
    (\<exists>t e s2. decr_concurrent S k t s2 = (Some e, s') \<and> accounted a (held s + {#(k, t)#}) (held s'))"

lemma queue_taken:
  assumes "with_deferred (\<lambda>s. snd (decr_concurrent S bk t s)) (pollUntilAllowedOrDeadline S req c d w p s1) = (a, s')"
    and "held s1 = add_mset (bk, t) (held s)"
  shows "left_with bk a s s'"
proof -
  obtain a1 s2 where p: "pollUntilAllowedOrDeadline S req c d w p s1 = (a1, s2)" by fastforce
  obtain x s3 where r: "decr_concurrent S bk t s2 = (x, s3)" by fastforce
  show ?thesis
    using poll_accounted[OF p] decr_taken[OF r] assms p r
    by (cases a1; cases x) (fastforce simp: with_deferred_def left_with_def)+
qed

lemma cl_taken:
  assumes "cl_Check S l req s = (a, s')"
  shows "left_with (backlogKeyPrefix @ Key req) a s s'"
proof -
  have "accounted a (held s) (held s') \<Longrightarrow> left_with k a s s'" for k by (simp add: left_with_def)
  then show ?thesis using assms
    by (auto simp: cl_Check_def Let_def acquireBacklogSlot_def intro: queue_taken dest!: ledger_rules
        split: if_splits sum.splits prod.splits)
qed

end

text \<open>
  C12: A request in the queue holds one backlog slot of its key and nothing else.  On every way out of
  Tier 2, with a grant, a refusal, an error or a cancelled context, or a panic, the release of that
  slot has been asked for, and nothing else is left to the process than what the decision
  says.  The release is best effort, nobody repeats it: the slot is free again unless exactly this
  last call of Tier 2 failed, as it does under a context that has ended, and then it is the one slot
  that may stay taken until it is reaped.
\<close>

theorem queue_slots_accounted:
  "case cl_Check (core_slot_store H st) l req s of
     (Waiting, s') \<Rightarrow> (\<exists>t. held_slots s' = held_slots s + {#(backlogKeyPrefix @ Key req, t)#}) \<and>
       (\<exists>t. taken_slots s' = taken_slots s + {#(backlogKeyPrefix @ Key req, t)#})
   | (a, s') \<Rightarrow> accounted a (held_slots s) (held_slots s') \<and>
       (accounted a (taken_slots s) (taken_slots s') \<or>
        (\<exists>t e h. history s' = h @ [CallDecr (backlogKeyPrefix @ Key req) t (Some e)] \<and>
          accounted a (taken_slots s + {#(backlogKeyPrefix @ Key req, t)#}) (taken_slots s')))"
proof -
  obtain a s' where c: "cl_Check (core_slot_store H st) l req s = (a, s')" by fastforce
  have "\<exists>h. history s' = h @ [CallDecr k t x]" if "decr_concurrent (core_slot_store H st) k t s2 = (x, s')" for k t x s2
    using that DecrConcurrent_history by (fastforce simp: core_slot_store_def)
  then show ?thesis
    using slots.cl_accounted[OF c] taken.cl_taken[OF c, unfolded taken.left_with_def] slots.cl_waiting[of H st l req s s']
      taken.cl_waiting[of H st l req s s'] c
    by (cases a) fastforce+
qed

lemma poll_loop_returns:
  "\<exists>ev \<in> set evs. ev \<noteq> TickerC \<Longrightarrow> \<exists>x s'. poll_loop S k c d evs s = (Done x, s')"
proof (induction evs arbitrary: s)
  case (Cons ev evs)
  show ?case
  proof (cases ev)
    case TickerC
    then have "\<exists>ev \<in> set evs. ev \<noteq> TickerC" using Cons.prems by auto
    then have "\<exists>x s'. poll_loop S k c d evs s1 = (Done x, s')" for s1 by (rule Cons.IH)
    then show ?thesis using TickerC by (auto split: sum.split prod.split)
  qed auto
qed simp

lemma cl_Check_not_queued:
  assumes "\<not> cl_queueingEnabled l"
  shows "\<exists>x s'. cl_Check S l req s = (Done x, s')"
  using assms by (auto simp: cl_Check_def Let_def split: sum.split prod.split)

text \<open>
  C13: Tier 2 always answers: with a positive poll interval, whatever the store does, the loop ends at
  the latest with the deadline or the cancellation of the request's context, never in a panic.
\<close>

theorem queue_returns:
  assumes "\<exists>ev \<in> set (shd (selects s)). ev \<noteq> TickerC" "0 < millis (cl_pollIntervalMs l)"
  shows "\<exists>d e s'. cl_Check (core_slot_store H st) l req s = (Done (d, e), s')"
proof -
  let ?S = "core_slot_store H st"
  have sel: "selects s' = selects s1" if "incr_concurrent ?S k c d s1 = (x, s')" for k c d x and s1 s'
    using that IncrConcurrent_history by (fastforce simp: core_slot_store_def)
  have queue: "\<exists>x e s'. with_deferred f (pollUntilAllowedOrDeadline ?S req c d w (cl_pollIntervalMs l) s1) = (Done (x, e), s')"
    if same: "selects s1 = selects s" for f c d w s1
  proof -
    obtain x s2 where "poll_loop ?S (Key req) c d (shd (selects s1)) (s1\<lparr>selects := stl (selects s1)\<rparr>) = (Done x, s2)"
      using poll_loop_returns[of "shd (selects s1)" ?S "Key req" c d "s1\<lparr>selects := stl (selects s1)\<rparr>"]
        assms(1) same by auto
    then show ?thesis
      using assms(2) by (simp add: with_deferred_def pollUntilAllowedOrDeadline_def core_slot_store_def next_events_def)
  qed
  have "\<exists>x s'. cl_Check ?S l req s = (Done x, s')"
    by (auto simp: cl_Check_def Let_def acquireBacklogSlot_def intro!: queue dest!: sel
        split: sum.split prod.split)
  then show ?thesis by auto
qed

theorem queue_returns_witness:
  "\<exists>d e s'. cl_Check (core_slot_store demo_mac demo_store) (demo_cl False True) (limiter_request (demo_req 2 False))
    (demo_core [''cc:a'' \<mapsto> ZSet (fmupd ''old'' (Fin 900) fmempty)] demo_envs [TickerC, TickerC, DeadlineC]) =
    (Done (d, e), s')"
  by (rule queue_returns) (simp_all add: demo_core_def demo_cl_def NewConcurrencyLimiter_def millis_def int64_def)

lemma millis_positive: "0 < p \<Longrightarrow> p \<le> 2 ^ 43 \<Longrightarrow> 0 < millis p"
proof -
  assume p: "0 < p" "p \<le> 2 ^ 43"
  then have "int64 (p * 1000000) = p * 1000000" by (intro int64_id) (simp add: in_int64_def)
  then show ?thesis using p(1) by (simp add: millis_def)
qed

lemma cl_no_panic:
  assumes "cl_queueingEnabled l \<longrightarrow> 0 < millis (cl_pollIntervalMs l)"
  shows "fst (cl_Check S l req s) \<noteq> Panicked m"
proof -
  have loop: "fst (poll_loop S k c d evs s1) \<noteq> Panicked m" for k c d evs s1
  proof (induction evs arbitrary: s1)
    case (Cons ev evs)
    then show ?case by (cases ev) (auto split: sum.split prod.split)
  qed simp
  show ?thesis
    using assms loop
    by (auto simp: cl_Check_def Let_def with_deferred_def pollUntilAllowedOrDeadline_def
        split: sum.split prod.split outcome.split) (metis fst_conv)+
qed

section \<open>Requests that take no slots\<close>

text \<open>
  C33: A request that skips reservations asks the store for one thing only, the tokens of its key, and
  the process holds the same slots before and after.
\<close>

theorem skip_takes_no_slots:
  assumes "crq_SkipReservations req" "0 < crq_Cost req"
    and "CheckRateLimit (pipeline_Check (core_tiers H st tb cl fs)) req s = (r, s')"
  shows "held_slots s' = held_slots s \<and>
    (\<exists>x. history s' = history s @ [CallCheck (crq_Key req) (tb_rate tb) (tb_burst tb) (crq_Cost req) x])"
proof -
  let ?q = "limiter_request req"
  have q: "SkipReservations ?q" "Key ?q = crq_Key req" "Cost ?q = crq_Cost req"
    using assms(1) by (simp_all add: limiter_request_def)
  obtain d1 s1 where t: "tb_Check (core_rate_store st) tb ?q s = (Done (d1, None), s1)" "Reservations d1 = []"
    using tb_Check_returns[of "core_rate_store st" tb ?q s] by blast
  have "s' = s1"
    using assms(2,3) t q
    by (auto simp: CheckRateLimit_pipeline pipeline_Check_def core_tiers_def cl_Check_def fs_Check_def Let_def
        split: if_splits)
  moreover have "held_slots s1 = held_slots s" using rates.tb_accounted[OF t(1)] t(2) by (simp add: slots_of_def)
  moreover obtain x s2 where c: "CheckAndDecrement st (Key ?q) (tb_rate tb) (tb_burst tb) (Cost ?q) s = (x, s2)"
    by fastforce
  then have "history s1 = history s2"
    using t(1) by (auto simp: tb_Check_def core_rate_store_def Let_def split: sum.splits if_splits)
  ultimately show ?thesis using CheckAndDecrement_history[OF c] q by auto
qed

theorem skip_takes_no_slots_witness:
  "\<exists>x. history (snd (CheckRateLimit (pipeline_Check (core_tiers demo_mac demo_store (demo_tb False) (demo_cl False True)
      (demo_fs False))) (demo_req 2 True) (demo_core Map.empty demo_envs []))) = [CallCheck ''a'' 5 5 2 x]"
proof -
  obtain r s' where r: "CheckRateLimit (pipeline_Check (core_tiers demo_mac demo_store (demo_tb False)
      (demo_cl False True) (demo_fs False))) (demo_req 2 True) (demo_core Map.empty demo_envs []) = (r, s')"
    by fastforce
  show ?thesis
    using skip_takes_no_slots[OF _ _ r] r by (simp add: demo_req_def demo_core_def demo_tb_def NewTokenBucketLimiter_def)
qed

section \<open>Shadow mode\<close>

lemma cl_shadow:
  assumes "cl_shadowMode l" "cl_Check S l req s = (a, s')"
  shows "\<exists>d e. a = Done (d, e) \<and> (e = None \<longrightarrow> Action d \<in> {ALLOW, SHADOW_LOG})"
  using assms
  by (auto simp: cl_Check_def Let_def concurrency_grant_def decision0_def split: if_splits sum.splits prod.splits)

lemma fs_shadow:
  assumes "fs_shadowMode l" "fs_Check S l req s = (a, s')"
  shows "\<exists>d e. a = Done (d, e) \<and> (e = None \<longrightarrow> Action d \<in> {ALLOW, SHADOW_LOG})"
  using assms by (auto simp: fs_Check_def fleet_grant_def decision0_def split: if_splits sum.splits prod.splits)

lemma tb_shadow:
  assumes "tb_shadowMode l" "tb_Check T l req s = (a, s')"
  shows "\<exists>d. a = Done (d, None) \<and> Action d \<in> {ALLOW, SHADOW_LOG}"
  using assms by (auto simp: tb_Check_def Let_def decision0_def split: if_splits sum.splits prod.splits)

lemma pipeline_loop_never_rejects:
  assumes "\<And>t s a s'. t \<in> set ts \<Longrightarrow> t req s = (a, s') \<Longrightarrow>
      \<exists>d e. a = Done (d, e) \<and> (e = None \<longrightarrow> Action d \<in> {ALLOW, SHADOW_LOG})"
    and "f \<in> {ALLOW, SHADOW_LOG}"
  shows "\<exists>d e s'. pipeline_loop ts rs l f req s = (Done (d, e), s') \<and> (e = None \<longrightarrow> Action d \<in> {ALLOW, SHADOW_LOG})"
  using assms
proof (induction ts arbitrary: rs l f s)
  case Nil
  then show ?case by simp
next
  case (Cons t ts)
  obtain a s1 where t: "t req s = (a, s1)" by fastforce
  then obtain d e where a: "a = Done (d, e)" "e = None \<longrightarrow> Action d \<in> {ALLOW, SHADOW_LOG}"
    using Cons.prems(1)[of t s a s1] by auto
  have rest: "\<exists>d e s'. pipeline_loop ts rs' l' f req s1 = (Done (d, e), s') \<and>
      (e = None \<longrightarrow> Action d \<in> {ALLOW, SHADOW_LOG})" for rs' l'
  proof (rule Cons.IH)
    show "\<exists>d e. a = Done (d, e) \<and> (e = None \<longrightarrow> Action d \<in> {ALLOW, SHADOW_LOG})"
      if "t' \<in> set ts" "t' req s2 = (a, s3)" for t' s2 a s3
      using Cons.prems(1)[of t' s2 a s3] that by simp
  qed (rule Cons.prems(2))
  show ?case
  proof (cases "e \<noteq> None \<or> (Action d \<noteq> ALLOW \<and> Action d \<noteq> QUEUE)")
    case True
    then show ?thesis using t a by (auto simp: Let_def)
  next
    case False
    then show ?thesis using t a rest by (auto simp: Let_def)
  qed
qed

text \<open>
  C32: With all three tiers in shadow mode a check never rejects, never queues and never blocks: it
  answers at once, and if it does not fail the action is to allow or to log.
\<close>

theorem shadow_never_rejects:
  assumes "tb_shadowMode tb" "cl_shadowMode cl" "fs_shadowMode fs" "0 < crq_Cost req"
  shows "\<exists>r s'. CheckRateLimit (pipeline_Check (core_tiers H st tb cl fs)) req s = (Done r, s') \<and>
    (case r of Inl e \<Rightarrow> e = internalError | Inr resp \<Rightarrow> crs_Action resp \<in> {P_ALLOW, P_SHADOW_LOG})"
proof -
  have "\<exists>d e s'. pipeline_Check (core_tiers H st tb cl fs) (limiter_request req) s = (Done (d, e), s') \<and>
      (e = None \<longrightarrow> Action d \<in> {ALLOW, SHADOW_LOG})"
    unfolding pipeline_Check_def
  proof (rule pipeline_loop_never_rejects)
    show "\<exists>d e. a = Done (d, e) \<and> (e = None \<longrightarrow> Action d \<in> {ALLOW, SHADOW_LOG})"
      if "t \<in> set (core_tiers H st tb cl fs)" "t (limiter_request req) s1 = (a, s2)" for t s1 a s2
    proof -
      consider "t = tb_Check (core_rate_store st) tb" | "t = cl_Check (core_slot_store H st) cl"
        | "t = fs_Check (core_slot_store H st) fs"
        using \<open>t \<in> _\<close> by (auto simp: core_tiers_def)
      then show ?thesis
      proof cases
        case 1
        from tb_shadow[OF assms(1) that(2)[unfolded 1]] show ?thesis by blast
      next
        case 2
        from cl_shadow[OF assms(2) that(2)[unfolded 2]] show ?thesis by blast
      next
        case 3
        from fs_shadow[OF assms(3) that(2)[unfolded 3]] show ?thesis by blast
      qed
    qed
  qed simp
  then obtain d e s' where p: "pipeline_Check (core_tiers H st tb cl fs) (limiter_request req) s = (Done (d, e), s')"
    "e = None \<longrightarrow> Action d \<in> {ALLOW, SHADOW_LOG}" by blast
  then show ?thesis using assms(4) by (cases e) (auto simp: CheckRateLimit_pipeline)
qed

theorem shadow_never_rejects_witness:
  "\<exists>r s'. CheckRateLimit (pipeline_Check (core_tiers demo_mac demo_store (demo_tb True) (demo_cl True True)
      (demo_fs True))) (demo_req 9 False) (demo_core Map.empty demo_envs []) = (Done r, s') \<and>
    (case r of Inl e \<Rightarrow> e = internalError | Inr resp \<Rightarrow> crs_Action resp \<in> {P_ALLOW, P_SHADOW_LOG})"
  by (rule shadow_never_rejects)
    (simp_all add: demo_tb_def demo_cl_def demo_fs_def NewTokenBucketLimiter_def NewConcurrencyLimiter_def
      NewFleetShedder_def demo_req_def)

text \<open>
  A Tier 1 in shadow mode switches the other two tiers off for every request it would refuse:
  the pipeline stops at its answer, so neither the concurrency cap nor the fleet cap is consulted,
  however they are configured, and no slot is taken for a request that goes on to the application.
\<close>

theorem shadow_bypasses_later_tiers:
  assumes "tb_shadowMode tb" "0 < crq_Cost req"
    and "CheckAndDecrement st (crq_Key req) (tb_rate tb) (tb_burst tb) (crq_Cost req) s = (Inr (False, rt, rm), s1)"
  shows "CheckRateLimit (pipeline_Check (core_tiers H st tb cl fs)) req s =
      (Done (Inr \<lparr>crs_Action = P_SHADOW_LOG, crs_RetryAfterMs = rt, crs_Reservations = [], crs_Tier = ''rate_limiter'',
         crs_Limit = tb_burst tb, crs_Remaining = rm\<rparr>), s1) \<and> held_slots s1 = held_slots s"
proof -
  have "tb_Check (core_rate_store st) tb (limiter_request req) s =
      (Done (decision0\<lparr>Action := SHADOW_LOG, RetryAfterMs := rt, Tier := ''rate_limiter'', Limit := tb_burst tb,
         Remaining := rm\<rparr>, None), s1)"
    using assms by (simp add: tb_Check_def core_rate_store_def limiter_request_def Let_def)
  moreover have "held_slots s1 = held_slots s"
    using CheckAndDecrement_history[OF assms(3)] by (auto simp: held_slots_log)
  ultimately show ?thesis
    using assms(2) by (simp add: CheckRateLimit_pipeline pipeline_Check_def core_tiers_def decision0_def Let_def)
qed

theorem shadow_bypasses_later_tiers_witness:
  "\<exists>s'. CheckRateLimit (pipeline_Check (core_tiers demo_mac demo_store (demo_tb True) (demo_cl False False)
      (demo_fs False))) (demo_req 10 False) (demo_core Map.empty demo_envs []) =
    (Done (Inr \<lparr>crs_Action = P_SHADOW_LOG, crs_RetryAfterMs = 1000, crs_Reservations = [], crs_Tier = ''rate_limiter'',
       crs_Limit = 5, crs_Remaining = 5\<rparr>), s')"
proof -
  let ?c = "CheckAndDecrement demo_store ''a'' 5 5 10 (demo_core Map.empty demo_envs [])"
  have "fst ?c = Inr (False, 1000, 5)" by (simp add: demo_eval)
  then have "?c = (Inr (False, 1000, 5), snd ?c)" by (metis prod.collapse)
  with shadow_bypasses_later_tiers[of "demo_tb True" "demo_req 10 False" demo_store "demo_core Map.empty demo_envs []"
      1000 5 "snd ?c" demo_mac "demo_cl False False" "demo_fs False"]
  show ?thesis by (auto simp: demo_tb_def demo_req_def NewTokenBucketLimiter_def)
qed

end
