(* ===== verification/CapProps.thy ===== *)
theory CapProps
  imports TierProps
begin

text \<open>
  The caps: no interleaving of clients exceeds them, a check of a core process keeps them, the share
  of critical requests is out of reach of the others; and the three inputs that defeat the limits,
  a duration of zero, a clock that runs backwards and a negative refund.
\<close>

section \<open>The caps on slots\<close>

text \<open>
  C2: Whatever any number of clients do to one Redis, in any order, with scripts, releases and the
  expiry of keys interleaved, no key ever has more slots taken than the largest cap any client asks
  for on it, leaked slots included.
\<close>

theorem caps_hold_in_every_interleaving:
  assumes "redis_laws R look" "\<forall>k. 0 \<le> limit k" "(redis_step R look limit)\<^sup>*\<^sup>* d d'" "slots_within look limit d"
  shows "slots_within look limit d'"
  using assms(3,4)
proof (induction rule: rtranclp_induct)
  case (step d1 d2)
  then show ?case using redis_laws.redis_step_within[OF assms(1) step(2)] assms(2) by blast
qed

theorem caps_hold_in_every_interleaving_witness:
  "slots_within (\<lambda>db. db) (\<lambda>k. 1) (snd (concurrent_limiter_lua mem_redis (concurrencyKeyPrefix @ ''a'') 1 1000 1000 ''t2''
     (snd (concurrent_limiter_lua mem_redis (concurrencyKeyPrefix @ ''a'') 1 1000 1000 ''t1'' Map.empty))))"
proof -
  let ?s = "redis_step mem_redis (\<lambda>db. db) (\<lambda>k. 1)"
  let ?f = "\<lambda>t d. snd (concurrent_limiter_lua mem_redis (concurrencyKeyPrefix @ ''a'') 1 1000 1000 t d)"
  have s: "?s d (?f t d)" for t d
    by (rule redis_step.incr[where k = "''a''", OF prod.collapse[symmetric]]) simp
  define d1 where "d1 = ?f ''t1'' Map.empty"
  define d2 where "d2 = ?f ''t2'' d1"
  have "?s Map.empty d1" "?s d1 d2" using s by (simp_all only: d1_def d2_def)
  then have run: "?s\<^sup>*\<^sup>* Map.empty d2" by (blast intro: rtranclp.intros)
  have "slots_within (\<lambda>db. db) (\<lambda>k. 1) d2"
    by (rule caps_hold_in_every_interleaving[OF mem.redis_laws_axioms _ run])
      (simp_all add: slots_within_def slot_count_def)
  then show ?thesis by (simp only: d1_def d2_def)
qed

lemma core_tiers_within:
  assumes laws: "redis_laws (client st) look" and lim: "\<forall>k. 0 \<le> limit k" and s: "core_within look limit s"
    and cl: "slot_guard.cl_permitted (\<lambda>k c. c \<le> limit k) cl req"
    and fs: "slot_guard.fs_permitted (\<lambda>k c. c \<le> limit k) fs req"
    and p: "pipeline_Check (core_tiers H st tb cl fs) req s = (a, s')"
  shows "core_within look limit s'"
proof (rule pipeline_loop_guarded[where P = "core_within look limit", OF _ s p[unfolded pipeline_Check_def]])
  note g = redis_laws.core_slot_guard[OF laws refl lim, of H]
  show "core_within look limit s2"
    if t: "t \<in> set (core_tiers H st tb cl fs)" and i: "core_within look limit s1" and c: "t req s1 = (a, s2)" for t s1 a s2
  proof -
    consider "t = tb_Check (core_rate_store st) tb" | "t = cl_Check (core_slot_store H st) cl"
      | "t = fs_Check (core_slot_store H st) fs"
      using t by (auto simp: core_tiers_def)
    then show ?thesis
    proof cases
      case 1
      show ?thesis by (rule redis_laws.tb_within[OF laws refl lim i c[unfolded 1]])
    next
      case 2
      show ?thesis by (rule slot_guard.cl_guarded[OF g i cl c[unfolded 2]])
    next
      case 3
      show ?thesis by (rule slot_guard.fs_guarded[OF g i fs c[unfolded 3]])
    qed
  qed
qed

text \<open>
  C9: A check of a core process keeps every count of the shared Redis within its limit, if its
  configuration asks for no more: the cap on the key, the backlog on its backlog key when it queues,
  the effective fleet cap on the fleet key, and the unbounded cap where a tier is in shadow mode.
\<close>

theorem check_keeps_caps:
  assumes "redis_laws (client st) look" "\<forall>k. 0 \<le> limit k" "core_within look limit s"
    and "cl_cap cl \<le> limit (crq_Key req)" "cl_shadowMode cl \<longrightarrow> unboundedCap \<le> limit (crq_Key req)"
    and "cl_queueingEnabled cl \<longrightarrow> cl_maxBacklog cl \<le> limit (backlogKeyPrefix @ crq_Key req)"
    and "effectiveCap fs (request_priority (crq_Priority req)) \<le> limit fleetKey"
    and "fs_shadowMode fs \<longrightarrow> unboundedCap \<le> limit fleetKey"
    and "CheckRateLimit (pipeline_Check (core_tiers H st tb cl fs)) req s = (r, s')"
  shows "slots_within look limit (db s')"
proof (cases "0 < crq_Cost req")
  case False
  then show ?thesis using assms(3,9) by (simp add: CheckRateLimit_def core_within_def)
next
  case True
  have g: "slot_guard (core_slot_store H st) (core_within look limit) (\<lambda>k c. c \<le> limit k)"
    by (rule redis_laws.core_slot_guard[OF assms(1) refl assms(2)])
  have cl: "slot_guard.cl_permitted (\<lambda>k c. c \<le> limit k) cl (limiter_request req)"
    and fs: "slot_guard.fs_permitted (\<lambda>k c. c \<le> limit k) fs (limiter_request req)"
    using assms(4-8)
    by (simp_all add: slot_guard.cl_permitted_def[OF g] slot_guard.fs_permitted_def[OF g] limiter_request_def)
  obtain a s1 where p: "pipeline_Check (core_tiers H st tb cl fs) (limiter_request req) s = (a, s1)" by fastforce
  have "s' = s1"
    using assms(9) p True by (auto simp: CheckRateLimit_pipeline split: outcome.splits option.splits prod.splits)
  then show ?thesis using core_tiers_within[OF assms(1-3) cl fs p] by (simp add: core_within_def)
qed

theorem check_keeps_caps_witness:
  "slots_within (\<lambda>db. db) (\<lambda>k. if k = fleetKey then 8 else 1) (db (snd (CheckRateLimit (pipeline_Check (core_tiers demo_mac
    demo_store (demo_tb False) (demo_cl False True) (demo_fs False))) (demo_req 2 False) (demo_core Map.empty demo_envs []))))"
  by (rule check_keeps_caps[OF _ _ _ _ _ _ _ _ prod.collapse[symmetric], of demo_store])
    (use mem.redis_laws_axioms in \<open>simp_all add: demo_defs core_within_def slots_within_def slot_count_def
      fleetKey_def effectiveCap_def request_priority_def signed_divide_int_def sgn_if int64_def backlogKeyPrefix_def\<close>)

section \<open>The share of critical requests\<close>

context redis_laws
begin

lemma concurrent_limiter_granted:
  assumes "concurrent_limiter_lua R k cap dur now t d = (Inr [RInt 1, RStr t'], d')"
  shows "count_at (look d' k) \<le> cap"
proof -
  obtain d1 n d2 where z: "zremrangebyscore R k (dsub (of_int_dbl now) (of_int_dbl dur)) d = Inr d1"
    "zcard R k d1 = Inr n" "dlt (of_int_dbl n) (of_int_dbl cap)" "zadd R k (of_int_dbl now) t d1 = Inr d2"
    "\<exists>y. expire R k y d2 = Inr d'"
    using assms by (auto simp: concurrent_limiter_lua_def Let_def split: sum.splits if_splits)
  then have "count_at (look d' k) \<le> count_at (look d1 k) + 1" "count_at (look d1 k) < cap"
    using expire_count zadd_count[OF z(4)] zcard_count[OF z(2)] dlt_of_int_dbl[OF z(3)] by fastforce+
  then show ?thesis by linarith
qed

lemma IncrConcurrent_granted:
  assumes "client st = R" "IncrConcurrent H st k cap dur s = (Inr (True, t), s')"
  shows "slot_count look (db s') k \<le> cap"
proof -
  obtain r d' where r: "concurrent_limiter_lua R (concurrencyKeyPrefix @ k) cap dur (unix_milli (shd (envs s)))
      (signToken H (uuid_string (shd (envs s))) (signingKey st)) (others (shd (envs s)) (db s)) = (Inr r, d')"
    "decode_incr r = Inr (True, t)" "db s' = d'"
    using assms by (auto simp: IncrConcurrent_def redis_call_def Let_def dest!: over_link_reply
        split: sum.splits prod.splits)
  then have "r = [RInt 1, RStr (signToken H (uuid_string (shd (envs s))) (signingKey st))]"
    using concurrent_limiter_lua_reply[OF r(1)] by (auto simp: decode_incr_def)
  then show ?thesis using concurrent_limiter_granted r by (simp add: slot_count_at)
qed

end

text \<open>
  C14: Where Tier 3 enforces, a sheddable request takes a slot only while the fleet, with this request
  counted, stays within the unreserved share of the cap, rounded down: the last \<open>reserved_critical_pct\<close>
  percent can be taken by critical requests only.  The one exception is shadow mode: there a request
  beyond the share is logged and takes a slot all the same, whatever the count.
\<close>

theorem critical_share_reserved:
  assumes "redis_laws (client st) look" "fleet_ok fs" "fs_cap fs < 2 ^ 56"
    and "Priority req \<noteq> Critical" "\<not> SkipReservations req"
    and "fs_Check (core_slot_store H st) fs req s = (Done (d, None), s')"
  shows "case Action d of
      ALLOW \<Rightarrow> slot_count look (db s') fleetKey \<le> fs_cap fs * (100 - fs_reservedCriticalPct fs) div 100
    | SHADOW_LOG \<Rightarrow> fs_shadowMode fs
    | _ \<Rightarrow> slots_of d = {#}"
proof -
  have "slot_count look (db s') fleetKey \<le> fs_cap fs * (100 - fs_reservedCriticalPct fs) div 100" if allow: "Action d = ALLOW"
  proof -
    obtain t where "IncrConcurrent H st fleetKey (effectiveCap fs (Priority req)) (fs_maxDurationMs fs) s = (Inr (True, t), s')"
      using assms(5,6) allow by (auto simp: fs_Check_def core_slot_store_def fleet_grant_def decision0_def
          split: sum.splits prod.splits if_splits)
    then have "slot_count look (db s') fleetKey \<le> effectiveCap fs (Priority req)"
      by (rule redis_laws.IncrConcurrent_granted[OF assms(1) refl])
    then show ?thesis using effectiveCap_div[OF assms(2,3,4)] by simp
  qed
  then show ?thesis
    using assms(5,6) by (auto simp: fs_Check_def fleet_grant_def decision0_def slots_of_def
        split: sum.splits prod.splits if_splits Action.splits)
qed

theorem critical_share_reserved_witness:
  "slot_count (\<lambda>db. db) (db (snd (fs_Check (core_slot_store demo_mac demo_store) (demo_fs False)
    (limiter_request (demo_req 2 False)) (demo_core Map.empty demo_envs [])))) fleetKey \<le> 8"
proof -
  let ?r = "fs_Check (core_slot_store demo_mac demo_store) (demo_fs False)
    (limiter_request (demo_req 2 False)) (demo_core Map.empty demo_envs [])"
  have "fst ?r = Done (fleet_grant ALLOW ''u1.61'', None)" by (simp add: demo_eval)
  then have "?r = (Done (fleet_grant ALLOW ''u1.61'', None), snd ?r)" by (metis prod.collapse)
  from critical_share_reserved[OF _ _ _ _ _ this] mem.redis_laws_axioms show ?thesis
    by (simp add: demo_store_def fleet_ok_def demo_fs_def NewFleetShedder_def demo_req_def limiter_request_def
        request_priority_def fleet_grant_def decision0_def)
qed

section \<open>Inputs that defeat the limits\<close>

text \<open>
  With a maximal request duration of zero milliseconds, which validation accepts, the cap on
  concurrent slots does not exist: every call first reaps all the slots taken up to now, so the
  script grants whatever the count was, as long as the cap is positive.
\<close>

theorem zero_duration_never_refuses:
  assumes "redis_laws R look" "zset_of (look d k) = Some z" "small now" "0 < cap" "cap \<le> 2 ^ 53"
    and "\<forall>m x. fmlookup z m = Some x \<longrightarrow> (\<exists>n. x = Fin (of_int n) \<and> n \<le> now)"
  shows "fst (concurrent_limiter_lua R k cap 0 now t d) = Inr [RInt 1, RStr t]"
proof -
  have "zreap (Fin (of_int (now - 0))) z = fmempty"
    using assms(6) by (intro fmap_ext) (fastforce simp: fmlookup_zreap split: option.splits)
  then have "slots_incr cap 0 now t z = (True, fmupd t (Fin (of_int now)) fmempty)"
    using assms(4) by (simp add: slots_incr_def Let_def)
  from redis_laws.concurrent_limiter_lua_refines[OF assms(1,2) _ assms(3) _ this] show ?thesis
    using assms(4,5) by (auto simp: small_def)
qed

theorem zero_duration_never_refuses_witness:
  "fst (concurrent_limiter_lua mem_redis ''cc:a'' 1 0 1000 ''t9''
    [''cc:a'' \<mapsto> ZSet (fmupd ''t1'' (Fin 999) (fmupd ''t2'' (Fin 1000) fmempty))]) = Inr [RInt 1, RStr ''t9'']"
  using zero_duration_never_refuses[OF mem.redis_laws_axioms,
      of "[''cc:a'' \<mapsto> ZSet (fmupd ''t1'' (Fin 999) (fmupd ''t2'' (Fin 1000) fmempty))]" "''cc:a''" _ 1000 1 "''t9''"]
  by (simp add: small_def)

lemma skew_round:
  "bucket_run 5 5 [Check 1000 1, Check 2000 5] (Some (0, 2000)) = (5, Some (0, 2000))"
  by (simp add: bucket_check_def bucket_level_def bucket_now_def level_def refill_def elapsed_def)

lemma skew_rounds:
  "bucket_run 5 5 (concat (replicate n [Check 1000 1, Check 2000 5])) (Some (0, 2000)) = (5 * int n, Some (0, 2000))"
proof (induction n)
  case (Suc n)
  have app: "bucket_run r b (xs @ ys) s = (let (i, s1) = bucket_run r b xs s; (j, s2) = bucket_run r b ys s1 in (i + j, s2))"
    for r b xs ys s by (induction xs arbitrary: s) (auto split: prod.splits)
  show ?case by (simp only: replicate_Suc concat.simps app skew_round Suc.IH Let_def prod.case) simp
qed simp

fun skewed :: "nat \<Rightarrow> 'db script_op list" where
  "skewed 0 = [SCheck 2000 5]"
| "skewed (Suc n) = skewed n @ [SCheck 1000 1, SCheck 2000 5]"

lemma bucket_ops_append: "bucket_ops (xs @ ys) = bucket_ops xs @ bucket_ops ys"
  by (induction xs rule: bucket_ops.induct) auto

lemma skewed_ops: "bucket_ops (skewed n) = Check 2000 5 # concat (replicate n [Check 1000 1, Check 2000 5])"
proof (induction n)
  case (Suc n)
  have "concat (replicate n xs) @ xs = xs @ concat (replicate n xs)" for xs :: "bucket_op list"
    by (induction n) auto
  then show ?case by (simp add: Suc.IH bucket_ops_append)
qed simp

text \<open>
  Two core processes whose clocks differ by one second mint tokens out of nothing: the script
  writes the slower clock's reading into the bucket, and the next call of the faster one refills the
  same second again.  With a rate and a burst of five, \<open>n + 1\<close> bursts are admitted between the
  readings 1000 and 2000, for every \<open>n\<close>, where the bound of the first property is about two.
\<close>

theorem clock_skew_mints_tokens:
  fixes R :: "'db redis"
  assumes "redis_laws R look" "look d k = None"
  shows "fst (script_run R k 5 5 (skewed n) d) = 5 * (int n + 1) \<and>
    set (times (bucket_ops (skewed n :: 'db script_op list))) \<subseteq> {1000..2000}"
proof -
  let ?sk = "skewed n :: 'db script_op list"
  have "bucket_step 5 5 (Check 2000 5) None = (5, Some (0, 2000))"
    by (simp add: bucket_check_def bucket_level_def bucket_now_def level_def refill_def elapsed_def)
  then have run: "fst (bucket_run 5 5 (bucket_ops ?sk) None) = 5 * (int n + 1)"
    by (simp add: skewed_ops skew_rounds)
  have "set (times (concat (replicate n [Check 1000 1, Check 2000 5]))) \<subseteq> {1000..2000}"
    "list_all op_ok (concat (replicate n [Check 1000 1, Check 2000 5]))"
    by (induction n) (auto simp: small_def)
  then have ok: "list_all op_ok (bucket_ops ?sk)" and t: "set (times (bucket_ops ?sk)) \<subseteq> {1000..2000}"
    by (simp_all add: skewed_ops small_def)
  have e: "others_elsewhere look k ?sk"
  proof (induction n)
    case (Suc n)
    then show ?case by (auto simp: others_elsewhere_def)
  qed (simp add: others_elsewhere_def)
  have "\<exists>d'. script_run R k 5 5 ?sk d = (fst (bucket_run 5 5 (bucket_ops ?sk) None), d')"
    using redis_laws.script_run_refines[OF assms(1) _ _ _ _ _ ok e, of d None 5 5] assms(2)
    by (auto simp: bucket_view_def bucket_wf_def small_def)
  then show ?thesis using run t by auto
qed

theorem clock_skew_mints_tokens_witness:
  "fst (script_run mem_redis ''rl:a'' 5 5 (skewed 100) Map.empty) = 505"
  using clock_skew_mints_tokens[OF mem.redis_laws_axioms, of Map.empty "''rl:a''" 100] by simp

text \<open>
  A refund of a negative amount, which the refund RPC passes on, drains a bucket below zero: the
  level the script stores is the old one less the amount, and nothing keeps it from being negative.
\<close>

theorem negative_refund_drains:
  assumes "redis_laws R look" "bucket_view (look d k) (Some (t, u))" "bucket_wf b (Some (t, u))" "small b"
    and "t < of_int m" "m \<le> 2 ^ 53"
  shows "\<exists>x d' t'. refund_tokens_lua R k b (- m) d = (Inr x, d') \<and> bucket_view (look d' k) (Some (t', u)) \<and> t' < 0"
proof -
  have t0: "0 \<le> t" using assms(3) by (simp add: bucket_wf_def)
  then have m: "\<bar>- m\<bar> \<le> 2 ^ 53" using assms(5,6) by (metis abs_minus_cancel abs_of_pos le_less_trans of_int_0_less_iff)
  have "fl (t + of_int (- m)) = - fl (of_int m - t)" using fl_minus[of "of_int m - t"] by simp
  then have "fl (t + of_int (- m)) < 0" using fl_pos_if[of "of_int m - t"] assms(5) by simp
  then have n: "min (of_int b) (fl (t + of_int (- m))) < 0" by (simp add: min_less_iff_disj)
  obtain x d' where "refund_tokens_lua R k b (- m) d = (Inr x, d')"
    "bucket_view (look d' k) (bucket_refund b (- m) (Some (t, u)))"
    using redis_laws.refund_tokens_lua_refines[OF assms(1-4) m] by blast
  then show ?thesis using n by (auto simp: bucket_refund_def)
qed

theorem negative_refund_drains_witness:
  "\<exists>x d' t'. refund_tokens_lua mem_redis ''rl:a'' 5 (- 7)
      [''rl:a'' \<mapsto> Hash [''tokens'' \<mapsto> Fin 2, ''updated_at'' \<mapsto> Fin 1000]] = (Inr x, d') \<and>
    bucket_view (d' ''rl:a'') (Some (t', 1000)) \<and> t' < 0"
  by (rule negative_refund_drains[OF mem.redis_laws_axioms, of _ _ 2])
    (simp_all add: bucket_view_def bucket_wf_def small_def of_int_dbl_small)

end
