(* ===== verification/ConfigProps.thy ===== *)
theory ConfigProps
  imports CapProps
begin

text \<open>
  Configuration, start-up, reloads and access to a core process.
\<close>

section \<open>Access\<close>

text \<open>
  C34: The release RPC reaches the store exactly for tokens that are a UUID without a dot followed by
  its signature under this process's key, and touches nothing for any other.
\<close>

theorem release_needs_signature:
  "ReleaseConcurrency H key S k t s =
    (if \<exists>u. CHR ''.'' \<notin> set u \<and> t = signToken H u key
     then (case decr_concurrent S k t s of (None, s') \<Rightarrow> (Inr (), s') | (Some e, s') \<Rightarrow> (Inl internalError, s'))
     else (Inl (PermissionDenied, ''invalid concurrency token''), s))"
  by (auto simp: ReleaseConcurrency_def verifyToken_iff split: prod.splits option.splits)

text \<open>
  C38: Every RPC is gated by the shared secret: the handler, and with it the metrics, runs exactly if
  the metadata carries the secret once; otherwise the call is unauthenticated and nothing changes,
  no counter either.
\<close>

theorem secret_gates_every_rpc:
  "\<exists>msg. chained secret md fullMethod p handler s =
    (if \<exists>m. md = Some m \<and> m MetadataKey = [secret] then metrics_interceptor fullMethod p handler s
     else (Done (Inl (Unauthenticated, msg)), s))"
proof (cases md)
  case (Some m)
  show ?thesis
  proof (cases "m MetadataKey")
    case (Cons x xs)
    then show ?thesis using Some by (cases xs) (auto simp: chained_def auth_interceptor_def)
  qed (use Some in \<open>auto simp: chained_def auth_interceptor_def\<close>)
qed (auto simp: chained_def auth_interceptor_def)

section \<open>Configuration\<close>

text \<open>
  Validation accepts exactly the configurations with a positive rate, a burst of at least zero,
  positive caps, a reserved share between 0 and 100 percent and, when queueing is on, a positive
  backlog and a positive poll interval that is at most the queue wait.  It says nothing of the two
  request durations.
\<close>

theorem Validate_accepts_iff:
  "Validate c = None \<longleftrightarrow>
    0 < rl_DefaultRate (cfg_RateLimiter c) \<and> 0 \<le> rl_DefaultBurst (cfg_RateLimiter c) \<and>
    0 < cc_DefaultMaxConcurrent (cfg_ConcurrencyLimiter c) \<and> 0 < fc_DefaultMaxConcurrent (cfg_FleetShedder c) \<and>
    fc_ReservedCriticalPct (cfg_FleetShedder c) \<in> {0..100} \<and>
    (if cc_QueueingEnabled (cfg_ConcurrencyLimiter c)
     then 0 < cc_MaxBacklog (cfg_ConcurrencyLimiter c) \<and> 0 < cc_PollIntervalMs (cfg_ConcurrencyLimiter c) \<and>
       cc_PollIntervalMs (cfg_ConcurrencyLimiter c) \<le> cc_MaxQueueWaitMs (cfg_ConcurrencyLimiter c)
     else True)"
  by (auto simp: Validate_def Let_def)

text \<open>
  A reload is all or nothing: a file that cannot be loaded or fails validation leaves all three
  limiters as they were, a valid one makes them what a fresh process would build from it, and the
  reload counter records which.
\<close>

theorem reload_all_or_nothing:
  "fst (on_reload sha256 loaded (ls, m)) =
    (case loaded of Inl _ \<Rightarrow> ls | Inr c \<Rightarrow> if Validate c = None then new_limiters c else ls) \<and>
   config_reload (snd (on_reload sha256 loaded (ls, m))) =
    inc (config_reload m)
      (case loaded of Inl _ \<Rightarrow> ''failure'' | Inr c \<Rightarrow> if Validate c = None then ''success'' else ''failure'')"
  by (simp add: on_reload_cases)
    (auto simp: on_reload_def Let_def RecordConfigReload_def RecordConfigVersion_def split: sum.splits)

definition demo_process :: "(string \<Rightarrow> string) \<Rightarrow> (string \<rightharpoonup> rvalue) process" where
  "demo_process sha256 = \<lparr>p_limiters = new_limiters demo_cfg, p_core = (demo_core Map.empty demo_envs [])
     \<lparr>metrics := RecordConfigVersion (Config_Hash sha256 demo_cfg) core_metrics0\<rparr>\<rparr>"

lemma demo_reachable: "process_reachable H sha256 st demo_cfg (demo_process sha256)"
  by (rule process_reachable.start) (simp_all add: demo_process_def)

lemma demo_reload:
  "process_step H sha256 st (demo_process sha256)
    ((demo_process sha256)\<lparr>p_core := (p_core (demo_process sha256))
      \<lparr>metrics := RecordConfigReload ''failure'' (metrics (p_core (demo_process sha256)))\<rparr>\<rparr>)"
  using process_step.reload[of sha256 "Inl ''gone''" "demo_process sha256" "p_limiters (demo_process sha256)"
      "RecordConfigReload ''failure'' (metrics (p_core (demo_process sha256)))" H st]
  by (simp add: on_reload_def)

text \<open>
  C35: A process that started with a valid configuration keeps sane limiters through every sequence of
  RPCs and reloads, the admin RPC included: burst not negative, caps positive, the reserved share
  between 0 and 100 percent, and a queue that can be polled.  (The rate is not among them: the
  admin RPC can set it to anything.)
\<close>

theorem limiters_stay_ok:
  assumes "process_reachable H sha256 st cfg p" "Validate cfg = None"
  shows "limiters_ok (p_limiters p)"
  using process_reachable_limiters_ok[OF assms] .

theorem limiters_stay_ok_witness:
  "limiters_ok (p_limiters ((demo_process id)\<lparr>p_core := (p_core (demo_process id))
      \<lparr>metrics := RecordConfigReload ''failure'' (metrics (p_core (demo_process id)))\<rparr>\<rparr>))"
  by (rule limiters_stay_ok[OF process_reachable.step[OF demo_reachable demo_reload[of demo_mac _ demo_store]] demo_cfg_valid])

lemma fs_Check_returns: "\<exists>d e s'. fs_Check S l req s = (Done (d, e), s')"
  by (auto simp: fs_Check_def split: sum.split prod.split)

lemma pipeline_loop_no_panic:
  "\<forall>t \<in> set ts. \<forall>s. fst (t req s) \<noteq> Panicked m \<Longrightarrow> fst (pipeline_loop ts rs l f req s) \<noteq> Panicked m"
proof (induction ts arbitrary: rs l f s)
  case (Cons t ts)
  obtain a s1 where t: "t req s = (a, s1)" by fastforce
  moreover from this have "a \<noteq> Panicked m" using Cons.prems by (metis fst_conv list.set_intros(1))
  moreover have "fst (pipeline_loop ts rs' l' f' req s1) \<noteq> Panicked m" for rs' l' f'
    using Cons by simp
  ultimately show ?case by (cases a) (auto simp: Let_def split: if_splits)
qed simp

lemma pipeline_no_panic:
  assumes "cl_queueingEnabled cl \<longrightarrow> 0 < millis (cl_pollIntervalMs cl)"
  shows "fst (pipeline_Check (core_tiers H st tb cl fs) req s) \<noteq> Panicked m"
  unfolding pipeline_Check_def
proof (rule pipeline_loop_no_panic, intro ballI allI)
  fix t s1 assume "t \<in> set (core_tiers H st tb cl fs)"
  then consider "t = tb_Check (core_rate_store st) tb" | "t = cl_Check (core_slot_store H st) cl"
    | "t = fs_Check (core_slot_store H st) fs"
    by (auto simp: core_tiers_def)
  then show "fst (t req s1) \<noteq> Panicked m"
  proof cases
    case 1
    then show ?thesis using tb_Check_returns[of "core_rate_store st" tb req s1] by auto
  next
    case 2
    then show ?thesis using cl_no_panic[OF assms] by simp
  next
    case 3
    then show ?thesis using fs_Check_returns[of "core_slot_store H st" fs req s1] by auto
  qed
qed

text \<open>
  C36: No check of such a process panics, as long as the poll interval in force is at most
  \<open>2 ^ 43\<close> milliseconds (some 279 years; far above it the conversion to nanoseconds wraps and the
  ticker panics).
\<close>

theorem check_never_panics:
  assumes "process_reachable H sha256 st cfg p" "Validate cfg = None"
    and "cl_pollIntervalMs (concurrencyLimiter (p_limiters p)) \<le> 2 ^ 43"
  shows "fst (CheckRateLimit (pipeline_Check (core_tiers H st (rateLimiter (p_limiters p))
    (concurrencyLimiter (p_limiters p)) (fleetShedder (p_limiters p)))) req s) \<noteq> Panicked m"
proof -
  have "cl_queueingEnabled (concurrencyLimiter (p_limiters p)) \<longrightarrow>
      0 < millis (cl_pollIntervalMs (concurrencyLimiter (p_limiters p)))"
    using process_reachable_limiters_ok[OF assms(1,2)] assms(3) by (auto simp: limiters_ok_def intro: millis_positive)
  note no = pipeline_no_panic[OF this, of H st "rateLimiter (p_limiters p)" "fleetShedder (p_limiters p)" "limiter_request req" s m]
  show ?thesis
  proof (cases "0 < crq_Cost req")
    case True
    show ?thesis
      using no by (auto simp: CheckRateLimit_pipeline[OF True] split: outcome.splits option.splits prod.splits)
  qed (simp add: CheckRateLimit_def)
qed

theorem check_never_panics_witness:
  "fst (CheckRateLimit (pipeline_Check (core_tiers demo_mac demo_store (rateLimiter (new_limiters demo_cfg))
    (concurrencyLimiter (new_limiters demo_cfg)) (fleetShedder (new_limiters demo_cfg)))) (demo_req 2 False)
    (demo_core Map.empty demo_envs [TickerC])) \<noteq> Panicked ''non-positive interval for NewTicker''"
  using check_never_panics[OF demo_reachable[of demo_mac id demo_store] demo_cfg_valid, of "demo_req 2 False"
      "demo_core Map.empty demo_envs [TickerC]" "''non-positive interval for NewTicker''"]
  by (simp add: demo_process_def new_limiters_def demo_cfg_def NewConcurrencyLimiter_def)

section \<open>The configuration's version\<close>

text \<open>Every call of a core process keeps the version gauge.\<close>

lemma redis_call_version:
  "redis_call op f s = (x, s') \<Longrightarrow> version_set (metrics s') = version_set (metrics s)"
  by (auto simp: redis_call_def Let_def split: prod.splits)

lemma store_calls_version:
  "CheckAndDecrement st k r b c s = (x, s') \<Longrightarrow> version_set (metrics s') = version_set (metrics s)"
  "IncrConcurrent H st k cap dur s = (y, s') \<Longrightarrow> version_set (metrics s') = version_set (metrics s)"
  "DecrConcurrent st k t s = (z, s') \<Longrightarrow> version_set (metrics s') = version_set (metrics s)"
  "RefundTokens st k b n s = (z, s') \<Longrightarrow> version_set (metrics s') = version_set (metrics s)"
  by (auto simp: CheckAndDecrement_def IncrConcurrent_def DecrConcurrent_def RefundTokens_def Let_def
      dest: redis_call_version split: prod.splits)

interpretation versions: slot_guard "core_slot_store H st" "\<lambda>s. version_set (metrics s)" "\<lambda>_ _. True" for H st
  by unfold_locales
    (auto simp: core_slot_store_def next_events_def dest: store_calls_version)

lemma tb_version:
  "tb_Check (core_rate_store st) l req s = (a, s') \<Longrightarrow> version_set (metrics s') = version_set (metrics s)"
  by (auto simp: tb_Check_def core_rate_store_def Let_def dest: store_calls_version
      split: sum.splits prod.splits if_splits)

lemma CheckRateLimit_version:
  assumes "CheckRateLimit (pipeline_Check (core_tiers H st tb cl fs)) req s = (r, s')" "version_set (metrics s)"
  shows "version_set (metrics s')"
proof (cases "0 < crq_Cost req")
  case True
  let ?P = "\<lambda>s. version_set (metrics s)"
  obtain a s1 where p: "pipeline_Check (core_tiers H st tb cl fs) (limiter_request req) s = (a, s1)" by fastforce
  have "?P s1"
  proof (rule pipeline_loop_guarded[where P = ?P, OF _ assms(2) p[unfolded pipeline_Check_def]])
    show "?P s3" if t: "t \<in> set (core_tiers H st tb cl fs)" and i: "?P s2" and c: "t (limiter_request req) s2 = (a, s3)"
      for t s2 a s3
      using t
    proof (cases rule: core_tiers_cases)
      case tier1
      then show ?thesis using tb_version[OF c[unfolded tier1]] i by simp
    next
      case tier2
      show ?thesis by (rule versions.cl_guarded[OF i _ c[unfolded tier2]]) (simp add: versions.cl_permitted_def)
    next
      case tier3
      show ?thesis by (rule versions.fs_guarded[OF i _ c[unfolded tier3]]) (simp add: versions.fs_permitted_def)
    qed
  qed
  then show ?thesis
    using assms(1) p by (auto simp: CheckRateLimit_pipeline[OF True] split: outcome.splits option.splits prod.splits)
qed (use assms in \<open>simp add: CheckRateLimit_def\<close>)

lemma Config_Hash_nonempty: "\<forall>x. sha256 x \<noteq> '''' \<Longrightarrow> Config_Hash sha256 c \<noteq> ''''"
  by (simp add: Config_Hash_def hex_encode_def)

lemma on_reload_version:
  "version_set m \<Longrightarrow> \<forall>x. sha256 x \<noteq> '''' \<Longrightarrow> version_set (snd (on_reload sha256 loaded (ls, m)))"
  by (auto simp: on_reload_def Let_def intro!: RecordConfigVersion_set(2) Config_Hash_nonempty split: sum.splits)

lemma process_step_version:
  assumes "process_step H sha256 st p p'" "version_set (metrics (p_core p))" "\<forall>x. sha256 x \<noteq> ''''"
  shows "version_set (metrics (p_core p'))"
  using assms(1)
proof cases
  case (reload loaded ls m)
  then show ?thesis using on_reload_version[OF assms(2,3), of loaded "p_limiters p"] by simp
next
  case (check req r s)
  then show ?thesis using CheckRateLimit_version[OF check(2) assms(2)] by simp
next
  case (release k t r s)
  then show ?thesis using assms(2)
    by (auto simp: ReleaseConcurrency_def core_slot_store_def dest: store_calls_version split: if_splits prod.splits option.splits)
next
  case (set_limit tier v x tb fs)
  then show ?thesis using assms(2) by simp
next
  case (refund k n x s)
  then show ?thesis using assms(2)
    by (auto simp: RefundCost_def Let_def dest: store_calls_version split: prod.splits option.splits)
qed

text \<open>
  The version gauge of a process always exports exactly one series, whose label is the hash of
  the configuration in force, through every RPC and reload.
\<close>

theorem one_version_series:
  assumes "process_reachable H sha256 st cfg p" "\<forall>x. sha256 x \<noteq> ''''"
  shows "current_config_hash (metrics (p_core p)) \<noteq> '''' \<and>
    config_version (metrics (p_core p)) = [current_config_hash (metrics (p_core p)) \<mapsto> 1]"
proof -
  have "version_set (metrics (p_core p))"
    using assms(1)
  proof (induction rule: process_reachable.induct)
    case (start p)
    then show ?case using RecordConfigVersion_set(1)[OF version_wf_start Config_Hash_nonempty[OF assms(2)]] by simp
  qed (rule process_step_version[OF _ _ assms(2)])
  then show ?thesis by (simp add: version_set_def)
qed

theorem one_version_series_witness:
  "config_version (metrics (p_core (demo_process (\<lambda>x. ''0123456789'')))) =
    [current_config_hash (metrics (p_core (demo_process (\<lambda>x. ''0123456789'')))) \<mapsto> 1]"
  using one_version_series[OF demo_reachable[of demo_mac "\<lambda>x. ''0123456789''" demo_store]] by simp

section \<open>Start-up\<close>

text \<open>
  A core process that gets past its start-up has a valid configuration, a shared secret and a
  signing key; in strict mode it serves mutual TLS only; in permissive mode it serves plaintext and,
  apart from it, TLS with an optional client certificate; with the mode off it serves plaintext
  exactly when no certificate is configured; and its profiler, if on, listens on loopback only.
\<close>

theorem startup_is_safe:
  assumes "core_main load tls_load getenv = Inr cs"
  shows "Validate (cs_config cs) = None \<and> cs_sharedSecret cs \<noteq> '''' \<and> cs_signingKey cs \<noteq> '''' \<and>
    map snd (cs_listeners cs) =
      (if getenv ''RATECAP_TLS_MODE'' = ''strict'' then [MutualTLS]
       else if getenv ''RATECAP_TLS_MODE'' = ''permissive'' then [Plaintext, OptionalClientCert]
       else if getenv ''RATECAP_TLS_CERT_PATH'' = '''' then [Plaintext] else [MutualTLS]) \<and>
    cs_pprof cs \<in> {None, Some ''127.0.0.1:6060''}"
proof -
  obtain tlsMode where s: "Validate (cs_config cs) = None" "cs_sharedSecret cs \<noteq> ''''" "cs_signingKey cs \<noteq> ''''"
    "resolveTLSMode (getenv ''RATECAP_TLS_MODE'') = Inr tlsMode"
    "\<not> ((tlsMode = ''permissive'' \<or> tlsMode = ''strict'') \<and> getenv ''RATECAP_TLS_CERT_PATH'' = '''')"
    "cs_listeners cs = core_listeners getenv tlsMode"
    "cs_pprof cs = (if resolvePprofEnabled (getenv ''RATECAP_PPROF_ENABLED'') then Some ''127.0.0.1:6060'' else None)"
    by (rule core_main_starts[OF assms])
  moreover have "tlsMode = (if getenv ''RATECAP_TLS_MODE'' = '''' then ''off'' else getenv ''RATECAP_TLS_MODE'')"
    using s(4) by (simp add: resolveTLSMode_def split: if_split_asm)
  ultimately show ?thesis by (auto simp: core_listeners_def Let_def split: if_split_asm)
qed

definition demo_getenv :: "string \<Rightarrow> string" where
  "demo_getenv v = (if v = ''RATECAP_SHARED_SECRET'' then ''s'' else if v = ''RATECAP_CONCURRENCY_SIGNING_KEY'' then ''k''
     else if v = ''RATECAP_TLS_MODE'' then ''strict''
     else if v \<in> {''RATECAP_TLS_CERT_PATH'', ''RATECAP_TLS_KEY_PATH'', ''RATECAP_TLS_CA_PATH''} then ''/etc/x.pem'' else '''')"

theorem startup_is_safe_witness:
  "\<exists>cs. core_main (\<lambda>p. Inr demo_cfg) (\<lambda>c k a. None) demo_getenv = Inr cs \<and> map snd (cs_listeners cs) = [MutualTLS]"
proof -
  obtain cs where m: "core_main (\<lambda>p. Inr demo_cfg) (\<lambda>c k a. None) demo_getenv = Inr cs"
    by (simp add: core_main_def Let_def demo_cfg_valid demo_getenv_def resolveTLSMode_def EnvVarsPartiallySet_iff)
  from startup_is_safe[OF this] m show ?thesis by (simp add: demo_getenv_def)
qed

section \<open>Health\<close>

text \<open>
  After every round of the health loop the reported status is that of the last ping, and before
  the first one the process reports that it serves.
\<close>

theorem health_follows_last_ping:
  assumes "HealthStop \<notin> set evs"
  shows "health_status [] = SERVING \<and>
    health_status (evs @ [HealthTick err]) = (if err = None then SERVING else NOT_SERVING)"
proof -
  have "HealthStop \<notin> set (evs @ [HealthTick err])" using assms by simp
  from runRedisHealthLoop_ticks[OF this] show ?thesis
    by (auto simp: health_status_def split: option.splits)
qed

theorem health_follows_last_ping_witness:
  "health_status ([HealthTick None, HealthTick (Some ''timeout'')] @ [HealthTick None]) = SERVING"
  using health_follows_last_ping[of "[HealthTick None, HealthTick (Some ''timeout'')]" None] by simp

end
