(* ===== verification/GoHttp.thy ===== *)
theory GoHttp
  imports GoStrings
begin

text \<open>
  What the sidecar uses of Go's \<open>net/http\<close>: a request with its query and header, a response writer
  whose header is frozen by the first status, and the canonical form of header names.
\<close>

definition to_upper :: "char \<Rightarrow> char" where
  "to_upper c = (let n = (of_char c :: nat) in if 97 \<le> n \<and> n \<le> 122 then char_of (n - 32) else c)"

definition to_lower :: "char \<Rightarrow> char" where
  "to_lower c = (let n = (of_char c :: nat) in if 65 \<le> n \<and> n \<le> 90 then char_of (n + 32) else c)"

text \<open>\<open>textproto.CanonicalMIMEHeaderKey\<close> on a valid name: upper case at the start and after a hyphen.\<close>

fun canonical_from :: "bool \<Rightarrow> string \<Rightarrow> string" where
  "canonical_from up [] = []"
| "canonical_from up (c # s) =
    (let d = (if up then to_upper c else to_lower c) in d # canonical_from (d = CHR ''-'') s)"

definition CanonicalHeaderKey :: "string \<Rightarrow> string" where
  "CanonicalHeaderKey s = canonical_from True s"

text \<open>The query and the header give the first value of a name, the empty string if there is none;
  the header is indexed by canonical names.\<close>

record http_request =
  rq_Method :: string
  rq_Query :: "string \<Rightarrow> string"
  rq_Header :: "string \<Rightarrow> string"
  rq_Body :: string

definition Header_Get :: "http_request \<Rightarrow> string \<Rightarrow> string" where
  "Header_Get r name = rq_Header r (CanonicalHeaderKey name)"

record http_response =
  rs_Status :: "int option"
  rs_Header :: "string \<rightharpoonup> string"
  rs_Body :: string

definition fresh_response :: http_response where
  "fresh_response = \<lparr>rs_Status = None, rs_Header = Map.empty, rs_Body = ''''\<rparr>"

definition Header_Set :: "string \<Rightarrow> string \<Rightarrow> http_response \<Rightarrow> http_response" where
  "Header_Set name v w =
    (if rs_Status w = None then w\<lparr>rs_Header := (rs_Header w)(CanonicalHeaderKey name \<mapsto> v)\<rparr> else w)"

definition WriteHeader :: "int \<Rightarrow> http_response \<Rightarrow> http_response" where
  "WriteHeader code w = (if rs_Status w = None then w\<lparr>rs_Status := Some code\<rparr> else w)"

definition write_body :: "string \<Rightarrow> http_response \<Rightarrow> http_response" where
  "write_body b w = (let w1 = WriteHeader 200 w in w1\<lparr>rs_Body := rs_Body w1 @ b\<rparr>)"

definition http_Error :: "string \<Rightarrow> int \<Rightarrow> http_response \<Rightarrow> http_response" where
  "http_Error msg code w =
    write_body (msg @ [CHR 0x0A])
      (WriteHeader code
        (Header_Set ''X-Content-Type-Options'' ''nosniff'' (Header_Set ''Content-Type'' ''text/plain; charset=utf-8'' w)))"

text \<open>A handler that writes no status answers 200.\<close>

definition status_of :: "http_response \<Rightarrow> int" where
  "status_of w = (case rs_Status w of None \<Rightarrow> 200 | Some c \<Rightarrow> c)"

definition header_of :: "http_response \<Rightarrow> string \<Rightarrow> string option" where
  "header_of w name = rs_Header w (CanonicalHeaderKey name)"

lemma fresh_simps [simp]:
  "rs_Status fresh_response = None" "rs_Header fresh_response = Map.empty"
  by (simp_all add: fresh_response_def)

lemma Header_Set_simps [simp]:
  "rs_Status (Header_Set n v w) = rs_Status w"
  "rs_Status w = None \<Longrightarrow> header_of (Header_Set n v w) n' =
    (if CanonicalHeaderKey n' = CanonicalHeaderKey n then Some v else header_of w n')"
  by (simp_all add: Header_Set_def header_of_def)

lemma WriteHeader_simps [simp]:
  "rs_Status w = None \<Longrightarrow> rs_Status (WriteHeader c w) = Some c"
  "header_of (WriteHeader c w) n = header_of w n"
  by (simp_all add: WriteHeader_def header_of_def)

lemma http_Error_status [simp]:
  "rs_Status w = None \<Longrightarrow> status_of (http_Error msg code w) = code"
  by (simp add: http_Error_def write_body_def WriteHeader_def Header_Set_def status_of_def Let_def)

lemmas canonical_eval = CanonicalHeaderKey_def to_lower_def to_upper_def Let_def char_of_def bit_Suc_0_iff

lemma canonical_from_hd: "c \<in> {CHR ''A'', CHR ''C'', CHR ''R'', CHR ''X''} \<Longrightarrow> hd (CanonicalHeaderKey (c # s)) = c"
  by (auto simp: canonical_eval)

lemma status_of_simps [simp]:
  "status_of fresh_response = 200" "status_of (Header_Set n v w) = status_of w" "status_of (write_body b w) = status_of w"
  "rs_Status w = None \<Longrightarrow> status_of (WriteHeader c w) = c"
  by (simp_all add: status_of_def write_body_def WriteHeader_def Header_Set_def Let_def)

lemma header_of_write_body [simp]: "header_of (write_body b w) n = header_of w n"
  by (simp add: header_of_def write_body_def WriteHeader_def Let_def)

lemma http_Error_header:
  "rs_Status w = None \<Longrightarrow> header_of (http_Error msg code w) n =
    (if CanonicalHeaderKey n = CanonicalHeaderKey ''X-Content-Type-Options'' then Some ''nosniff''
     else if CanonicalHeaderKey n = CanonicalHeaderKey ''Content-Type'' then Some ''text/plain; charset=utf-8''
     else header_of w n)"
  by (simp add: http_Error_def)

section \<open>Between a client and a handler\<close>

text \<open>A request as a client builds it: the values of its query and its header, the first one counting.\<close>

record client_request =
  cr_Method :: string
  cr_Path :: string
  cr_Query :: "(string \<times> string) list"
  cr_Header :: "(string \<times> string) list"
  cr_Body :: string

definition set_field :: "string \<Rightarrow> string \<Rightarrow> (string \<times> string) list \<Rightarrow> (string \<times> string) list" where
  "set_field n v fs = (n, v) # filter (\<lambda>(m, _). m \<noteq> n) fs"

definition field :: "(string \<times> string) list \<Rightarrow> string \<Rightarrow> string" where
  "field fs n = (case map_of fs n of None \<Rightarrow> '''' | Some v \<Rightarrow> v)"

text \<open>A header value is written with line breaks as blanks and without white space around it; a
  client refuses control characters other than the tab.\<close>

definition is_blank :: "char \<Rightarrow> bool" where
  "is_blank c \<longleftrightarrow> (of_char c :: nat) \<in> {9, 10, 13, 32}"

definition header_wire :: "string \<Rightarrow> string" where
  "header_wire v =
    (let u = map (\<lambda>c. if (of_char c :: nat) \<in> {10, 13} then CHR '' '' else c) v
     in rev (dropWhile is_blank (rev (dropWhile is_blank u))))"

definition ValidHeaderFieldValue :: "string \<Rightarrow> bool" where
  "ValidHeaderFieldValue v \<longleftrightarrow> list_all (\<lambda>c. \<not> (((of_char c :: nat) < 32 \<or> of_char c = (127 :: nat)) \<and> of_char c \<noteq> (9 :: nat))) v"

definition as_sent :: "client_request \<Rightarrow> http_request" where
  "as_sent req = \<lparr>rq_Method = cr_Method req, rq_Query = field (cr_Query req),
     rq_Header = field (map (\<lambda>(n, v). (n, header_wire v)) (cr_Header req)), rq_Body = cr_Body req\<rparr>"

definition received :: "http_response \<Rightarrow> http_response" where
  "received w = w\<lparr>rs_Status := Some (status_of w), rs_Header := (\<lambda>n. map_option header_wire (rs_Header w n))\<rparr>"

text \<open>A round trip whose messages arrive: the handler gets the request, the client its answer.  Requests
  and answers that are lost are put around it by \<open>over_network\<close> of \<open>GoSdk\<close>.\<close>

definition http_Do ::
  "(string \<Rightarrow> http_request \<Rightarrow> 's \<Rightarrow> http_response \<times> 's) \<Rightarrow> client_request \<Rightarrow> 's \<Rightarrow> (go_error + http_response) \<times> 's" where
  "http_Do serve req s =
    (if list_ex (\<lambda>(n, v). \<not> ValidHeaderFieldValue v) (cr_Header req)
     then (Inl ''net/http: invalid header field value'', s)
     else (case serve (cr_Path req) (as_sent req) s of (w, s1) \<Rightarrow> (Inr (received w), s1)))"

text \<open>Strings of visible characters travel as they are.\<close>

definition visible :: "string \<Rightarrow> bool" where
  "visible v \<longleftrightarrow> list_all (\<lambda>c. 32 < (of_char c :: nat) \<and> of_char c \<noteq> (127 :: nat)) v"

lemma visible_simps [simp]:
  "visible ''''" "visible (c # v) \<longleftrightarrow> 32 < (of_char c :: nat) \<and> of_char c \<noteq> (127 :: nat) \<and> visible v"
  "visible (u @ v) \<longleftrightarrow> visible u \<and> visible v"
  by (auto simp: visible_def)

lemma visible_wire [simp]: "visible v \<Longrightarrow> header_wire v = v"
proof -
  assume v: "visible v"
  then have "map (\<lambda>c. if (of_char c :: nat) \<in> {10, 13} then CHR '' '' else c) v = v"
    by (intro map_idI) (auto simp: visible_def list_all_iff)
  moreover have "dropWhile is_blank u = u" if "visible u" for u
    using that by (cases u) (auto simp: visible_def is_blank_def)
  moreover have "visible (rev v)" using v by (simp add: visible_def)
  ultimately show ?thesis using v by (simp add: header_wire_def)
qed

lemma visible_valid [simp]: "visible v \<Longrightarrow> ValidHeaderFieldValue v"
  by (auto simp: visible_def ValidHeaderFieldValue_def list_all_iff)

lemma field_set [simp]: "field (set_field n v fs) m = (if m = n then v else field fs m)"
proof -
  have "map_of (filter (\<lambda>(m, _). m \<noteq> n) fs) m = (if m = n then None else map_of fs m)"
    by (induction fs) auto
  then show ?thesis by (simp add: field_def set_field_def)
qed

lemma field_simps [simp]: "field [] n = ''''" "field ((m, v) # fs) n = (if n = m then v else field fs n)"
  by (simp_all add: field_def)

lemma received_simps [simp]:
  "status_of (received w) = status_of w" "header_of (received w) n = map_option header_wire (header_of w n)"
  by (simp_all add: received_def status_of_def header_of_def)

lemma as_sent_simps [simp]:
  "rq_Method (as_sent r) = cr_Method r" "rq_Query (as_sent r) = field (cr_Query r)" "rq_Body (as_sent r) = cr_Body r"
  "Header_Get (as_sent r) n = header_wire (field (cr_Header r) (CanonicalHeaderKey n))"
proof -
  have "map_of (map (\<lambda>(n, v). (n, f v)) fs) m = map_option f (map_of fs m)" for f :: "string \<Rightarrow> string" and fs and m :: string
    by (induction fs) auto
  moreover have "header_wire '''' = ''''" by (simp add: header_wire_def)
  ultimately show "Header_Get (as_sent r) n = header_wire (field (cr_Header r) (CanonicalHeaderKey n))"
    by (simp add: as_sent_def Header_Get_def field_def split: option.split)
qed (simp_all add: as_sent_def)

end
