(* ===== verification/SelfThrottle.thy ===== *)
theory SelfThrottle
  imports GoDouble GoHttp
begin

text \<open>
  \<open>services/sidecar/ratelimit\<close>: the limiter in front of every route of a sidecar.  Times are
  nanoseconds, \<open>float64\<close> values are doubles; each reading of the clock is an argument.
\<close>

record throttle =
  th_rate :: dbl
  th_burst :: dbl
  th_tokens :: dbl
  th_updatedAt :: int

definition th_NewWithClock :: "dbl \<Rightarrow> dbl \<Rightarrow> int \<Rightarrow> throttle" where
  "th_NewWithClock ratePerSecond burst now =
    \<lparr>th_rate = ratePerSecond, th_burst = burst, th_tokens = burst, th_updatedAt = now\<rparr>"

definition th_New :: "dbl \<Rightarrow> int \<Rightarrow> throttle" where
  "th_New ratePerSecond now = th_NewWithClock ratePerSecond ratePerSecond now"

text \<open>\<open>time.Duration.Seconds\<close>.\<close>

definition Seconds :: "int \<Rightarrow> dbl" where
  "Seconds d = dadd (of_int_dbl (d sdiv 1000000000)) (ddiv (of_int_dbl (d smod 1000000000)) (Fin 1000000000))"

text \<open>A conversion of a double to \<open>int64\<close> truncates; out of range and \<open>NaN\<close> give the least value, as
  the instruction of amd64 does.\<close>

definition int64_of_dbl :: "dbl \<Rightarrow> int" where
  "int64_of_dbl d = (case d of Fin a \<Rightarrow> if in_int64 (trunc a) then trunc a else - (2 ^ 63) | _ \<Rightarrow> - (2 ^ 63))"

definition refillLocked :: "int \<Rightarrow> throttle \<Rightarrow> throttle" where
  "refillLocked now l =
    (let elapsed = now - th_updatedAt l
     in if elapsed \<le> 0 then l
        else (let tokens = dadd (th_tokens l) (dmul (Seconds elapsed) (th_rate l));
                  tokens = (if dlt (th_burst l) tokens then th_burst l else tokens)
              in l\<lparr>th_tokens := tokens, th_updatedAt := now\<rparr>))"

definition th_Allow :: "int \<Rightarrow> throttle \<Rightarrow> bool \<times> throttle" where
  "th_Allow now l =
    (let l1 = refillLocked now l
     in if dlt (th_tokens l1) (Fin 1) then (False, l1)
        else (True, l1\<lparr>th_tokens := dsub (th_tokens l1) (Fin 1)\<rparr>))"

definition th_RetryAfter :: "int \<Rightarrow> throttle \<Rightarrow> int \<times> throttle" where
  "th_RetryAfter now l =
    (let l1 = refillLocked now l
     in if dle (Fin 1) (th_tokens l1) then (0, l1)
        else (let deficit = dsub (Fin 1) (th_tokens l1)
              in (int64_of_dbl (dmul (ddiv deficit (th_rate l1)) (Fin 1000000000)), l1)))"

text \<open>\<open>Middleware\<close>: \<open>now\<close> and \<open>now'\<close> are the clock at \<open>Allow\<close> and at \<open>RetryAfter\<close>.\<close>

definition Middleware ::
  "int \<Rightarrow> int \<Rightarrow> (http_request \<Rightarrow> 's \<Rightarrow> http_response \<times> 's) \<Rightarrow> http_request \<Rightarrow> throttle \<times> 's \<Rightarrow>
   http_response \<times> throttle \<times> 's" where
  "Middleware now now' serve r st =
    (case st of (l, s) \<Rightarrow>
      (case th_Allow now l of
         (True, l1) \<Rightarrow> (case serve r s of (w, s1) \<Rightarrow> (w, l1, s1))
       | (False, l1) \<Rightarrow>
         (case th_RetryAfter now' l1 of (d, l2) \<Rightarrow>
           (let retrySeconds = int64_of_dbl (dadd (Seconds d) (Fin 1))
            in (http_Error ''too many requests'' 429 (Header_Set ''Retry-After'' (Itoa retrySeconds) fresh_response), l2, s)))))"

section \<open>Bounds\<close>

text \<open>Levels that are finite, not negative and at most the burst.\<close>

definition throttle_ok :: "throttle \<Rightarrow> bool" where
  "throttle_ok l \<longleftrightarrow> (\<exists>r b t. th_rate l = Fin r \<and> 0 < r \<and> th_burst l = Fin b \<and> 0 < b \<and>
    th_tokens l = Fin t \<and> 0 \<le> t \<and> t \<le> b)"

lemma throttle_okI:
  "0 < r \<Longrightarrow> 0 < b \<Longrightarrow> 0 \<le> t \<Longrightarrow> t \<le> b \<Longrightarrow>
    throttle_ok \<lparr>th_rate = Fin r, th_burst = Fin b, th_tokens = Fin t, th_updatedAt = u\<rparr>"
  by (simp add: throttle_ok_def)

lemma Seconds_nonneg: "0 < d \<Longrightarrow> \<exists>x. Seconds d = Fin x \<and> 0 \<le> x"
proof -
  assume "0 < d"
  then have "0 \<le> d sdiv 1000000000" "0 \<le> d smod 1000000000"
    by (auto simp: signed_divide_int_def signed_modulo_int_def sgn_if)
  then show ?thesis
    by (simp add: Seconds_def of_int_dbl_def fl_nonneg)
qed

lemma refillLocked_ok: "throttle_ok l \<Longrightarrow> throttle_ok (refillLocked now l)"
proof (cases "now - th_updatedAt l \<le> 0")
  case False
  assume "throttle_ok l"
  then obtain r b t where l: "th_rate l = Fin r" "0 < r" "th_burst l = Fin b" "0 < b" "th_tokens l = Fin t" "0 \<le> t" "t \<le> b"
    by (auto simp: throttle_ok_def)
  obtain x where x: "Seconds (now - th_updatedAt l) = Fin x" "0 \<le> x"
    using Seconds_nonneg[of "now - th_updatedAt l"] False by auto
  have "0 \<le> fl (t + fl (x * r))" using l x by (simp add: fl_nonneg)
  then show ?thesis using False l x by (auto simp: refillLocked_def Let_def throttle_ok_def)
qed (simp add: refillLocked_def)

lemma th_Allow_ok:
  assumes "throttle_ok l" "th_burst l = Fin b" "b \<le> 2 ^ 53" "th_Allow now l = (a, l')"
  shows "throttle_ok l'"
proof -
  have ok: "throttle_ok (refillLocked now l)" by (rule refillLocked_ok[OF assms(1)])
  have b: "th_burst (refillLocked now l) = Fin b" using assms(2) by (simp add: refillLocked_def Let_def)
  obtain t where t: "th_tokens (refillLocked now l) = Fin t" "0 \<le> t" "t \<le> b"
    using ok b by (auto simp: throttle_ok_def)
  have "1 \<le> t \<Longrightarrow> 0 \<le> fl (t - 1) \<and> fl (t - 1) \<le> b"
  proof
    assume "1 \<le> t"
    then show "0 \<le> fl (t - 1)" by (simp add: fl_nonneg)
    have "t - 1 \<le> of_int \<lfloor>b\<rfloor>" using t(3) by linarith
    then have "fl (t - 1) \<le> fl (of_int \<lfloor>b\<rfloor>)" by (rule fl_mono)
    also have "\<dots> = of_int \<lfloor>b\<rfloor>"
    proof (rule fl_of_int)
      have "\<lfloor>b\<rfloor> \<le> \<lfloor>2 ^ 53 :: rat\<rfloor>" using assms(3) by (rule floor_mono)
      moreover have "0 \<le> \<lfloor>b\<rfloor>" using t(3) \<open>1 \<le> t\<close> by simp
      ultimately show "\<bar>\<lfloor>b\<rfloor>\<bar> \<le> 2 ^ 53" by simp
    qed
    finally show "fl (t - 1) \<le> b" by linarith
  qed
  then show ?thesis using assms(4) ok t b
    by (auto simp: th_Allow_def Let_def throttle_ok_def split: if_splits)
qed

lemma refillLocked_burst [simp]: "th_burst (refillLocked now l) = th_burst l" "th_rate (refillLocked now l) = th_rate l"
  by (simp_all add: refillLocked_def Let_def)

lemma th_Allow_const: "th_Allow now l = (a, l') \<Longrightarrow> th_burst l' = th_burst l \<and> th_rate l' = th_rate l"
  by (auto simp: th_Allow_def Let_def split: if_splits)

text \<open>
  A sidecar throttled to less than one request per second admits none at all: the burst is the
  rate, the level never exceeds it, and a request needs a whole token.
\<close>

theorem slow_throttle_admits_nothing:
  assumes "throttle_ok l" "th_burst l = Fin b" "b < 1"
  shows "\<not> fst (th_Allow now l)"
proof -
  obtain t where "th_tokens (refillLocked now l) = Fin t" "t \<le> b"
    using refillLocked_ok[OF assms(1), of now] assms(2) by (auto simp: throttle_ok_def)
  then show ?thesis using assms(3) by (simp add: th_Allow_def Let_def)
qed

theorem slow_throttle_admits_nothing_witness:
  "\<not> fst (th_Allow 3600000000000 (th_New (Fin (1 / 2)) 0))"
proof (rule slow_throttle_admits_nothing)
  show "throttle_ok (th_New (Fin (1 / 2)) 0)"
    unfolding th_New_def th_NewWithClock_def by (rule throttle_okI) simp_all
  show "th_burst (th_New (Fin (1 / 2)) 0) = Fin (1 / 2)" by (simp add: th_New_def th_NewWithClock_def)
  show "1 / 2 < (1 :: rat)" by simp
qed

text \<open>A rate that is not a number, which the environment variable may hold, admits everything.\<close>

lemma nan_arith: "dmul x NaN = NaN" "dadd NaN x = NaN" "\<not> dlt NaN x"
  by (simp_all add: dinf_def)

lemma nan_throttle_admits_all: "fst (th_Allow now (th_New NaN t0))"
proof -
  have "th_tokens (refillLocked now (th_New NaN t0)) = NaN"
    by (simp add: refillLocked_def th_New_def th_NewWithClock_def Let_def nan_arith)
  then show ?thesis by (simp add: th_Allow_def Let_def nan_arith)
qed

end
