(* ===== verification/CliHistogram.thy ===== *)
theory CliHistogram
  imports SelfThrottle "HOL-Library.Word" "HOL-Library.Multiset"
begin

text \<open>
  \<open>cli/cmd/histogram.go\<close>: the latency histogram of the benchmark.  Its counters are \<open>uint64\<close>;
  \<open>math.Log\<close> and \<open>math.Pow\<close> are arguments, of which the proofs use that the logarithm is monotone and
  not negative from 1 on (\<open>log_laws\<close>).  The mutex makes each operation atomic.
\<close>

section \<open>The histogram\<close>

record histogram =
  h_buckets :: "64 word list"
  h_count :: "64 word"

text \<open>Go evaluates the quotient of the two constants exactly; where they meet a variable they are doubles.\<close>

definition histMinMs :: dbl where "histMinMs = Fin (fl (1 / 100))"
definition histMaxMs :: dbl where "histMaxMs = Fin 60000"
definition histRange :: dbl where "histRange = Fin 6000000"
definition histBuckets :: int where "histBuckets = 2048"

definition newHistogram :: histogram where
  "newHistogram = \<lparr>h_buckets = replicate (nat histBuckets) 0, h_count = 0\<rparr>"

definition bucketIndex :: "(dbl \<Rightarrow> dbl) \<Rightarrow> dbl \<Rightarrow> int" where
  "bucketIndex Log ms =
    (if dle ms histMinMs then 0
     else if dle histMaxMs ms then histBuckets - 1
     else (let ratio = ddiv (Log (ddiv ms histMinMs)) (Log histRange);
               idx = int64_of_dbl (dmul ratio (of_int_dbl histBuckets))
           in if histBuckets \<le> idx then histBuckets - 1 else idx))"

definition Milliseconds :: "int \<Rightarrow> dbl" where
  "Milliseconds d = ddiv (of_int_dbl (d sdiv 1000)) (Fin 1000)"

definition Record_latency :: "(dbl \<Rightarrow> dbl) \<Rightarrow> int \<Rightarrow> histogram \<Rightarrow> histogram outcome" where
  "Record_latency Log d h =
    (let idx = bucketIndex Log (Milliseconds d)
     in if 0 \<le> idx \<and> nat idx < length (h_buckets h)
        then Done (h\<lparr>h_buckets := (h_buckets h)[nat idx := h_buckets h ! nat idx + 1], h_count := h_count h + 1\<rparr>)
        else Panicked ''index out of range'')"

definition bucketUpperBoundMs :: "(dbl \<Rightarrow> dbl \<Rightarrow> dbl) \<Rightarrow> int \<Rightarrow> dbl" where
  "bucketUpperBoundMs pw idx =
    dmul histMinMs (pw histRange (ddiv (of_int_dbl (idx + 1)) (of_int_dbl histBuckets)))"

text \<open>A conversion of a double to \<open>uint64\<close> truncates; what is out of range gives \<open>2 ^ 63\<close>, as on amd64.\<close>

definition uint64_of_dbl :: "dbl \<Rightarrow> 64 word" where
  "uint64_of_dbl d =
    (case d of Fin a \<Rightarrow> if - (2 ^ 63) \<le> trunc a \<and> trunc a < 2 ^ 64 then word_of_int (trunc a) else 2 ^ 63
     | _ \<Rightarrow> 2 ^ 63)"

fun percentile_loop :: "(dbl \<Rightarrow> dbl \<Rightarrow> dbl) \<Rightarrow> 64 word \<Rightarrow> int \<Rightarrow> 64 word \<Rightarrow> 64 word list \<Rightarrow> dbl" where
  "percentile_loop pw target i cum [] = histMaxMs"
| "percentile_loop pw target i cum (c # cs) =
    (let cum1 = cum + c
     in if target \<le> cum1 then bucketUpperBoundMs pw i else percentile_loop pw target (i + 1) cum1 cs)"

definition Percentile :: "(dbl \<Rightarrow> dbl \<Rightarrow> dbl) \<Rightarrow> dbl \<Rightarrow> histogram \<Rightarrow> dbl" where
  "Percentile pw p h =
    (if h_count h = 0 then Fin 0
     else percentile_loop pw (uint64_of_dbl (dceil (dmul p (of_int_dbl (uint (h_count h)))))) 0 0 (h_buckets h))"

definition Count :: "histogram \<Rightarrow> 64 word" where
  "Count h = h_count h"

definition Reset_histogram :: "histogram \<Rightarrow> histogram" where
  "Reset_histogram h = h\<lparr>h_buckets := map (\<lambda>_. 0) (h_buckets h), h_count := 0\<rparr>"

section \<open>Bucket indices\<close>

definition log_laws :: "(dbl \<Rightarrow> dbl) \<Rightarrow> bool" where
  "log_laws Log \<longleftrightarrow> (\<exists>lg. (\<forall>x. 1 \<le> x \<longrightarrow> Log (Fin x) = Fin (lg x) \<and> 0 \<le> lg x) \<and> mono_on {1..} lg \<and> 0 < lg 6000000)"

lemma histMin_bounds: "1 / 100 \<le> fl (1 / 100 :: rat)" "fl (1 / 100 :: rat) < 1"
  by code_simp+

text \<open>Between the ends the index is a monotone function of the milliseconds into \<open>0..2047\<close>.\<close>

lemma bucketIndex_between:
  assumes "log_laws Log"
  obtains f where "mono_on {fl (1 / 100)..} f" "\<And>x. fl (1 / 100) \<le> x \<Longrightarrow> 0 \<le> f x"
    "\<And>x. \<not> x \<le> fl (1 / 100) \<Longrightarrow> \<not> 60000 \<le> x \<Longrightarrow> bucketIndex Log (Fin x) = min 2047 (f x)"
proof -
  let ?m = "fl (1 / 100 :: rat)"
  obtain lg where lg: "\<And>x. 1 \<le> x \<Longrightarrow> Log (Fin x) = Fin (lg x)" "\<And>x. 1 \<le> x \<Longrightarrow> 0 \<le> lg x" "mono_on {1..} lg" "0 < lg 6000000"
    using assms by (auto simp: log_laws_def)
  define f where "f x = \<lfloor>fl (fl (lg (fl (x / ?m)) / lg 6000000) * 2048)\<rfloor>" for x
  have m: "0 < ?m" using histMin_bounds(1) by linarith
  have one: "1 \<le> fl (x / ?m)" if "?m \<le> x" for x
    using fl_mono[of 1 "x / ?m"] that m by simp
  have mono: "f x \<le> f y" if "?m \<le> x" "x \<le> y" for x y
  proof -
    have "fl (x / ?m) \<le> fl (y / ?m)" using that m by (intro fl_mono divide_right_mono) auto
    then have "lg (fl (x / ?m)) \<le> lg (fl (y / ?m))"
      using one[of x] one[of y] that by (intro mono_onD[OF lg(3)]) auto
    then show ?thesis unfolding f_def using lg(4)
      by (intro floor_mono fl_mono mult_right_mono divide_right_mono) auto
  qed
  have nonneg: "0 \<le> f x" if "?m \<le> x" for x
    unfolding f_def using one[OF that] lg(2,4) by (simp add: fl_nonneg)
  have "bucketIndex Log (Fin x) = min 2047 (f x)" if x: "\<not> x \<le> ?m" "\<not> 60000 \<le> x" for x
  proof -
    have y: "1 \<le> fl (x / ?m)" using one[of x] x by simp
    have "x / ?m \<le> 6000000"
      using x m histMin_bounds(1) by (simp add: divide_le_eq)
    then have top: "fl (x / ?m) \<le> 6000000" using fl_mono[of "x / ?m" 6000000] by simp
    have "lg (fl (x / ?m)) \<le> lg 6000000" using y top by (intro mono_onD[OF lg(3)]) auto
    then have "fl (lg (fl (x / ?m)) / lg 6000000) \<le> 1"
      using fl_mono[of "lg (fl (x / ?m)) / lg 6000000" 1] lg(4) by simp
    then have "fl (fl (lg (fl (x / ?m)) / lg 6000000) * 2048) \<le> 2048"
      using fl_mono[of "fl (lg (fl (x / ?m)) / lg 6000000) * 2048" 2048] by simp
    then have "0 \<le> f x" "f x \<le> 2048" using nonneg[of x] x unfolding f_def by (auto simp: floor_le_iff)
    moreover from this have "trunc (fl (fl (lg (fl (x / ?m)) / lg 6000000) * 2048)) = f x"
      by (auto simp: trunc_def f_def zero_le_floor)
    ultimately show ?thesis
      using x lg(1,4) y by (auto simp: bucketIndex_def histMinMs_def histMaxMs_def histRange_def histBuckets_def
          of_int_dbl_def Let_def int64_of_dbl_def in_int64_def)
  qed
  then show thesis using mono nonneg by (intro that[of f]) (auto simp: mono_on_def)
qed

lemma bucketIndex_range:
  assumes "log_laws Log"
  shows "0 \<le> bucketIndex Log (Fin x)" "bucketIndex Log (Fin x) < 2048"
proof -
  obtain f where f: "\<And>x. fl (1 / 100) \<le> x \<Longrightarrow> 0 \<le> f x"
      "\<And>x. \<not> x \<le> fl (1 / 100) \<Longrightarrow> \<not> 60000 \<le> x \<Longrightarrow> bucketIndex Log (Fin x) = min 2047 (f x)"
    using bucketIndex_between[OF assms] by metis
  consider "x \<le> fl (1 / 100)" | "\<not> x \<le> fl (1 / 100)" "60000 \<le> x" | "\<not> x \<le> fl (1 / 100)" "\<not> 60000 \<le> x" by blast
  then have "0 \<le> bucketIndex Log (Fin x) \<and> bucketIndex Log (Fin x) < 2048"
  proof cases
    case 3
    then show ?thesis using f(1)[of x] f(2)[of x] by auto
  qed (simp_all add: bucketIndex_def histMinMs_def histMaxMs_def histBuckets_def)
  then show "0 \<le> bucketIndex Log (Fin x)" "bucketIndex Log (Fin x) < 2048" by auto
qed

lemma bucketIndex_mono:
  assumes "log_laws Log" "x \<le> y"
  shows "bucketIndex Log (Fin x) \<le> bucketIndex Log (Fin y)"
proof -
  obtain f where f: "mono_on {fl (1 / 100)..} f"
      "\<And>x. \<not> x \<le> fl (1 / 100) \<Longrightarrow> \<not> 60000 \<le> x \<Longrightarrow> bucketIndex Log (Fin x) = min 2047 (f x)"
    using bucketIndex_between[OF assms(1)] by metis
  consider "x \<le> fl (1 / 100)" | "\<not> y \<le> fl (1 / 100)" "60000 \<le> y"
    | "\<not> x \<le> fl (1 / 100)" "\<not> y \<le> fl (1 / 100)" "\<not> 60000 \<le> x" "\<not> 60000 \<le> y"
    using assms(2) by force
  then show ?thesis
  proof cases
    case 1
    then have "bucketIndex Log (Fin x) = 0" by (simp add: bucketIndex_def histMinMs_def)
    then show ?thesis using bucketIndex_range(1)[OF assms(1)] by simp
  next
    case 2
    then have "bucketIndex Log (Fin y) = 2047" by (simp add: bucketIndex_def histMinMs_def histMaxMs_def histBuckets_def)
    then show ?thesis using bucketIndex_range(2)[OF assms(1), of x] by simp
  next
    case 3
    then have "f x \<le> f y" using assms(2) by (intro mono_onD[OF f(1)]) auto
    then show ?thesis using f(2) 3 by (simp add: min_def)
  qed
qed

definition latency_bucket :: "(dbl \<Rightarrow> dbl) \<Rightarrow> int \<Rightarrow> int" where
  "latency_bucket Log d = bucketIndex Log (Milliseconds d)"

lemma latency_bucket_range:
  assumes "log_laws Log"
  shows "0 \<le> latency_bucket Log d" "latency_bucket Log d < 2048"
  using bucketIndex_range[OF assms] by (simp_all add: latency_bucket_def Milliseconds_def of_int_dbl_def)

lemma latency_bucket_mono:
  assumes "log_laws Log" "0 \<le> d" "d \<le> e"
  shows "latency_bucket Log d \<le> latency_bucket Log e"
proof -
  have "d sdiv 1000 \<le> e sdiv 1000" using assms(2,3) by (simp add: sdiv_nonneg zdiv_mono1)
  then have "fl (fl (of_int (d sdiv 1000)) / 1000) \<le> fl (fl (of_int (e sdiv 1000)) / 1000)"
    by (intro fl_mono divide_right_mono) auto
  then show ?thesis
    using bucketIndex_mono[OF assms(1)] by (simp add: latency_bucket_def Milliseconds_def of_int_dbl_def)
qed

section \<open>What the counters hold\<close>

text \<open>The histogram of a list of recorded bucket indices.\<close>

definition counts_of :: "histogram \<Rightarrow> int list \<Rightarrow> bool" where
  "counts_of h xs \<longleftrightarrow> h_buckets h = map (\<lambda>i. of_nat (count_list xs (int i))) [0..<2048] \<and> h_count h = of_nat (length xs)"

lemma counts_of_new: "counts_of newHistogram []"
  by (auto simp: counts_of_def newHistogram_def histBuckets_def map_replicate_const)

lemma counts_of_reset: "counts_of h xs \<Longrightarrow> counts_of (Reset_histogram h) []"
  by (simp add: counts_of_def Reset_histogram_def comp_def)

lemma Record_counts:
  assumes "log_laws Log" "counts_of h xs"
  obtains h' where "Record_latency Log d h = Done h'" "counts_of h' (latency_bucket Log d # xs)"
proof -
  let ?i = "latency_bucket Log d" and ?b = "\<lambda>xs i. of_nat (count_list xs (int i)) :: 64 word"
  have i: "0 \<le> ?i" "nat ?i < 2048" using latency_bucket_range[OF assms(1), of d] by (auto simp: nat_less_iff)
  have "(map (?b xs) [0..<2048])[nat ?i := ?b xs (nat ?i) + 1] = map (?b (?i # xs)) [0..<2048]"
    using i by (intro nth_equalityI) (auto simp: nth_list_update)
  then show thesis
    using i assms(2) by (intro that) (auto simp: Record_latency_def counts_of_def Let_def latency_bucket_def[symmetric])
qed

fun record_all :: "(dbl \<Rightarrow> dbl) \<Rightarrow> int list \<Rightarrow> histogram \<Rightarrow> histogram outcome" where
  "record_all Log [] h = Done h"
| "record_all Log (d # ds) h =
    (case Record_latency Log d h of Done h1 \<Rightarrow> record_all Log ds h1 | Panicked m \<Rightarrow> Panicked m | Waiting \<Rightarrow> Waiting)"

lemma record_all_counts:
  assumes "log_laws Log" "counts_of h xs"
  shows "\<exists>h'. record_all Log ds h = Done h' \<and> counts_of h' (rev (map (latency_bucket Log) ds) @ xs)"
  using assms(2)
proof (induction ds arbitrary: h xs)
  case (Cons d ds)
  obtain h1 where "Record_latency Log d h = Done h1" "counts_of h1 (latency_bucket Log d # xs)"
    by (rule Record_counts[OF assms(1) Cons.prems])
  then show ?case using Cons.IH by fastforce
qed simp

section \<open>Percentiles\<close>

lemma sorted_rank:
  "sorted ys \<Longrightarrow> j < length ys \<Longrightarrow> length (filter (\<lambda>y. y < i) ys) \<le> j \<longleftrightarrow> (i :: 'a :: linorder) \<le> ys ! j"
proof (induction ys arbitrary: j)
  case (Cons y ys)
  show ?case
  proof (cases j)
    case 0
    then show ?thesis using Cons.prems by (auto simp: filter_empty_conv)
  next
    case (Suc k)
    show ?thesis
    proof (cases "y < i")
      case True
      then show ?thesis using Cons Suc by simp
    next
      case False
      then have "filter (\<lambda>y. y < i) ys = []" using Cons.prems by (auto simp: filter_empty_conv)
      moreover have "y \<le> ys ! k" using Cons.prems Suc by simp
      ultimately show ?thesis using Suc False by auto
    qed
  qed
qed simp

lemma below_Suc:
  "length (filter (\<lambda>x. x < i + 1) xs) = length (filter (\<lambda>x. x < i) xs) + count_list xs (i :: int)"
  by (induction xs) auto

text \<open>The loop stops at the bucket of the entry with the rank it looks for.\<close>

lemma percentile_loop_rank:
  assumes "length xs < 2 ^ 64" "list_all (\<lambda>x. 0 \<le> x \<and> x < 2048) xs" "j < length xs"
    and "cs = map (\<lambda>i. of_nat (count_list xs (int i))) [i..<2048]" "i \<le> 2048"
    and "length (filter (\<lambda>x. x < int i) xs) \<le> j"
  shows "percentile_loop pw (of_nat (Suc j)) (int i) (of_nat (length (filter (\<lambda>x. x < int i) xs))) cs =
    bucketUpperBoundMs pw (sort xs ! j)"
  using assms(4-6)
proof (induction cs arbitrary: i)
  case Nil
  then have "\<not> length (filter (\<lambda>x. x < int i) xs) \<le> j" using assms(2,3)
    by (subst filter_True) (auto simp: list_all_iff)
  then show ?case using Nil by simp
next
  case (Cons c cs)
  have rank: "length (filter (\<lambda>x. x < n) xs) \<le> j \<longleftrightarrow> n \<le> sort xs ! j" for n :: int
  proof -
    have "length (filter (\<lambda>x. x < n) xs) = length (filter (\<lambda>x. x < n) (sort xs))"
      by (simp add: filter_sort)
    then show ?thesis using sorted_rank[of "sort xs" j n] assms(3) by simp
  qed
  have i: "i < 2048" "c = of_nat (count_list xs (int i))" "cs = map (\<lambda>i. of_nat (count_list xs (int i))) [Suc i..<2048]"
    using Cons.prems(1,2) by (cases "i < 2048"; simp add: upt_conv_Cons)+
  let ?f = "\<lambda>n :: int. length (filter (\<lambda>x. x < n) xs)"
  have bound: "?f n < 2 ^ 64" for n using length_filter_le[of "\<lambda>x. x < n" xs] assms(1) by linarith
  have cum: "of_nat (?f (int i)) + c = (of_nat (?f (int (Suc i))) :: 64 word)"
    using below_Suc[of "int i" xs] i(2) by (simp add: add.commute)
  have le: "of_nat (Suc j) \<le> (of_nat (?f (int (Suc i))) :: 64 word) \<longleftrightarrow> Suc j \<le> ?f (int (Suc i))"
    using bound[of "int (Suc i)"] assms(1,3)
    by (simp add: word_le_nat_alt unat_of_nat take_bit_nat_eq_self del: of_nat_Suc)
  show ?case
  proof (cases "Suc j \<le> ?f (int (Suc i))")
    case True
    then have "sort xs ! j = int i" using rank[of "int (Suc i)"] rank[of "int i"] Cons.prems(3) by simp
    then show ?thesis using True le cum by (simp add: Let_def del: of_nat_Suc)
  next
    case False
    then have "?f (int (Suc i)) \<le> j" by simp
    from Cons.IH[OF i(3) _ this] i(1) show ?thesis using False le cum by (simp add: Let_def del: of_nat_Suc) (simp add: add.commute)
  qed
qed

text \<open>The rank a percentile asks for: one of the samples, as long as their number is an exact double.\<close>

definition percentile_rank :: "rat \<Rightarrow> nat \<Rightarrow> nat" where
  "percentile_rank q n = nat \<lceil>fl (q * of_nat n)\<rceil>"

lemma percentile_rank_bounds:
  assumes "0 < q" "q \<le> 1" "0 < n" "n \<le> 2 ^ 53"
  shows "0 < percentile_rank q n" "percentile_rank q n \<le> n"
proof -
  have "0 < fl (q * of_nat n)" using assms by (intro fl_pos_if) simp
  then show "0 < percentile_rank q n" by (simp add: percentile_rank_def)
  have "int n \<le> 2 ^ 53" using assms(4) by (metis of_nat_le_iff of_nat_numeral of_nat_power)
  then have "fl (of_nat n) = of_nat n" using fl_of_int[of "int n"] by simp
  moreover have "q * of_nat n \<le> of_nat n" using assms by (simp add: mult_le_cancel_right1)
  ultimately have "fl (q * of_nat n) \<le> of_nat n" using fl_mono by metis
  then have "\<lceil>fl (q * of_nat n)\<rceil> \<le> int n" by (simp add: ceiling_le_iff)
  then show "percentile_rank q n \<le> n" by (simp add: percentile_rank_def)
qed

lemma percentile_target:
  assumes "0 < q" "q \<le> 1" "0 < n" "n \<le> 2 ^ 53"
  shows "uint64_of_dbl (dceil (dmul (Fin q) (of_int_dbl (int n)))) = of_nat (percentile_rank q n)"
proof -
  have n: "of_int_dbl (int n) = Fin (of_nat n)"
    using of_int_dbl_exact[of "int n"] assms(4) by (simp add: of_nat_le_iff flip: of_nat_power)
  have r: "\<lceil>fl (q * of_nat n)\<rceil> = int (percentile_rank q n)"
    using percentile_rank_bounds(1)[OF assms] by (simp add: percentile_rank_def)
  have "int (percentile_rank q n) < 2 ^ 64"
    using percentile_rank_bounds(2)[OF assms] assms(4) by simp
  moreover have "trunc (of_nat m) = int m" for m using trunc_of_int[of "int m"] by simp
  ultimately show ?thesis by (simp add: uint64_of_dbl_def n r)
qed

lemma sort_map_mono:
  fixes f :: "'a :: linorder \<Rightarrow> 'b :: linorder"
  assumes "\<And>x y. x \<in> set xs \<Longrightarrow> y \<in> set xs \<Longrightarrow> x \<le> y \<Longrightarrow> f x \<le> f y"
  shows "sort (map f xs) = map f (sort xs)"
proof (rule properties_for_sort)
  show "sorted (map f (sort xs))"
    using assms by (auto simp: sorted_wrt_map intro!: sorted_wrt_mono_rel[OF _ sorted_sort])
qed simp

text \<open>
  C28: Whatever latencies a benchmark has recorded, in whatever order, no record panics, and the
  percentile the histogram reports is the upper bound of the bucket of the sample that has this
  percentile's rank in the sorted list of all samples: the fixed 2048 counters answer as the sorted
  samples would, up to the width of a bucket.  After a reset the histogram is empty again.
\<close>

theorem percentile_is_rank:
  assumes "log_laws Log" "ds \<noteq> []" "length ds \<le> 2 ^ 53" "list_all (\<lambda>d. 0 \<le> d) ds" "0 < q" "q \<le> 1"
  shows "\<exists>h. record_all Log ds newHistogram = Done h \<and> Count h = of_nat (length ds) \<and>
    Percentile pw (Fin q) h =
      bucketUpperBoundMs pw (latency_bucket Log (sort ds ! (percentile_rank q (length ds) - 1))) \<and>
    Percentile pw p (Reset_histogram h) = Fin 0"
proof -
  let ?xs = "rev (map (latency_bucket Log) ds)"
  obtain h where h: "record_all Log ds newHistogram = Done h" "counts_of h ?xs"
    using record_all_counts[OF assms(1) counts_of_new, of ds] by auto
  let ?n = "length ds"
  have n: "0 < ?n" using assms(2) by simp
  obtain j where j: "percentile_rank q ?n = Suc j" "j < ?n"
    using percentile_rank_bounds[OF assms(5,6) n assms(3)] by (cases "percentile_rank q ?n") auto
  have big: "?n < 2 ^ 64" using assms(3) by simp
  have count: "h_count h = of_nat ?n" "uint (h_count h) = int ?n"
    using h(2) big by (simp_all add: counts_of_def unsigned_of_nat take_bit_nat_eq_self)
  have "percentile_loop pw (of_nat (Suc j)) (int 0) (of_nat (length (filter (\<lambda>x. x < int 0) ?xs))) (h_buckets h) =
      bucketUpperBoundMs pw (sort ?xs ! j)"
  proof (rule percentile_loop_rank)
    have "filter (\<lambda>x. x < int 0) ?xs = []"
      using latency_bucket_range(1)[OF assms(1)] by (auto simp: filter_empty_conv not_less)
    then show "length (filter (\<lambda>x. x < int 0) ?xs) \<le> j" by simp
  qed (use j big h(2) latency_bucket_range[OF assms(1)] in \<open>auto simp: list_all_iff counts_of_def\<close>)
  moreover have "filter (\<lambda>x. x < 0) ?xs = []"
    using latency_bucket_range(1)[OF assms(1)] by (auto simp: filter_empty_conv not_less)
  moreover have "sort ?xs = map (latency_bucket Log) (sort ds)"
  proof -
    have "sort ?xs = sort (map (latency_bucket Log) ds)" by (intro properties_for_sort) auto
    then show ?thesis using assms(4) latency_bucket_mono[OF assms(1)] by (subst sort_map_mono[symmetric]) (auto simp: list_all_iff)
  qed
  moreover have "h_count h \<noteq> 0" using count(2) n by (auto simp del: count(1))
  ultimately have "Percentile pw (Fin q) h = bucketUpperBoundMs pw (latency_bucket Log (sort ds ! j))"
    unfolding Percentile_def count(2) percentile_target[OF assms(5,6) n assms(3)] j(1) using j(2) by simp
  then show ?thesis using h(1) count(1) j(1) by (auto simp: Count_def Percentile_def Reset_histogram_def)
qed

text \<open>The binary logarithm rounded down, and a power that is linear.\<close>

definition demo_log :: "dbl \<Rightarrow> dbl" where
  "demo_log d = (case d of Fin x \<Rightarrow> Fin (of_int (expo x)) | _ \<Rightarrow> d)"

lemma demo_log_laws: "log_laws demo_log"
proof -
  have "expo 1 = 0" "expo 6000000 = 22" by code_simp+
  moreover have "expo x \<le> expo y" if "1 \<le> x" "x \<le> y" for x y using that by (intro expo_mono) auto
  ultimately show ?thesis
    unfolding log_laws_def demo_log_def by (intro exI[of _ "\<lambda>x. of_int (expo x)"]) (force simp: mono_on_def)
qed

theorem percentile_is_rank_witness:
  "\<exists>h. record_all demo_log [3000000, 1000000, 2000000] newHistogram = Done h \<and>
    Percentile dmul (Fin (1 / 2)) h = bucketUpperBoundMs dmul (latency_bucket demo_log 2000000)"
proof -
  have "percentile_rank (1 / 2) (length [3000000, 1000000, 2000000 :: int]) = 2" by code_simp
  moreover have "length [3000000, 1000000, 2000000 :: int] \<le> 2 ^ 53" by simp
  ultimately show ?thesis
    using percentile_is_rank[OF demo_log_laws, of "[3000000, 1000000, 2000000]" "1 / 2" dmul NaN] by (auto simp del: list.size)
qed

end
