(* ===== verification/GoSdk.thy ===== *)
theory GoSdk
  imports GoHttp Prelude
begin

text \<open>
  \<open>packages/sdks/go\<close>: the client of a sidecar.  The HTTP client is an argument \<open>http\<close>, a request and a
  state to a response or an error; an address that does not parse is one of its errors.
\<close>

section \<open>Options\<close>

text \<open>\<open>Priority\<close> is an integer type with two named values.\<close>

definition sdk_Sheddable :: int where "sdk_Sheddable = 0"
definition sdk_Critical :: int where "sdk_Critical = 1"

definition headerValue :: "int \<Rightarrow> string" where
  "headerValue p = (if p = sdk_Critical then ''critical'' else ''sheddable'')"

record checkOptions =
  opt_cost :: int
  opt_hasCost :: bool
  opt_priority :: int
  opt_hasPriority :: bool
  opt_route :: string
  opt_hasRoute :: bool

datatype CheckOption = WithCost int | WithPriority int | WithRoute string

fun apply_option :: "CheckOption \<Rightarrow> checkOptions \<Rightarrow> checkOptions" where
  "apply_option (WithCost cost) opts = opts\<lparr>opt_cost := cost, opt_hasCost := True\<rparr>"
| "apply_option (WithPriority p) opts = opts\<lparr>opt_priority := p, opt_hasPriority := True\<rparr>"
| "apply_option (WithRoute route) opts = opts\<lparr>opt_route := route, opt_hasRoute := True\<rparr>"

definition applyCheckOptions :: "CheckOption list \<Rightarrow> checkOptions" where
  "applyCheckOptions opts = fold apply_option opts
    \<lparr>opt_cost = 0, opt_hasCost = False, opt_priority = 0, opt_hasPriority = False, opt_route = '''', opt_hasRoute = False\<rparr>"

definition request_Header_Set :: "string \<Rightarrow> string \<Rightarrow> client_request \<Rightarrow> client_request" where
  "request_Header_Set n v r = r\<lparr>cr_Header := set_field (CanonicalHeaderKey n) v (cr_Header r)\<rparr>"

definition applyToRequest :: "checkOptions \<Rightarrow> client_request \<Rightarrow> client_request" where
  "applyToRequest opts r =
    (let r1 = (if opt_hasCost opts then r\<lparr>cr_Query := set_field ''cost'' (Itoa (opt_cost opts)) (cr_Query r)\<rparr> else r);
         r2 = (if opt_hasPriority opts then request_Header_Set ''x-ratecap-priority'' (headerValue (opt_priority opts)) r1 else r1)
     in if opt_hasRoute opts then request_Header_Set ''x-ratecap-route'' (opt_route opts) r2 else r2)"

section \<open>Reading a response\<close>

definition response_Header_Get :: "http_response \<Rightarrow> string \<Rightarrow> string" where
  "response_Header_Get w n = (case header_of w n of None \<Rightarrow> '''' | Some v \<Rightarrow> v)"

definition header_int :: "http_response \<Rightarrow> string \<Rightarrow> int" where
  "header_int w n = (let v = response_Header_Get w n in if v \<noteq> '''' then ParseInt_value v else 0)"

record allow_result =
  ar_allowed :: bool
  ar_retryAfterMs :: int
  ar_rateLimitReset :: int
  ar_rateLimitLimit :: int
  ar_rateLimitRemaining :: int

record sdk_reservation =
  rv_key :: string
  rv_tok :: string

record Ticket =
  tk_Allowed :: bool
  tk_RetryAfterMs :: int
  tk_RateLimitReset :: int
  tk_RateLimitLimit :: int
  tk_RateLimitRemaining :: int
  tk_key :: string
  tk_reservations :: "sdk_reservation list"

text \<open>The loop over the numbered headers ends at the first token that is missing or empty.\<close>

partial_function (option) read_reservations :: "nat \<Rightarrow> http_response \<Rightarrow> sdk_reservation list \<Rightarrow> sdk_reservation list option" where
  "read_reservations i w reservations =
    (let tok = response_Header_Get w (''Concurrency-Token-'' @ Itoa (int i))
     in if tok = '''' then Some reservations
        else read_reservations (Suc i) w
          (reservations @ [\<lparr>rv_key = response_Header_Get w (''Concurrency-Key-'' @ Itoa (int i)), rv_tok = tok\<rparr>]))"

section \<open>The operations\<close>

type_synonym 's http_client = "client_request \<Rightarrow> 's \<Rightarrow> (go_error + http_response) \<times> 's"

text \<open>What becomes of one exchange: it takes place, its request is not sent, or its answer is lost.\<close>

datatype delivery = Delivered | NotSent go_error | AnswerLost go_error

definition over_network :: "delivery \<Rightarrow> 's http_client \<Rightarrow> 's http_client" where
  "over_network d http req s =
    (case d of Delivered \<Rightarrow> http req s | NotSent e \<Rightarrow> (Inl e, s) | AnswerLost e \<Rightarrow> (Inl e, snd (http req s)))"

text \<open>A client whose context has ended sends nothing.\<close>

definition with_context :: "bool \<Rightarrow> 's http_client \<Rightarrow> 's http_client" where
  "with_context ended = over_network (if ended then NotSent ''context canceled'' else Delivered)"

lemma with_context_simps [simp]:
  "with_context False http = http" "with_context True http req s = (Inl ''context canceled'', s)"
  by (auto simp: with_context_def over_network_def fun_eq_iff)

definition Allow_request :: "string \<Rightarrow> CheckOption list \<Rightarrow> client_request" where
  "Allow_request key opts = applyToRequest (applyCheckOptions opts)
    \<lparr>cr_Method = ''GET'', cr_Path = ''/check'', cr_Query = [(''key'', key), (''skip_reservations'', ''true'')], cr_Header = [], cr_Body = ''''\<rparr>"

definition sdk_Allow :: "'s http_client \<Rightarrow> string \<Rightarrow> CheckOption list \<Rightarrow> 's \<Rightarrow> (go_error + allow_result) \<times> 's" where
  "sdk_Allow http key opts s =
    (case http (Allow_request key opts) s of
       (Inl err, s1) \<Rightarrow> (Inl err, s1)
     | (Inr resp, s1) \<Rightarrow>
       (Inr (if status_of resp = 200
             then \<lparr>ar_allowed = True, ar_retryAfterMs = 0, ar_rateLimitReset = 0, ar_rateLimitLimit = 0, ar_rateLimitRemaining = 0\<rparr>
             else \<lparr>ar_allowed = False, ar_retryAfterMs = header_int resp ''Retry-After-Ms'',
               ar_rateLimitReset = header_int resp ''RateLimit-Reset'', ar_rateLimitLimit = header_int resp ''RateLimit-Limit'',
               ar_rateLimitRemaining = header_int resp ''RateLimit-Remaining''\<rparr>), s1))"

definition Acquire_request :: "string \<Rightarrow> CheckOption list \<Rightarrow> client_request" where
  "Acquire_request key opts = applyToRequest (applyCheckOptions opts)
    \<lparr>cr_Method = ''GET'', cr_Path = ''/check'', cr_Query = [(''key'', key)], cr_Header = [], cr_Body = ''''\<rparr>"

text \<open>\<open>None\<close>: the loop over the reservations does not end.\<close>

definition Acquire :: "'s http_client \<Rightarrow> string \<Rightarrow> CheckOption list \<Rightarrow> 's \<Rightarrow> (go_error + Ticket) option \<times> 's" where
  "Acquire http key opts s =
    (case http (Acquire_request key opts) s of
       (Inl err, s1) \<Rightarrow> (Some (Inl err), s1)
     | (Inr resp, s1) \<Rightarrow>
       (case read_reservations 0 resp [] of
          None \<Rightarrow> (None, s1)
        | Some reservations \<Rightarrow>
          (Some (Inr (if status_of resp = 200
             then \<lparr>tk_Allowed = True, tk_RetryAfterMs = 0, tk_RateLimitReset = 0, tk_RateLimitLimit = 0,
               tk_RateLimitRemaining = 0, tk_key = key, tk_reservations = reservations\<rparr>
             else \<lparr>tk_Allowed = False, tk_RetryAfterMs = header_int resp ''Retry-After-Ms'',
               tk_RateLimitReset = header_int resp ''RateLimit-Reset'', tk_RateLimitLimit = header_int resp ''RateLimit-Limit'',
               tk_RateLimitRemaining = header_int resp ''RateLimit-Remaining'', tk_key = key, tk_reservations = reservations\<rparr>)), s1)))"

definition release_request :: "sdk_reservation \<Rightarrow> client_request" where
  "release_request r =
    request_Header_Set ''X-RateCap-Concurrency-Token'' (rv_tok r)
      (request_Header_Set ''X-RateCap-Concurrency-Key'' (rv_key r)
        \<lparr>cr_Method = ''POST'', cr_Path = ''/release'', cr_Query = [], cr_Header = [], cr_Body = ''''\<rparr>)"

definition releaseOne :: "'s http_client \<Rightarrow> sdk_reservation \<Rightarrow> 's \<Rightarrow> go_error option \<times> 's" where
  "releaseOne http r s =
    (case http (release_request r) s of
       (Inl err, s1) \<Rightarrow> (Some err, s1)
     | (Inr resp, s1) \<Rightarrow>
       (if status_of resp \<noteq> 200 then (Some (''ratecap: release failed with status '' @ Itoa (status_of resp)), s1)
        else (None, s1)))"

text \<open>\<open>errors.Join\<close>: the errors that are not nil.\<close>

fun release_loop :: "'s http_client \<Rightarrow> sdk_reservation list \<Rightarrow> 's \<Rightarrow> go_error list \<times> 's" where
  "release_loop http [] s = ([], s)"
| "release_loop http (r # rs) s =
    (case releaseOne http r s of
       (err, s1) \<Rightarrow> (case release_loop http rs s1 of
         (errs, s2) \<Rightarrow> ((case err of None \<Rightarrow> errs | Some e \<Rightarrow> e # errs), s2)))"

definition Ticket_Release :: "'s http_client \<Rightarrow> Ticket \<Rightarrow> 's \<Rightarrow> go_error list \<times> 's" where
  "Ticket_Release http t s = release_loop http (tk_reservations t) s"

definition refund_request :: "string \<Rightarrow> int \<Rightarrow> client_request" where
  "refund_request key refundAmount =
    request_Header_Set ''X-RateCap-Refund-Amount'' (Itoa refundAmount)
      (request_Header_Set ''X-RateCap-Refund-Key'' key
        \<lparr>cr_Method = ''POST'', cr_Path = ''/release'', cr_Query = [], cr_Header = [], cr_Body = ''''\<rparr>)"

definition Ticket_Refund :: "'s http_client \<Rightarrow> Ticket \<Rightarrow> int \<Rightarrow> 's \<Rightarrow> go_error option \<times> 's" where
  "Ticket_Refund http t refundAmount s =
    (case http (refund_request (tk_key t) refundAmount) s of
       (Inl err, s1) \<Rightarrow> (Some err, s1)
     | (Inr resp, s1) \<Rightarrow>
       (if status_of resp \<noteq> 200 then (Some (''ratecap: refund failed with status '' @ Itoa (status_of resp)), s1)
        else (None, s1)))"

definition EstimateLLMCost :: "int \<Rightarrow> int \<Rightarrow> int" where
  "EstimateLLMCost inputTokens maxTokens =
    (let cost = int64 (inputTokens + maxTokens) in if cost < 0 then 0 else cost)"

section \<open>Header names\<close>

lemma to_upper_digit [simp]: "d < 10 \<Longrightarrow> to_upper (digit_char d) = digit_char d"
  by (simp add: to_upper_def digit_char_def)

lemma to_lower_digit [simp]: "d < 10 \<Longrightarrow> to_lower (digit_char d) = digit_char d"
  by (simp add: to_lower_def digit_char_def)

lemma canonical_digits: "\<forall>c \<in> set s. \<exists>d<10. c = digit_char d \<Longrightarrow> canonical_from up s = s"
proof (induction s arbitrary: up)
  case (Cons c s)
  then obtain d where "d < 10" "c = digit_char d" by auto
  then show ?case using Cons by (cases up) (auto simp: Let_def)
qed simp

lemma canonical_reservation:
  "CanonicalHeaderKey (''Concurrency-Token-'' @ Itoa (int i)) = ''Concurrency-Token-'' @ Itoa (int i)"
  "CanonicalHeaderKey (''Concurrency-Key-'' @ Itoa (int i)) = ''Concurrency-Key-'' @ Itoa (int i)"
proof -
  have "canonical_from up (Itoa (int i)) = Itoa (int i)" for up
    using digits_all[of _ i] by (intro canonical_digits) (auto simp: Itoa_def)
  then show "CanonicalHeaderKey (''Concurrency-Token-'' @ Itoa (int i)) = ''Concurrency-Token-'' @ Itoa (int i)"
    "CanonicalHeaderKey (''Concurrency-Key-'' @ Itoa (int i)) = ''Concurrency-Key-'' @ Itoa (int i)"
    by (simp_all add: canonical_eval)
qed

end
