(* ===== verification/CliBench.thy ===== *)
theory CliBench
  imports CliHistogram GoSdk
begin

text \<open>
  \<open>cli/cmd/bench_run.go\<close>: the benchmark.  \<open>issue\<close> is one request of a worker.  A run is a step relation:
  every worker and the reporter are programs over shared counters, each atomic operation is a step,
  the outcomes and latencies of requests, the ticker and the deadline are the environment.
\<close>

section \<open>Counters\<close>

datatype kind = Accepted | Rejected | Errored

record bench_counters =
  bc_accepted :: "64 word"
  bc_rejected :: "64 word"
  bc_errored :: "64 word"
  bc_hist :: histogram

definition newBenchCounters :: bench_counters where
  "newBenchCounters = \<lparr>bc_accepted = 0, bc_rejected = 0, bc_errored = 0, bc_hist = newHistogram\<rparr>"

fun counter :: "kind \<Rightarrow> bench_counters \<Rightarrow> 64 word" where
  "counter Accepted c = bc_accepted c"
| "counter Rejected c = bc_rejected c"
| "counter Errored c = bc_errored c"

fun set_counter :: "kind \<Rightarrow> 64 word \<Rightarrow> bench_counters \<Rightarrow> bench_counters" where
  "set_counter Accepted n c = c\<lparr>bc_accepted := n\<rparr>"
| "set_counter Rejected n c = c\<lparr>bc_rejected := n\<rparr>"
| "set_counter Errored n c = c\<lparr>bc_errored := n\<rparr>"

text \<open>\<open>record\<close> is an atomic addition and, for an accepted request, a sample of the histogram.\<close>

datatype record_op = Add kind | Sample int

definition record_ops :: "kind \<Rightarrow> int \<Rightarrow> record_op list" where
  "record_ops k elapsed = Add k # (if k = Accepted then [Sample elapsed] else [])"

fun record_exec :: "(dbl \<Rightarrow> dbl) \<Rightarrow> record_op \<Rightarrow> bench_counters \<Rightarrow> bench_counters outcome" where
  "record_exec Log (Add k) c = Done (set_counter k (counter k c + 1) c)"
| "record_exec Log (Sample elapsed) c =
    (case Record_latency Log elapsed (bc_hist c) of
       Done h \<Rightarrow> Done (c\<lparr>bc_hist := h\<rparr>)
     | Panicked m \<Rightarrow> Panicked m
     | Waiting \<Rightarrow> Waiting)"

text \<open>\<open>reportSnapshot\<close>: three swaps, two percentiles, a reset and the line.\<close>

datatype report_op = Swap kind | Read_p50 | Read_p99 | Reset_window | Print_line

record report_line =
  rl_count :: "kind \<Rightarrow> 64 word"
  rl_p50 :: dbl
  rl_p99 :: dbl

definition blank_line :: report_line where
  "blank_line = \<lparr>rl_count = (\<lambda>_. 0), rl_p50 = Fin 0, rl_p99 = Fin 0\<rparr>"

definition reportSnapshot :: "report_op list" where
  "reportSnapshot = [Swap Accepted, Swap Rejected, Swap Errored, Read_p50, Read_p99, Reset_window, Print_line]"

fun report_exec ::
  "(dbl \<Rightarrow> dbl \<Rightarrow> dbl) \<Rightarrow> report_op \<Rightarrow> bench_counters \<times> report_line \<times> report_line list \<Rightarrow>
   bench_counters \<times> report_line \<times> report_line list" where
  "report_exec pw (Swap k) (c, l, ls) = (set_counter k 0 c, l\<lparr>rl_count := (rl_count l)(k := counter k c)\<rparr>, ls)"
| "report_exec pw Read_p50 (c, l, ls) = (c, l\<lparr>rl_p50 := Percentile pw (Fin (1 / 2)) (bc_hist c)\<rparr>, ls)"
| "report_exec pw Read_p99 (c, l, ls) = (c, l\<lparr>rl_p99 := Percentile pw (Fin (fl (99 / 100))) (bc_hist c)\<rparr>, ls)"
| "report_exec pw Reset_window (c, l, ls) = (c\<lparr>bc_hist := Reset_histogram (bc_hist c)\<rparr>, l, ls)"
| "report_exec pw Print_line (c, l, ls) = (c, blank_line, ls @ [l])"

section \<open>One request\<close>

record bench_config =
  keyPrefix :: string
  useAcquire :: bool
  sharedKey :: bool

definition bench_key :: "bench_config \<Rightarrow> int \<Rightarrow> int \<Rightarrow> string" where
  "bench_key cfg workerID sq =
    (if sharedKey cfg then keyPrefix cfg else keyPrefix cfg @ ''-'' @ Itoa workerID @ ''-'' @ Itoa sq)"

text \<open>The call to the sidecar; \<open>None\<close> as in \<open>Acquire\<close>.  An acquired ticket is released, its errors ignored;
  \<open>ended\<close>: the context of the run, which with \<open>--duration\<close> has a deadline, has ended by then.\<close>

definition issue_call :: "'s http_client \<Rightarrow> bench_config \<Rightarrow> bool \<Rightarrow> string \<Rightarrow> 's \<Rightarrow> kind option \<times> 's" where
  "issue_call http cfg ended key s =
    (if useAcquire cfg then
       (case Acquire http key [] s of
          (None, s1) \<Rightarrow> (None, s1)
        | (Some (Inl err), s1) \<Rightarrow> (Some Errored, s1)
        | (Some (Inr ticket), s1) \<Rightarrow>
          (Some (if tk_Allowed ticket then Accepted else Rejected), snd (Ticket_Release (with_context ended http) ticket s1)))
     else
       (case sdk_Allow http key [] s of
          (Inl err, s1) \<Rightarrow> (Some Errored, s1)
        | (Inr r, s1) \<Rightarrow> (Some (if ar_allowed r then Accepted else Rejected), s1)))"

text \<open>\<open>wait_err\<close>: a limiter is set and the context ended while waiting for it; the request is skipped.
  The result is what is recorded, in the cumulative counters and then in the window's.\<close>

definition issue ::
  "'s http_client \<Rightarrow> bench_config \<Rightarrow> bool \<Rightarrow> bool \<Rightarrow> int \<Rightarrow> int \<Rightarrow> int \<Rightarrow> 's \<Rightarrow> (kind \<times> int) option \<times> 's" where
  "issue http cfg wait_err ended workerID sq elapsed s =
    (if wait_err then (None, s)
     else (case issue_call http cfg ended (bench_key cfg workerID sq) s of
             (None, s1) \<Rightarrow> (None, s1)
           | (Some k, s1) \<Rightarrow> (Some (k, elapsed), s1)))"

datatype target = Cumulative | Window

definition issue_records :: "bool \<Rightarrow> (kind \<times> int) option \<Rightarrow> (target \<times> record_op) list" where
  "issue_records windowed r =
    (case r of None \<Rightarrow> []
     | Some (k, elapsed) \<Rightarrow>
       map (Pair Cumulative) (record_ops k elapsed) @ (if windowed then map (Pair Window) (record_ops k elapsed) else []))"

section \<open>A run\<close>

text \<open>A worker is about to take a request (with its next sequence number), is waiting for the answer,
  is recording it, or has returned.\<close>

datatype worker = Taking int | Issuing int | Recording int "(target \<times> record_op) list" | Returned

text \<open>\<open>jobs\<close> is the channel of a run of a fixed number of requests; a run for a duration has none, but a
  window and a reporter, which is between two snapshots when it has nothing to do.  \<open>issued\<close> is a
  ghost: who issued what with which result.\<close>

record bench =
  cumulative :: bench_counters
  window :: "bench_counters option"
  workers :: "worker list"
  jobs :: "int list option"
  limited :: bool
  deadline :: bool
  reporter :: "report_op list option"
  line :: report_line
  printed :: "report_line list"
  issued :: "(nat \<times> int \<times> (kind \<times> int) option) list"

definition runBenchFixedRequests :: "bool \<Rightarrow> int \<Rightarrow> int \<Rightarrow> bench outcome" where
  "runBenchFixedRequests paced concurrency requests =
    (if requests < 0 then Panicked ''makechan: size out of range''
     else Done \<lparr>cumulative = newBenchCounters, window = None, workers = replicate (nat concurrency) (Taking 0),
       jobs = Some [0..requests - 1], limited = paced, deadline = False, reporter = None, line = blank_line,
       printed = [], issued = []\<rparr>)"

text \<open>A ticker needs a positive interval: the goroutine of the reporter panics without one, which ends the
  process.\<close>

definition runBenchDuration :: "bool \<Rightarrow> int \<Rightarrow> int \<Rightarrow> bench outcome" where
  "runBenchDuration paced concurrency reportInterval =
    (if reportInterval \<le> 0 then Panicked ''non-positive interval for NewTicker''
     else Done \<lparr>cumulative = newBenchCounters, window = Some newBenchCounters, workers = replicate (nat concurrency) (Taking 0),
       jobs = None, limited = paced, deadline = False, reporter = Some [], line = blank_line,
       printed = [], issued = []\<rparr>)"

definition runBench :: "dbl \<Rightarrow> int \<Rightarrow> int \<Rightarrow> int \<Rightarrow> int \<Rightarrow> bench outcome" where
  "runBench qps concurrency requests duration reportInterval =
    (let paced = dlt (Fin 0) qps
     in if 0 < duration then runBenchDuration paced concurrency reportInterval
        else runBenchFixedRequests paced concurrency requests)"

definition set_worker :: "nat \<Rightarrow> worker \<Rightarrow> bench \<Rightarrow> bench" where
  "set_worker w x b = b\<lparr>workers := (workers b)[w := x]\<rparr>"

inductive bench_step :: "(dbl \<Rightarrow> dbl) \<Rightarrow> (dbl \<Rightarrow> dbl \<Rightarrow> dbl) \<Rightarrow> bench \<Rightarrow> bench \<Rightarrow> bool" for Log pw where
  take_job: "w < length (workers b) \<Longrightarrow> workers b ! w = Taking n \<Longrightarrow> jobs b = Some (j # js) \<Longrightarrow>
    bench_step Log pw b (set_worker w (Issuing j) b\<lparr>jobs := Some js\<rparr>)"
| jobs_drained: "w < length (workers b) \<Longrightarrow> workers b ! w = Taking n \<Longrightarrow> jobs b = Some [] \<Longrightarrow>
    bench_step Log pw b (set_worker w Returned b)"
| next_request: "w < length (workers b) \<Longrightarrow> workers b ! w = Taking n \<Longrightarrow> jobs b = None \<Longrightarrow> \<not> deadline b \<Longrightarrow>
    bench_step Log pw b (set_worker w (Issuing n) b)"
| deadline_seen: "w < length (workers b) \<Longrightarrow> workers b ! w = Taking n \<Longrightarrow> jobs b = None \<Longrightarrow> deadline b \<Longrightarrow>
    bench_step Log pw b (set_worker w Returned b)"
| answered: "w < length (workers b) \<Longrightarrow> workers b ! w = Issuing n \<Longrightarrow> r \<noteq> None \<or> limited b \<Longrightarrow>
    bench_step Log pw b (set_worker w (Recording n (issue_records (window b \<noteq> None) r)) b
      \<lparr>issued := (w, n, r) # issued b\<rparr>)"
| record_cumulative: "w < length (workers b) \<Longrightarrow> workers b ! w = Recording n ((Cumulative, p) # ps) \<Longrightarrow>
    record_exec Log p (cumulative b) = Done c \<Longrightarrow>
    bench_step Log pw b (set_worker w (Recording n ps) b\<lparr>cumulative := c\<rparr>)"
| record_window: "w < length (workers b) \<Longrightarrow> workers b ! w = Recording n ((Window, p) # ps) \<Longrightarrow> window b = Some c0 \<Longrightarrow>
    record_exec Log p c0 = Done c \<Longrightarrow>
    bench_step Log pw b (set_worker w (Recording n ps) b\<lparr>window := Some c\<rparr>)"
| recorded: "w < length (workers b) \<Longrightarrow> workers b ! w = Recording n [] \<Longrightarrow>
    bench_step Log pw b (set_worker w (Taking (n + 1)) b)"
| time_up: "jobs b = None \<Longrightarrow> \<not> deadline b \<Longrightarrow> bench_step Log pw b (b\<lparr>deadline := True\<rparr>)"
| tick: "reporter b = Some [] \<Longrightarrow> bench_step Log pw b (b\<lparr>reporter := Some reportSnapshot\<rparr>)"
| report: "reporter b = Some (p # ps) \<Longrightarrow> window b = Some c0 \<Longrightarrow>
    report_exec pw p (c0, line b, printed b) = (c, l, ls) \<Longrightarrow>
    bench_step Log pw b (b\<lparr>reporter := Some ps, window := Some c, line := l, printed := ls\<rparr>)"
| report_stop: "reporter b = Some [] \<Longrightarrow> deadline b \<Longrightarrow> bench_step Log pw b (b\<lparr>reporter := None\<rparr>)"

text \<open>\<open>runBench\<close> returns when the workers and the reporter have, with the cumulative counters.\<close>

definition bench_returned :: "bench \<Rightarrow> bool" where
  "bench_returned b \<longleftrightarrow> list_all (\<lambda>x. x = Returned) (workers b) \<and> reporter b = None"

record bench_result =
  TotalRequests :: int
  br_Accepted :: int
  br_Rejected :: int
  br_Errored :: int
  ElapsedMs :: int
  ThroughputRPS :: dbl
  P50Ms :: dbl
  P99Ms :: dbl
  P999Ms :: dbl
  SharedKey :: bool

definition runBench_result :: "(dbl \<Rightarrow> dbl \<Rightarrow> dbl) \<Rightarrow> bench_config \<Rightarrow> int \<Rightarrow> bench \<Rightarrow> bench_result" where
  "runBench_result pw cfg totalElapsed b =
    (let accepted = bc_accepted (cumulative b); rejected = bc_rejected (cumulative b); errored = bc_errored (cumulative b);
         total = accepted + rejected + errored
     in \<lparr>TotalRequests = sint total, br_Accepted = sint accepted, br_Rejected = sint rejected, br_Errored = sint errored,
         ElapsedMs = totalElapsed sdiv 1000000, ThroughputRPS = ddiv (of_int_dbl (uint total)) (Seconds totalElapsed),
         P50Ms = Percentile pw (Fin (1 / 2)) (bc_hist (cumulative b)),
         P99Ms = Percentile pw (Fin (fl (99 / 100))) (bc_hist (cumulative b)),
         P999Ms = Percentile pw (Fin (fl (999 / 1000))) (bc_hist (cumulative b)),
         SharedKey = sharedKey cfg\<rparr>)"

end
