(* ===== verification/CliBenchProps.thy ===== *)
theory CliBenchProps
  imports CliBench
begin

text \<open>
  Runs of the benchmark, in every interleaving of its workers and its reporter: a fixed number of
  requests is issued exactly once each and the run ends; the windows of a run for a duration add up
  to its totals.
\<close>

section \<open>Sums over the workers\<close>

lemma sum_list_map_update:
  "w < length xs \<Longrightarrow> sum_list (map f (xs[w := x])) + f (xs ! w) = sum_list (map f xs) + (f x :: 'a :: comm_monoid_add)"
proof (induction xs arbitrary: w)
  case (Cons a xs)
  then show ?case by (cases w) (auto simp: ac_simps)
qed simp

definition wsum :: "(worker \<Rightarrow> 'a :: comm_monoid_add) \<Rightarrow> bench \<Rightarrow> 'a" where
  "wsum f b = sum_list (map f (workers b))"

lemma wsum_set:
  "w < length (workers b) \<Longrightarrow> workers b ! w = y \<Longrightarrow> wsum f (set_worker w x b) + f y = wsum f b + f x"
  using sum_list_map_update[of w "workers b" f x] by (simp add: wsum_def set_worker_def)

lemma set_worker_simps [simp]:
  "cumulative (set_worker w x b) = cumulative b" "window (set_worker w x b) = window b" "jobs (set_worker w x b) = jobs b"
  "limited (set_worker w x b) = limited b" "deadline (set_worker w x b) = deadline b" "reporter (set_worker w x b) = reporter b"
  "line (set_worker w x b) = line b" "printed (set_worker w x b) = printed b" "issued (set_worker w x b) = issued b"
  by (simp_all add: set_worker_def)

lemma wsum_simps [simp]:
  "wsum f (b\<lparr>cumulative := c\<rparr>) = wsum f b" "wsum f (b\<lparr>window := cw\<rparr>) = wsum f b" "wsum f (b\<lparr>jobs := js\<rparr>) = wsum f b"
  "wsum f (b\<lparr>deadline := d\<rparr>) = wsum f b" "wsum f (b\<lparr>reporter := r\<rparr>) = wsum f b" "wsum f (b\<lparr>line := l\<rparr>) = wsum f b"
  "wsum f (b\<lparr>printed := ls\<rparr>) = wsum f b" "wsum f (b\<lparr>issued := xs\<rparr>) = wsum f b"
  by (simp_all add: wsum_def)

section \<open>What is still to be recorded\<close>

fun ops_left :: "target \<Rightarrow> kind \<Rightarrow> worker \<Rightarrow> nat" where
  "ops_left t k (Recording n ps) = count_list ps (t, Add k)"
| "ops_left t k _ = 0"

definition unrecorded :: "target \<Rightarrow> kind \<Rightarrow> bench \<Rightarrow> nat" where
  "unrecorded t k b = wsum (ops_left t k) b"

definition issued_as :: "kind \<Rightarrow> bench \<Rightarrow> nat" where
  "issued_as k b = length (filter (\<lambda>(w, n, r). map_option fst r = Some k) (issued b))"

lemma ops_left_issue:
  "ops_left Cumulative k (Recording n (issue_records win r)) = (if map_option fst r = Some k then 1 else 0)"
  "ops_left Window k (Recording n (issue_records win r)) = (if win \<and> map_option fst r = Some k then 1 else 0)"
  by (auto simp: issue_records_def record_ops_def split: option.split)

lemma counter_set [simp]: "counter k (set_counter k' n c) = (if k = k' then n else counter k c)"
  by (cases k; cases k') auto

lemma record_exec_counter:
  "record_exec Log p c = Done c' \<Longrightarrow> counter k c' = counter k c + (if p = Add k then 1 else 0)"
proof (cases p)
  case (Add k')
  moreover assume "record_exec Log p c = Done c'"
  ultimately show ?thesis by (auto simp del: counter.simps)
qed (cases k; auto split: outcome.splits)

lemma counter_hist [simp]: "counter k (c\<lparr>bc_hist := h\<rparr>) = counter k c"
  by (cases k) auto

lemma wsum_same:
  "w < length (workers b) \<Longrightarrow> f (workers b ! w) = f x \<Longrightarrow> wsum f (set_worker w x b) = (wsum f b :: 'a :: cancel_comm_monoid_add)"
  using wsum_set[of w b "workers b ! w" f x] by simp

text \<open>The totals: what was issued is counted or still to be counted.\<close>

lemma cumulative_exact:
  assumes "bench_step Log pw b b'"
    and "counter k (cumulative b) + of_nat (unrecorded Cumulative k b) = of_nat (issued_as k b)"
  shows "counter k (cumulative b') + of_nat (unrecorded Cumulative k b') = of_nat (issued_as k b')"
  using assms(1)
proof cases
  case (answered w n r)
  then show ?thesis
    using assms(2) ops_left_issue(1)[of k n "window b \<noteq> None" r]
      wsum_set[of w b "Issuing n" "ops_left Cumulative k" "Recording n (issue_records (window b \<noteq> None) r)"]
    by (auto simp: unrecorded_def issued_as_def)
next
  case (record_cumulative w n p ps c)
  then show ?thesis
    using assms(2) record_exec_counter[of Log p "cumulative b" c k]
      wsum_set[of w b "Recording n ((Cumulative, p) # ps)" "ops_left Cumulative k" "Recording n ps"]
    by (auto simp: unrecorded_def issued_as_def algebra_simps split: if_splits simp flip: of_nat_Suc)
qed (use assms(2) in \<open>auto simp: unrecorded_def issued_as_def wsum_same\<close>)

text \<open>The windows: what was issued is in a line printed or being made, in the window, or still to be
  counted there.\<close>

definition in_windows :: "kind \<Rightarrow> bench \<Rightarrow> 64 word" where
  "in_windows k b = sum_list (map (\<lambda>l. rl_count l k) (printed b)) + rl_count (line b) k +
    (case window b of None \<Rightarrow> 0 | Some c \<Rightarrow> counter k c)"

text \<open>The reporter is somewhere in a snapshot, with a line that is blank where it has not swapped yet.\<close>

definition reporter_ok :: "bench \<Rightarrow> bool" where
  "reporter_ok b \<longleftrightarrow> window b \<noteq> None \<and>
    (case reporter b of None \<Rightarrow> line b = blank_line
     | Some ps \<Rightarrow> (\<exists>i. ps = drop i reportSnapshot) \<and> (ps = [] \<longrightarrow> line b = blank_line) \<and>
        (\<forall>k. Swap k \<in> set ps \<longrightarrow> rl_count (line b) k = 0))"

lemma snapshot_drop:
  assumes "p # ps = drop i reportSnapshot"
  shows "ps = drop (Suc i) reportSnapshot" "p \<notin> set ps" "ps = [] \<longleftrightarrow> p = Print_line"
proof -
  have i: "i < length reportSnapshot" using assms by (metis drop_eq_Nil2 linorder_not_le list.distinct(1))
  then show "ps = drop (Suc i) reportSnapshot" using assms by (simp add: Cons_nth_drop_Suc[symmetric])
  moreover have "p = reportSnapshot ! i" using assms i by (simp add: Cons_nth_drop_Suc[symmetric])
  moreover have "i \<in> {0, 1, 2, 3, 4, 5, 6}" using i by (auto simp: reportSnapshot_def)
  ultimately show "p \<notin> set ps" "ps = [] \<longleftrightarrow> p = Print_line" by (auto simp: reportSnapshot_def)
qed

lemma reporter_ok_step: "bench_step Log pw b b' \<Longrightarrow> reporter_ok b \<Longrightarrow> reporter_ok b'"
proof (cases rule: bench_step.cases, assumption)
  fix p ps c0 c l ls
  assume ok: "reporter_ok b" and r: "reporter b = Some (p # ps)" "report_exec pw p (c0, line b, printed b) = (c, l, ls)"
    "b' = b\<lparr>reporter := Some ps, window := Some c, line := l, printed := ls\<rparr>"
  obtain i where i: "p # ps = drop i reportSnapshot" using ok r(1) by (auto simp: reporter_ok_def)
  show "reporter_ok b'" using ok r snapshot_drop[OF i]
    by (cases p) (auto simp: reporter_ok_def blank_line_def)
qed (auto simp: reporter_ok_def reportSnapshot_def blank_line_def intro: exI[of _ 0] split: option.splits)

lemma report_keeps:
  assumes "report_exec pw p (c0, l0, ls0) = (c, l, ls)" "p = Swap k \<Longrightarrow> rl_count l0 k = 0"
  shows "sum_list (map (\<lambda>l. rl_count l k) ls) + rl_count l k + counter k c =
    sum_list (map (\<lambda>l. rl_count l k) ls0) + rl_count l0 k + counter k c0"
  using assms by (cases p) (auto simp: blank_line_def)

lemma windows_exact:
  assumes "bench_step Log pw b b'" "reporter_ok b"
    and "in_windows k b + of_nat (unrecorded Window k b) = of_nat (issued_as k b)"
  shows "in_windows k b' + of_nat (unrecorded Window k b') = of_nat (issued_as k b')"
  using assms(1)
proof cases
  case (answered w n r)
  then show ?thesis
    using assms(2,3) ops_left_issue(2)[of k n "window b \<noteq> None" r]
      wsum_set[of w b "Issuing n" "ops_left Window k" "Recording n (issue_records (window b \<noteq> None) r)"]
    by (auto simp: unrecorded_def issued_as_def in_windows_def reporter_ok_def algebra_simps)
next
  case (record_window w n p ps c0 c)
  then show ?thesis
    using assms(3) record_exec_counter[of Log p c0 c k]
      wsum_set[of w b "Recording n ((Window, p) # ps)" "ops_left Window k" "Recording n ps", symmetric]
    by (auto simp: unrecorded_def issued_as_def in_windows_def algebra_simps split: if_splits)
next
  case (report p ps c0 c l ls)
  then have "rl_count (line b) k = 0" if "p = Swap k" using assms(2) that by (auto simp: reporter_ok_def)
  from report_keeps[OF report(4) this] show ?thesis
    using assms(3) report by (simp add: unrecorded_def issued_as_def in_windows_def algebra_simps)
qed (use assms(3) in \<open>auto simp: unrecorded_def issued_as_def in_windows_def wsum_same\<close>)

text \<open>A started run has recorded nothing.\<close>

definition nothing_yet :: "bench \<Rightarrow> bool" where
  "nothing_yet b \<longleftrightarrow> (\<forall>t k. unrecorded t k b = 0) \<and> (\<forall>k. issued_as k b = 0 \<and> counter k (cumulative b) = 0 \<and> in_windows k b = 0)"

lemma new_counters [simp]: "counter k newBenchCounters = 0"
  by (cases k) (simp_all add: newBenchCounters_def)

lemma started_empty:
  "runBenchFixedRequests paced c r = Done b \<Longrightarrow> nothing_yet b"
  "runBenchDuration paced c i = Done b \<Longrightarrow> nothing_yet b \<and> reporter_ok b"
proof -
  have "sum_list (map f (replicate n (Taking 0))) = 0" if "f (Taking 0) = 0" for f :: "worker \<Rightarrow> nat" and n
    using that by (induction n) auto
  then show "runBenchFixedRequests paced c r = Done b \<Longrightarrow> nothing_yet b"
    "runBenchDuration paced c i = Done b \<Longrightarrow> nothing_yet b \<and> reporter_ok b"
    by (auto simp: runBenchFixedRequests_def runBenchDuration_def nothing_yet_def unrecorded_def wsum_def issued_as_def
        in_windows_def blank_line_def reporter_ok_def reportSnapshot_def intro: exI[of _ 7] split: if_splits)
qed

lemma totals_reachable:
  "(bench_step Log pw)\<^sup>*\<^sup>* b0 b \<Longrightarrow> nothing_yet b0 \<Longrightarrow>
    counter k (cumulative b) + of_nat (unrecorded Cumulative k b) = of_nat (issued_as k b)"
  by (induction rule: rtranclp_induct) (auto simp: nothing_yet_def dest: cumulative_exact)

lemma all_returned: "list_all (\<lambda>x. x = Returned) (workers b) \<Longrightarrow> f Returned = 0 \<Longrightarrow> wsum f b = 0"
proof -
  have "list_all (\<lambda>x. x = Returned) ws \<Longrightarrow> f Returned = 0 \<Longrightarrow> sum_list (map f ws) = 0" for ws
    by (induction ws) auto
  then show "list_all (\<lambda>x. x = Returned) (workers b) \<Longrightarrow> f Returned = 0 \<Longrightarrow> wsum f b = 0" by (simp add: wsum_def)
qed

text \<open>
  C18: In a benchmark for a duration, whatever the interleaving of the workers, the reporter and the
  deadline: of each kind, the requests that were answered are those the printed lines show, the line
  being made holds, the window counts and a worker is about to count there; and they are those the
  totals show or a worker is about to add.  When the run returns nothing is outstanding: the totals
  are exact, and the printed lines lack exactly the last window.
\<close>

theorem windows_add_up:
  assumes "runBenchDuration paced concurrency reportInterval = Done b0" "(bench_step Log pw)\<^sup>*\<^sup>* b0 b"
  shows "in_windows k b + of_nat (unrecorded Window k b) = of_nat (issued_as k b) \<and>
    counter k (cumulative b) + of_nat (unrecorded Cumulative k b) = of_nat (issued_as k b) \<and>
    (if bench_returned b
     then counter k (cumulative b) = of_nat (issued_as k b) \<and>
       sum_list (map (\<lambda>l. rl_count l k) (printed b)) + (case window b of None \<Rightarrow> 0 | Some c \<Rightarrow> counter k c) = counter k (cumulative b)
     else True)"
proof -
  have start: "nothing_yet b0" "reporter_ok b0" using started_empty(2)[OF assms(1)] by auto
  have "reporter_ok b \<and> in_windows k b + of_nat (unrecorded Window k b) = of_nat (issued_as k b)"
    using assms(2)
  proof (induction rule: rtranclp_induct)
    case base
    then show ?case using start by (simp add: nothing_yet_def)
  next
    case (step y z)
    then show ?case using reporter_ok_step windows_exact by blast
  qed
  moreover have "unrecorded t k b = 0" if "bench_returned b" for t
    using that unfolding unrecorded_def bench_returned_def by (intro all_returned) auto
  moreover have "line b = blank_line" if "bench_returned b" "reporter_ok b"
    using that by (simp add: bench_returned_def reporter_ok_def)
  ultimately show ?thesis using totals_reachable[OF assms(2) start(1), of k]
    by (auto simp: in_windows_def blank_line_def)
qed

section \<open>Runs of a fixed number of requests\<close>

fun in_flight :: "worker \<Rightarrow> int multiset" where
  "in_flight (Issuing n) = {#n#}"
| "in_flight _ = {#}"

fun steps_left :: "worker \<Rightarrow> nat" where
  "steps_left (Taking n) = 1"
| "steps_left (Issuing n) = 5"
| "steps_left (Recording n ps) = 2 + length ps"
| "steps_left Returned = 0"

definition answered_requests :: "bench \<Rightarrow> int multiset" where
  "answered_requests b = mset (map (\<lambda>(w, n, r). n) (issued b))"

fun worker_ok :: "int list \<Rightarrow> worker \<Rightarrow> bool" where
  "worker_ok js (Recording n ps) \<longleftrightarrow> list_all (\<lambda>(t, p). t = Cumulative) ps"
| "worker_ok js Returned \<longleftrightarrow> js = []"
| "worker_ok js _ \<longleftrightarrow> True"

definition fixed_ok :: "int multiset \<Rightarrow> bench \<Rightarrow> bool" where
  "fixed_ok N b \<longleftrightarrow> window b = None \<and> reporter b = None \<and>
    (\<exists>js. jobs b = Some js \<and> mset js + wsum in_flight b + answered_requests b = N \<and> list_all (worker_ok js) (workers b)) \<and>
    (\<exists>xs. counts_of (bc_hist (cumulative b)) xs) \<and>
    list_all (\<lambda>(w, n, r). r \<noteq> None \<or> limited b) (issued b)"

definition run_measure :: "bench \<Rightarrow> nat" where
  "run_measure b = 5 * length (the (jobs b)) + wsum steps_left b"

lemma workers_ok_update:
  "list_all P ws \<Longrightarrow> P x \<Longrightarrow> list_all P (ws[w := x])"
  by (auto simp: list_all_iff dest!: set_update_subset_insert[THEN subsetD])

lemma workers_set_worker [simp]: "workers (set_worker w x b) = (workers b)[w := x]"
  by (simp add: set_worker_def)

lemma records_unwindowed:
  "list_all (\<lambda>(t, p). t = Cumulative) (issue_records False r)" "length (issue_records False r) \<le> 2"
  by (auto simp: issue_records_def record_ops_def split: option.split)

lemma record_exec_counts:
  assumes "log_laws Log" "counts_of (bc_hist c) xs"
  obtains c' ys where "record_exec Log p c = Done c'" "counts_of (bc_hist c') ys"
proof (cases p)
  case (Add k)
  then show thesis using assms(2) by (cases k) (auto intro: that)
next
  case (Sample d)
  obtain h where "Record_latency Log d (bc_hist c) = Done h" "counts_of h (latency_bucket Log d # xs)"
    by (rule Record_counts[OF assms])
  then show thesis using Sample by (auto intro: that)
qed

lemma fixed_step:
  assumes "log_laws Log" "bench_step Log pw b b'" "fixed_ok N b"
  shows "fixed_ok N b' \<and> run_measure b' < run_measure b"
  using assms(2)
proof cases
  case (take_job w n j js)
  have "list_all (worker_ok js) (workers b)" using assms(3) take_job(4)
    by (fastforce simp: fixed_ok_def list_all_iff elim: worker_ok.elims)
  then show ?thesis
    using assms(3) take_job wsum_set[of w b "Taking n" in_flight "Issuing j"] wsum_set[of w b "Taking n" steps_left "Issuing j"]
    by (auto simp: fixed_ok_def answered_requests_def run_measure_def workers_ok_update)
next
  case (jobs_drained w n)
  then show ?thesis
    using assms(3) wsum_set[of w b "Taking n" steps_left Returned]
    by (auto simp: fixed_ok_def answered_requests_def run_measure_def workers_ok_update wsum_same)
next
  case (answered w n r)
  have "window b = None" using assms(3) by (simp add: fixed_ok_def)
  then show ?thesis
    using assms(3) answered records_unwindowed[of r] wsum_set[of w b "Issuing n" in_flight "Recording n (issue_records False r)"]
      wsum_set[of w b "Issuing n" steps_left "Recording n (issue_records False r)"]
    by (auto simp: fixed_ok_def answered_requests_def run_measure_def workers_ok_update)
next
  case (record_cumulative w n p ps c)
  have "worker_ok js (Recording n ps)" if "list_all (worker_ok js) (workers b)" for js
    using that record_cumulative(2,3) by (metis list_all_length list.pred_inject(2) worker_ok.simps(1))
  moreover obtain xs where "counts_of (bc_hist c) xs"
    using assms(3) record_exec_counts[OF assms(1), of "cumulative b"] record_cumulative(4)
    by (metis fixed_ok_def outcome.inject(1))
  ultimately show ?thesis
    using assms(3) record_cumulative wsum_set[of w b "Recording n ((Cumulative, p) # ps)" steps_left "Recording n ps"]
    by (auto simp: fixed_ok_def answered_requests_def run_measure_def workers_ok_update wsum_same)
next
  case (recorded w n)
  then show ?thesis
    using assms(3) wsum_set[of w b "Recording n []" steps_left "Taking (n + 1)"]
    by (auto simp: fixed_ok_def answered_requests_def run_measure_def workers_ok_update wsum_same)
qed (use assms(3) in \<open>auto simp: fixed_ok_def\<close>)

lemma fixed_progress:
  assumes "log_laws Log" "fixed_ok N b" "\<not> bench_returned b"
  shows "\<exists>b'. bench_step Log pw b b'"
proof -
  obtain js where js: "jobs b = Some js" "list_all (worker_ok js) (workers b)" using assms(2) by (auto simp: fixed_ok_def)
  obtain w where w: "w < length (workers b)" "workers b ! w \<noteq> Returned"
    using assms(2,3) by (auto simp: bench_returned_def fixed_ok_def list_all_length)
  show ?thesis
  proof (cases "workers b ! w")
    case (Taking n)
    then show ?thesis using w js by (cases js) (blast intro: take_job jobs_drained)+
  next
    case (Issuing n)
    then show ?thesis using w answered[of w b n "Some (Accepted, 0)"] by blast
  next
    case (Recording n ps)
    show ?thesis
    proof (cases ps)
      case Nil
      then show ?thesis using w Recording by (blast intro: recorded)
    next
      case (Cons q qs)
      obtain p where q: "q = (Cumulative, p)"
      proof -
        have "worker_ok js (Recording n ps)" using js(2) w(1) Recording by (metis list_all_length)
        then show thesis using Cons by (cases q) (auto intro: that)
      qed
      obtain xs where "counts_of (bc_hist (cumulative b)) xs" using assms(2) by (auto simp: fixed_ok_def)
      then obtain c where "record_exec Log p (cumulative b) = Done c" by (rule record_exec_counts[OF assms(1)])
      then show ?thesis using w Recording Cons q by (blast intro: record_cumulative)
    qed
  qed (use w in simp)
qed

lemma returned_stops:
  assumes "bench_returned b" "jobs b \<noteq> None"
  shows "\<not> bench_step Log pw b b'"
proof
  have R: "w < length (workers b) \<Longrightarrow> workers b ! w = x \<Longrightarrow> x = Returned" for w x
    using assms(1) by (auto simp: bench_returned_def list_all_length)
  assume "bench_step Log pw b b'"
  then show False using assms by cases (auto simp: bench_returned_def dest: R)
qed

lemma fixed_start:
  assumes "runBenchFixedRequests paced concurrency requests = Done b0"
  shows "fixed_ok (mset [0..requests - 1]) b0" "run_measure b0 \<le> 5 * nat requests + nat concurrency"
    "length (workers b0) = nat concurrency" "limited b0 = paced" "0 \<le> requests"
proof -
  have "sum_list (map f (replicate n (Taking 0))) = {#}" if "f (Taking 0) = {#}" for f :: "worker \<Rightarrow> int multiset" and n
    using that by (induction n) auto
  moreover have "sum_list (map steps_left (replicate n (Taking 0))) = n" for n by (induction n) auto
  ultimately show "fixed_ok (mset [0..requests - 1]) b0" "run_measure b0 \<le> 5 * nat requests + nat concurrency"
    "length (workers b0) = nat concurrency" "limited b0 = paced" "0 \<le> requests"
    using assms counts_of_new
    by (auto simp: runBenchFixedRequests_def fixed_ok_def wsum_def answered_requests_def run_measure_def newBenchCounters_def
        list_all_iff split: if_splits)
qed

lemma fixed_run:
  assumes "log_laws Log" "(bench_step Log pw ^^ n) b0 b" "fixed_ok N b0"
  shows "fixed_ok N b \<and> run_measure b + n \<le> run_measure b0 \<and> length (workers b) = length (workers b0) \<and> limited b = limited b0"
  using assms(2)
proof (induction n arbitrary: b)
  case (Suc n)
  then obtain y where y: "(bench_step Log pw ^^ n) b0 y" "bench_step Log pw y b" by auto
  from y(2) have "length (workers b) = length (workers y)" "limited b = limited y" by (cases; simp)+
  then show ?case using Suc.IH[OF y(1)] fixed_step[OF assms(1) y(2)] by fastforce
qed (use assms(3) in simp)

lemma issued_kinds:
  "list_all (\<lambda>(w, n, r). r \<noteq> None) xs \<Longrightarrow> length xs = length (filter (\<lambda>(w, n, r). map_option fst r = Some Accepted) xs) +
    length (filter (\<lambda>(w, n, r). map_option fst r = Some Rejected) xs) + length (filter (\<lambda>(w, n, r). map_option fst r = Some Errored) xs)"
proof (induction xs)
  case (Cons x xs)
  obtain w n k d where x: "x = (w, n, Some (k, d))" using Cons.prems by (cases x) auto
  show ?case using Cons by (cases k) (auto simp: x)
qed simp

text \<open>
  C17: A benchmark of a fixed number of requests ends, whatever the interleaving of its workers: after
  at most five steps a request and one a worker nothing can move, and nothing can move only when all
  have returned.  At any time each request is in the channel, with one worker, or answered, and never
  twice; when the run returns, unless it had no worker, each request has been answered exactly once,
  and without a limit on the rate the total it prints is the number asked for.
\<close>

theorem fixed_run_serves_each_once:
  assumes "log_laws Log" "runBenchFixedRequests paced concurrency requests = Done b0" "in_int64 requests"
    and "(bench_step Log pw ^^ n) b0 b"
  shows "n \<le> 5 * nat requests + nat concurrency \<and>
    mset (the (jobs b)) + wsum in_flight b + answered_requests b = mset [0..requests - 1] \<and>
    ((\<exists>b'. bench_step Log pw b b') = (\<not> bench_returned b)) \<and>
    (if bench_returned b \<and> 0 < concurrency
     then answered_requests b = mset [0..requests - 1] \<and>
       (if paced then True else TotalRequests (runBench_result pw cfg elapsed b) = requests)
     else True)"
proof -
  note start = fixed_start[OF assms(2)]
  have run: "fixed_ok (mset [0..requests - 1]) b" "n \<le> run_measure b0" "length (workers b) = nat concurrency" "limited b = paced"
    using fixed_run[OF assms(1,4) start(1)] start(3,4) by auto
  then obtain js where js: "jobs b = Some js" "mset js + wsum in_flight b + answered_requests b = mset [0..requests - 1]"
      "list_all (worker_ok js) (workers b)" "list_all (\<lambda>(w, n, r). r \<noteq> None \<or> limited b) (issued b)"
    by (auto simp: fixed_ok_def)
  have ends: "(\<exists>b'. bench_step Log pw b b') = (\<not> bench_returned b)"
    using fixed_progress[OF assms(1) run(1)] returned_stops[of b Log pw] js(1) by auto
  have all: "answered_requests b = mset [0..requests - 1]" if ret: "bench_returned b" "0 < concurrency"
  proof -
    obtain ws where "workers b = Returned # ws"
      using ret run(3) by (cases "workers b") (auto simp: bench_returned_def)
    then have "js = []" using js(3) by simp
    moreover have "wsum in_flight b = {#}" using ret(1) by (intro all_returned) (auto simp: bench_returned_def)
    ultimately show ?thesis using js(2) by simp
  qed
  have total: "TotalRequests (runBench_result pw cfg elapsed b) = requests"
    if r: "bench_returned b" "0 < concurrency" and "\<not> paced"
  proof -
    have u: "unrecorded Cumulative k b = 0" for k
      using r(1) unfolding unrecorded_def bench_returned_def by (intro all_returned) auto
    have "(bench_step Log pw)\<^sup>*\<^sup>* b0 b" using assms(4) relpowp_imp_rtranclp by fast
    then have c: "counter k (cumulative b) = of_nat (issued_as k b)" for k
      using totals_reachable[of Log pw b0 b k] started_empty(1)[OF assms(2)] u[of k] by simp
    have "length (issued b) = issued_as Accepted b + issued_as Rejected b + issued_as Errored b"
      unfolding issued_as_def using js(4) \<open>\<not> paced\<close> run(4) by (intro issued_kinds) (auto simp: list_all_iff)
    then have "counter Accepted (cumulative b) + counter Rejected (cumulative b) + counter Errored (cumulative b) =
        of_nat (length (issued b))" by (simp only: c of_nat_add)
    moreover have "length (issued b) = nat requests"
      using arg_cong[OF all[OF r], of size] by (simp add: answered_requests_def)
    moreover have "sint (of_nat (nat requests) :: 64 word) = requests"
      using assms(3) start(5) by (simp add: in_int64_def signed_of_int signed_take_bit_int_eq_self)
    ultimately show ?thesis by (simp add: runBench_result_def Let_def)
  qed
  show ?thesis using run(2) start(2) js(1,2) ends all total by auto
qed

lemma run_returns:
  assumes "log_laws Log" "fixed_ok N b"
  shows "\<exists>n b'. (bench_step Log pw ^^ n) b b' \<and> bench_returned b'"
  using assms(2)
proof (induction "run_measure b" arbitrary: b rule: less_induct)
  case less
  show ?case
  proof (cases "bench_returned b")
    case True
    then show ?thesis by (intro exI[of _ 0] exI[of _ b]) simp
  next
    case False
    then obtain y where y: "bench_step Log pw b y" using fixed_progress[OF assms(1) less.prems] by blast
    then obtain n b' where "(bench_step Log pw ^^ n) y b'" "bench_returned b'"
      using less.hyps fixed_step[OF assms(1) y less.prems] by blast
    then show ?thesis using relpowp_Suc_I2[of "bench_step Log pw", OF y] by blast
  qed
qed

theorem fixed_run_serves_each_once_witness:
  "\<exists>b0 n b. runBenchFixedRequests False 2 3 = Done b0 \<and> (bench_step demo_log dmul ^^ n) b0 b \<and> bench_returned b \<and>
    TotalRequests (runBench_result dmul \<lparr>keyPrefix = ''bench'', useAcquire = True, sharedKey = False\<rparr> 1000000 b) = 3"
proof -
  obtain b0 where b0: "runBenchFixedRequests False 2 3 = Done b0" by (simp add: runBenchFixedRequests_def)
  obtain n b where run: "(bench_step demo_log dmul ^^ n) b0 b" "bench_returned b"
    using run_returns[OF demo_log_laws fixed_start(1)[OF b0]] by blast
  show ?thesis
    using fixed_run_serves_each_once[OF demo_log_laws b0 _ run(1), where elapsed = 1000000
        and cfg = "\<lparr>keyPrefix = ''bench'', useAcquire = True, sharedKey = False\<rparr>"] b0 run
    by (auto simp: in_int64_def)
qed

theorem windows_add_up_witness:
  "\<exists>b0 b. runBenchDuration False 1 5000000000 = Done b0 \<and> (bench_step demo_log dmul)\<^sup>*\<^sup>* b0 b \<and>
    counter Errored (cumulative b) = 1 \<and> unrecorded Window Errored b = 1 \<and> in_windows Errored b = 0"
proof -
  obtain b0 where b0: "runBenchDuration False 1 5000000000 = Done b0" by (simp add: runBenchDuration_def)
  then have init: "workers b0 = [Taking 0]" "jobs b0 = None" "deadline b0 = False" "cumulative b0 = newBenchCounters"
      "window b0 = Some newBenchCounters" "issued b0 = []"
    by (auto simp: runBenchDuration_def)
  define b1 where "b1 = set_worker 0 (Issuing 0) b0"
  define b2 where "b2 = set_worker 0 (Recording 0 (issue_records True (Some (Errored, 7)))) b1
    \<lparr>issued := (0, 0, Some (Errored, 7)) # issued b1\<rparr>"
  define b3 where "b3 = set_worker 0 (Recording 0 [(Window, Add Errored)]) b2\<lparr>cumulative := set_counter Errored 1 newBenchCounters\<rparr>"
  have "bench_step demo_log dmul b0 b1" unfolding b1_def using init by (intro next_request[where n = 0]) auto
  moreover have "bench_step demo_log dmul b1 b2"
    using answered[of 0 b1 0 "Some (Errored, 7)" demo_log dmul] init by (simp add: b1_def b2_def)
  moreover have "bench_step demo_log dmul b2 b3" unfolding b3_def using init
    by (intro record_cumulative[where p = "Add Errored"])
      (auto simp: b1_def b2_def issue_records_def record_ops_def newBenchCounters_def)
  ultimately have run: "(bench_step demo_log dmul)\<^sup>*\<^sup>* b0 b3"
    by (rule converse_rtranclp_into_rtranclp[OF _ converse_rtranclp_into_rtranclp[OF _ r_into_rtranclp]])
  have "counter Errored (cumulative b3) = 1" "unrecorded Window Errored b3 = 1" "issued_as Errored b3 = 1"
    using init by (simp_all add: b3_def b2_def b1_def unrecorded_def wsum_def set_worker_def issued_as_def)
  moreover from this have "in_windows Errored b3 = 0" using windows_add_up[OF b0 run, of Errored] by simp
  ultimately show ?thesis using b0 run by blast
qed

end
