(* ===== verification/FileWatcher.thy ===== *)
theory FileWatcher
  imports Prelude
begin

text \<open>
  The goroutines that watch files: \<open>services/core/config/watcher.go\<close> and
  \<open>services/sidecar/criticalroutes/criticalroutes.go\<close>, which debounce, and \<open>tlsconfig/reload.go\<close>, which
  does not.  The \<open>select\<close> loop is a step function on what is received; the operating system's events,
  the expiry of the timer and the content of the file at a reload are the environment.  Times are
  nanoseconds.
\<close>

section \<open>The debounced loop\<close>

datatype fs_op = Write | Create | Rename | Remove | Chmod

definition debounceWindow :: int where "debounceWindow = 50 * 1000000"

text \<open>The timer as Go has it: armed with a deadline, or with its value already in the channel.\<close>

record 'c watch =
  wt_now :: int
  wt_deadline :: "int option"
  wt_fired :: bool
  wt_stopped :: bool
  wt_value :: 'c

datatype 'r watch_event =
    FsEvent int string "fs_op list"   \<comment> \<open>the loop receives an event at a time\<close>
  | Expire int                        \<comment> \<open>the runtime lets the timer expire\<close>
  | TimerC int 'r                     \<comment> \<open>the loop receives from the timer and loads the file\<close>
  | FsError                           \<comment> \<open>the loop receives an error of the watcher\<close>
  | Closed                            \<comment> \<open>a channel of the watcher is closed\<close>
  | Stop                              \<comment> \<open>\<open>stop\<close> closes \<open>done\<close>\<close>

definition relevant :: "string \<Rightarrow> string \<Rightarrow> fs_op list \<Rightarrow> bool" where
  "relevant path name ops \<longleftrightarrow> name = path \<and> (\<exists>op \<in> set ops. op \<in> {Write, Create, Rename})"

text \<open>\<open>None\<close>: what the label says cannot happen in this state.\<close>

fun watch_step :: "string \<Rightarrow> ('r \<Rightarrow> 'c \<Rightarrow> 'c) \<Rightarrow> 'r watch_event \<Rightarrow> 'c watch \<Rightarrow> 'c watch option" where
  "watch_step path apply (FsEvent t name ops) w =
    (if wt_stopped w \<or> t < wt_now w then None
     else if relevant path name ops
     then Some (w\<lparr>wt_now := t, wt_fired := False, wt_deadline := Some (t + debounceWindow)\<rparr>)
     else Some (w\<lparr>wt_now := t\<rparr>))"
| "watch_step path apply (Expire t) w =
    (case wt_deadline w of None \<Rightarrow> None
     | Some d \<Rightarrow> if t < wt_now w \<or> t < d then None
               else Some (w\<lparr>wt_now := t, wt_fired := True, wt_deadline := None\<rparr>))"
| "watch_step path apply (TimerC t loaded) w =
    (if wt_stopped w \<or> t < wt_now w \<or> \<not> wt_fired w then None
     else Some (w\<lparr>wt_now := t, wt_fired := False, wt_value := apply loaded (wt_value w)\<rparr>))"
| "watch_step path apply FsError w = (if wt_stopped w then None else Some w)"
| "watch_step path apply Closed w = (if wt_stopped w then None else Some (w\<lparr>wt_stopped := True\<rparr>))"
| "watch_step path apply Stop w =
    (if wt_stopped w then None else Some (w\<lparr>wt_deadline := None, wt_stopped := True\<rparr>))"

fun watch_run :: "string \<Rightarrow> ('r \<Rightarrow> 'c \<Rightarrow> 'c) \<Rightarrow> 'r watch_event list \<Rightarrow> 'c watch \<Rightarrow> 'c watch option" where
  "watch_run path apply [] w = Some w"
| "watch_run path apply (e # es) w =
    (case watch_step path apply e w of None \<Rightarrow> None | Some w1 \<Rightarrow> watch_run path apply es w1)"

text \<open>A new timer is stopped and drained at once.\<close>

definition watch_start :: "int \<Rightarrow> 'c \<Rightarrow> 'c watch" where
  "watch_start t c = \<lparr>wt_now = t, wt_deadline = None, wt_fired = False, wt_stopped = False, wt_value = c\<rparr>"

text \<open>The files a run has loaded, in order.\<close>

fun loads :: "'r watch_event list \<Rightarrow> 'r list" where
  "loads [] = []"
| "loads (TimerC t r # es) = r # loads es"
| "loads (_ # es) = loads es"

lemma loads_append: "loads (xs @ ys) = loads xs @ loads ys"
  by (induction xs rule: loads.induct) auto

lemma watch_run_append:
  "watch_run path apply (xs @ ys) w =
    (case watch_run path apply xs w of None \<Rightarrow> None | Some w1 \<Rightarrow> watch_run path apply ys w1)"
  by (induction xs arbitrary: w) (auto split: option.splits)

lemma watch_run_value:
  "watch_run path apply es w = Some w' \<Longrightarrow> wt_value w' = fold apply (loads es) (wt_value w)"
proof (induction es arbitrary: w)
  case (Cons e es)
  then obtain w1 where "watch_step path apply e w = Some w1" "watch_run path apply es w1 = Some w'"
    by (auto split: option.splits)
  then show ?case using Cons.IH[of w1] by (cases e) (auto split: if_splits option.splits)
qed simp

section \<open>Quiet windows\<close>

definition is_touch :: "string \<Rightarrow> 'r watch_event \<Rightarrow> bool" where
  "is_touch path e = (case e of FsEvent t name ops \<Rightarrow> relevant path name ops | _ \<Rightarrow> False)"

fun is_load :: "'r watch_event \<Rightarrow> bool" where
  "is_load (TimerC t r) = True"
| "is_load _ = False"

text \<open>The last relevant event that no reload has answered yet, by its time.\<close>

fun pending :: "string \<Rightarrow> 'r watch_event list \<Rightarrow> int option \<Rightarrow> int option" where
  "pending path [] p = p"
| "pending path (FsEvent t name ops # es) p = pending path es (if relevant path name ops then Some t else p)"
| "pending path (TimerC t r # es) p = pending path es None"
| "pending path (_ # es) p = pending path es p"

text \<open>What the timer says of the pending event, and when: armed up to its end of the window, or fired
  after it.\<close>

definition timer_ok :: "int option \<Rightarrow> 'c watch \<Rightarrow> bool" where
  "timer_ok p w \<longleftrightarrow> wt_stopped w \<or>
    (case p of None \<Rightarrow> wt_deadline w = None \<and> \<not> wt_fired w
     | Some e \<Rightarrow> (wt_deadline w = Some (e + debounceWindow) \<and> \<not> wt_fired w) \<or>
         (wt_deadline w = None \<and> wt_fired w \<and> e + debounceWindow \<le> wt_now w))"

lemma timer_ok_step:
  assumes "watch_step path apply e w = Some w'" "timer_ok p w"
  shows "timer_ok (pending path [e] p) w'"
  using assms by (cases e) (auto simp: timer_ok_def split: if_splits option.splits)

lemma pending_append: "pending path (xs @ ys) p = pending path ys (pending path xs p)"
  by (induction path xs p rule: pending.induct) auto

lemma timer_ok_run:
  "watch_run path apply es w = Some w' \<Longrightarrow> timer_ok p w \<Longrightarrow> timer_ok (pending path es p) w'"
proof (induction es arbitrary: w p)
  case (Cons e es)
  then obtain w1 where s: "watch_step path apply e w = Some w1" "watch_run path apply es w1 = Some w'"
    by (auto split: option.splits)
  show ?case using Cons.IH[OF s(2) timer_ok_step[OF s(1) Cons.prems(2)]] pending_append[of path "[e]" es p] by simp
qed simp

lemma timer_ok_start: "timer_ok None (watch_start t c)"
  by (simp add: timer_ok_def watch_start_def)

lemma pending_Some:
  "pending path es p = Some e \<Longrightarrow> p = Some e \<and> (\<forall>v \<in> set es. \<not> is_touch path v \<and> \<not> is_load v) \<or>
    (\<exists>us ops vs. es = us @ FsEvent e path ops # vs \<and> relevant path path ops \<and>
       (\<forall>v \<in> set vs. \<not> is_touch path v \<and> \<not> is_load v))"
proof (induction es rule: rev_induct)
  case (snoc x es)
  show ?case
  proof (cases "is_touch path x")
    case True
    then obtain ops where "x = FsEvent e path ops" "relevant path path ops"
      using snoc.prems by (cases x) (auto simp: is_touch_def pending_append relevant_def)
    then show ?thesis by (intro disjI2 exI[of _ es] exI[of _ ops] exI[of _ "[]"]) simp
  next
    case False
    then have x: "\<not> is_load x" "pending path es p = Some e"
      using snoc.prems by (cases x; auto simp: is_touch_def pending_append split: if_splits)+
    from snoc.IH[OF x(2)] show ?thesis
    proof (elim disjE exE conjE)
      fix us ops vs
      assume "es = us @ FsEvent e path ops # vs" "relevant path path ops" "\<forall>v \<in> set vs. \<not> is_touch path v \<and> \<not> is_load v"
      then show ?thesis using False x(1)
        by (intro disjI2 exI[of _ us] exI[of _ ops] exI[of _ "vs @ [x]"]) simp
    qed (use False x(1) in auto)
  qed
qed simp

lemma pending_kept:
  "\<forall>v \<in> set vs. \<not> is_load v \<Longrightarrow> pending path vs (Some e) \<noteq> None"
proof (induction vs arbitrary: e)
  case (Cons v vs)
  then show ?case by (cases v) auto
qed simp

text \<open>
  C29: A debounced watcher, of the configuration or of the critical routes, reads the file only after a
  quiet window: every reload answers an event on the file that is at least 50 milliseconds old and
  was followed by no other event on it; and no change is lost: when the timer is idle, every event
  has been followed by a reload.
\<close>

theorem debounce_waits_and_loses_nothing:
  assumes "watch_run path apply es (watch_start t0 c) = Some w" "\<not> wt_stopped w"
  shows "(\<forall>xs t r ys. es = xs @ TimerC t r # ys \<longrightarrow>
      (\<exists>us e ops vs. xs = us @ FsEvent e path ops # vs \<and> relevant path path ops \<and> e + debounceWindow \<le> t \<and>
        (\<forall>v \<in> set vs. \<not> is_touch path v \<and> \<not> is_load v))) \<and>
    (wt_deadline w = None \<and> \<not> wt_fired w \<longrightarrow>
      (\<forall>us e ops vs. es = us @ FsEvent e path ops # vs \<and> relevant path path ops \<longrightarrow> (\<exists>v \<in> set vs. is_load v)))"
proof (intro conjI allI impI)
  fix xs t r ys
  assume "es = xs @ TimerC t r # ys"
  then obtain w1 w2 where w: "watch_run path apply xs (watch_start t0 c) = Some w1"
      "watch_step path apply (TimerC t r) w1 = Some w2"
    using assms(1) by (auto simp: watch_run_append split: option.splits)
  then have "wt_fired w1" "\<not> wt_stopped w1" "wt_now w1 \<le> t" by (auto split: if_splits)
  moreover have "timer_ok (pending path xs None) w1" by (rule timer_ok_run[OF w(1) timer_ok_start])
  ultimately obtain e where e: "pending path xs None = Some e" "e + debounceWindow \<le> t"
    by (auto simp: timer_ok_def split: option.splits)
  from pending_Some[OF e(1)] show "\<exists>us e ops vs. xs = us @ FsEvent e path ops # vs \<and> relevant path path ops \<and>
      e + debounceWindow \<le> t \<and> (\<forall>v \<in> set vs. \<not> is_touch path v \<and> \<not> is_load v)"
    using e(2) by blast
next
  fix us e ops vs
  assume idle: "wt_deadline w = None \<and> \<not> wt_fired w" and es: "es = us @ FsEvent e path ops # vs \<and> relevant path path ops"
  have "timer_ok (pending path es None) w" by (rule timer_ok_run[OF assms(1) timer_ok_start])
  then have "pending path es None = None" using idle assms(2) by (auto simp: timer_ok_def split: option.splits)
  then have "pending path vs (Some e) = None" using es by (simp add: pending_append)
  then show "\<exists>v \<in> set vs. is_load v" using pending_kept by metis
qed

theorem debounce_waits_and_loses_nothing_witness:
  "\<exists>us e ops vs. [FsEvent 1 ''f'' [Create], FsEvent 9 ''f'' [Write], Expire 60000000 :: int watch_event] = us @ FsEvent e ''f'' ops # vs \<and>
    relevant ''f'' ''f'' ops \<and> e + debounceWindow \<le> 60000001 \<and> list_all (\<lambda>v. \<not> is_touch ''f'' v \<and> \<not> is_load v) vs"
proof -
  let ?es = "[FsEvent 1 ''f'' [Create], FsEvent 9 ''f'' [Write], Expire 60000000 :: int watch_event]"
  have "watch_run ''f'' (\<lambda>r c. r) (?es @ [TimerC 60000001 (5::int)]) (watch_start 0 3) =
      Some \<lparr>wt_now = 60000001, wt_deadline = None, wt_fired = False, wt_stopped = False, wt_value = 5\<rparr>"
    by (simp add: watch_start_def relevant_def debounceWindow_def)
  from debounce_waits_and_loses_nothing[OF this, THEN conjunct1, rule_format, of ?es 60000001 5 "[]"]
  show ?thesis by (simp add: list_all_iff)
qed

section \<open>Last known good\<close>

text \<open>A value that a good reload replaces and a bad one leaves.\<close>

locale last_known_good =
  fixes upd :: "'r \<Rightarrow> 'c \<Rightarrow> 'c" and good :: "'r \<Rightarrow> 'v option" and view :: "'c \<Rightarrow> 'v"
  assumes apply_view: "view (upd r c) = (case good r of None \<Rightarrow> view c | Some v \<Rightarrow> v)"
begin

lemma fold_view: "view (fold upd rs c) = last (view c # List.map_filter good rs)"
proof (induction rs arbitrary: c)
  case (Cons r rs)
  then show ?case by (cases "good r") (auto simp: apply_view map_filter_simps)
qed (simp add: map_filter_simps)

lemma watched_view:
  "watch_run path upd es (watch_start t c) = Some w \<Longrightarrow>
    view (wt_value w) = last (view c # List.map_filter good (loads es))"
  using watch_run_value[of path upd es "watch_start t c" w] fold_view by (simp add: watch_start_def)

end

end
