(* ===== verification/Shedder.thy ===== *)
theory Shedder
  imports GoDouble
begin

text \<open>
  \<open>services/sidecar/worker/shedder.go\<close>, Tier 4: a counter of requests in flight and the probability
  of shedding as it nears its maximum.  Random draws are doubles of the environment.  \<open>Allow\<close> is the
  compare-and-swap loop without contention; \<open>shed_step\<close> is the loop step by step, for any number of
  goroutines.
\<close>

record shedder =
  inflight :: int
  sh_max :: int
  rampStartPct :: int

definition NewShedderWithRamp :: "int \<Rightarrow> int \<Rightarrow> shedder" where
  "NewShedderWithRamp m pct = \<lparr>inflight = 0, sh_max = m, rampStartPct = pct\<rparr>"

definition NewShedder :: "int \<Rightarrow> shedder" where
  "NewShedder m = NewShedderWithRamp m 100"

text \<open>The load \<open>current\<close> and the draw \<open>r\<close> of \<open>rand.Float64\<close>, which is only made inside the ramp.\<close>

definition shouldAdmitAtLoad :: "shedder \<Rightarrow> int \<Rightarrow> dbl \<Rightarrow> bool" where
  "shouldAdmitAtLoad s current r =
    (let rampStart = int64 (int64 (sh_max s * rampStartPct s) sdiv 100)
     in if current < rampStart then True
        else (let rampWindow = int64 (sh_max s - rampStart)
              in if rampWindow \<le> 0 then False
                 else (let intoRamp = int64 (current - rampStart);
                           rejectProbability = ddiv (of_int_dbl intoRamp) (of_int_dbl rampWindow)
                       in dle rejectProbability r)))"

definition Allow :: "shedder \<Rightarrow> dbl \<Rightarrow> bool \<times> shedder" where
  "Allow s r =
    (let current = inflight s
     in if current \<ge> sh_max s then (False, s)
        else if \<not> shouldAdmitAtLoad s current r then (False, s)
        else (True, s\<lparr>inflight := int64 (current + 1)\<rparr>))"

definition shed_Release :: "shedder \<Rightarrow> shedder" where
  "shed_Release s = s\<lparr>inflight := int64 (inflight s - 1)\<rparr>"

definition InFlight :: "shedder \<Rightarrow> int" where
  "InFlight s = inflight s"

section \<open>Goroutines\<close>

text \<open>Where a goroutine is: outside, after the load of the counter, or between \<open>Allow\<close> and \<open>Release\<close>.\<close>

datatype shed_pc = Outside | Loaded int | Holding

record shed_state =
  ss_shedder :: shedder
  ss_pc :: "nat \<Rightarrow> shed_pc"

inductive shed_step :: "shed_state \<Rightarrow> shed_state \<Rightarrow> bool" where
  load: "ss_pc x t = Outside \<Longrightarrow>
    shed_step x (x\<lparr>ss_pc := (ss_pc x)(t := Loaded (inflight (ss_shedder x)))\<rparr>)"
| refuse: "ss_pc x t = Loaded v \<Longrightarrow> v \<ge> sh_max (ss_shedder x) \<or> \<not> shouldAdmitAtLoad (ss_shedder x) v r \<Longrightarrow>
    shed_step x (x\<lparr>ss_pc := (ss_pc x)(t := Outside)\<rparr>)"
| swap: "ss_pc x t = Loaded v \<Longrightarrow> v < sh_max (ss_shedder x) \<Longrightarrow> shouldAdmitAtLoad (ss_shedder x) v r \<Longrightarrow>
    inflight (ss_shedder x) = v \<Longrightarrow>
    shed_step x (x\<lparr>ss_shedder := (ss_shedder x)\<lparr>inflight := int64 (v + 1)\<rparr>, ss_pc := (ss_pc x)(t := Holding)\<rparr>)"
| retry: "ss_pc x t = Loaded v \<Longrightarrow> inflight (ss_shedder x) \<noteq> v \<Longrightarrow>
    shed_step x (x\<lparr>ss_pc := (ss_pc x)(t := Outside)\<rparr>)"
| release: "ss_pc x t = Holding \<Longrightarrow>
    shed_step x (x\<lparr>ss_shedder := shed_Release (ss_shedder x), ss_pc := (ss_pc x)(t := Outside)\<rparr>)"

definition shed_start :: "int \<Rightarrow> int \<Rightarrow> shed_state" where
  "shed_start m pct = \<lparr>ss_shedder = NewShedderWithRamp m pct, ss_pc = (\<lambda>_. Outside)\<rparr>"

definition holders :: "shed_state \<Rightarrow> nat set" where
  "holders x = {t. ss_pc x t = Holding}"

definition shed_inv :: "int \<Rightarrow> shed_state \<Rightarrow> bool" where
  "shed_inv m x \<longleftrightarrow> finite (holders x) \<and> inflight (ss_shedder x) = int (card (holders x)) \<and>
    inflight (ss_shedder x) \<le> m \<and> sh_max (ss_shedder x) = m"

lemma shed_start_inv: "0 \<le> m \<Longrightarrow> shed_inv m (shed_start m pct)"
  by (simp add: shed_inv_def shed_start_def holders_def NewShedderWithRamp_def)

lemma holders_update:
  "holders (x\<lparr>ss_shedder := s, ss_pc := (ss_pc x)(t := p)\<rparr>) =
    (if p = Holding then insert t (holders x) else holders x - {t})"
  "holders (x\<lparr>ss_pc := (ss_pc x)(t := p)\<rparr>) = (if p = Holding then insert t (holders x) else holders x - {t})"
  by (auto simp: holders_def)

lemma shed_step_inv:
  assumes "shed_step x y" "shed_inv m x" "m < 2 ^ 63"
  shows "shed_inv m y"
  using assms(1)
proof cases
  case (load t)
  then have "t \<notin> holders x" by (simp add: holders_def)
  then show ?thesis using assms(2) load by (simp add: shed_inv_def holders_update)
next
  case (refuse t v r)
  then have "t \<notin> holders x" by (simp add: holders_def)
  then show ?thesis using assms(2) refuse by (simp add: shed_inv_def holders_update)
next
  case (swap t v r)
  then have t: "t \<notin> holders x" by (simp add: holders_def)
  have "int64 (v + 1) = v + 1"
    using assms(2,3) swap by (intro int64_id) (auto simp: shed_inv_def in_int64_def)
  then show ?thesis using assms(2) swap t by (simp add: shed_inv_def holders_update)
next
  case (retry t v)
  then have "t \<notin> holders x" by (simp add: holders_def)
  then show ?thesis using assms(2) retry by (simp add: shed_inv_def holders_update)
next
  case (release t)
  then have t: "t \<in> holders x" by (simp add: holders_def)
  then have c: "0 < card (holders x)" using assms(2) by (auto simp: shed_inv_def card_gt_0_iff)
  then have "int64 (inflight (ss_shedder x) - 1) = inflight (ss_shedder x) - 1"
    using assms(2,3) by (intro int64_id) (auto simp: shed_inv_def in_int64_def)
  then show ?thesis using assms(2) release t c by (simp add: shed_inv_def holders_update shed_Release_def of_nat_diff)
qed

section \<open>The shape of the ramp\<close>

lemma ramp_exact:
  assumes "0 < m" "m < 2 ^ 56" "0 \<le> p" "p \<le> 100"
  shows "int64 (int64 (m * p) sdiv 100) = m * p div 100" "0 \<le> m * p div 100" "m * p div 100 \<le> m"
proof -
  have b: "0 \<le> m * p" using assms by simp
  have "m * p \<le> m * 100" using assms by (intro mult_left_mono) auto
  then have b2: "m * p \<le> 100 * m" by simp
  show l: "0 \<le> m * p div 100" "m * p div 100 \<le> m"
    using b b2 by (auto simp: pos_imp_zdiv_nonneg_iff)
  have "int64 (m * p) = m * p" using b b2 assms(2) by (intro int64_id) (simp add: in_int64_def)
  moreover have "int64 (m * p div 100) = m * p div 100"
    using l assms(2) by (intro int64_id) (simp add: in_int64_def)
  ultimately show "int64 (int64 (m * p) sdiv 100) = m * p div 100" using b by (simp add: sdiv_nonneg)
qed

lemma Allow_hard_cutoff:
  assumes "0 < sh_max s" "sh_max s < 2 ^ 56" "rampStartPct s = 100"
  shows "fst (Allow s r) \<longleftrightarrow> inflight s < sh_max s"
  using ramp_exact[of "sh_max s" 100] assms by (auto simp: Allow_def shouldAdmitAtLoad_def Let_def)

lemma Allow_below_ramp:
  assumes "0 < sh_max s" "sh_max s < 2 ^ 56" "0 \<le> rampStartPct s" "rampStartPct s \<le> 100"
    and "inflight s < sh_max s * rampStartPct s div 100"
  shows "fst (Allow s r)"
  using ramp_exact[of "sh_max s" "rampStartPct s"] assms by (auto simp: Allow_def shouldAdmitAtLoad_def Let_def)

lemma Allow_bounds:
  assumes "0 \<le> inflight s" "inflight s \<le> sh_max s" "sh_max s < 2 ^ 63" "Allow s r = (b, s')"
  shows "inflight s' = inflight s + (if b then 1 else 0)" "inflight s' \<le> sh_max s'" "sh_max s' = sh_max s"
    "rampStartPct s' = rampStartPct s"
proof -
  have i: "inflight s < sh_max s \<Longrightarrow> int64 (inflight s + 1) = inflight s + 1"
    using assms(1,3) by (intro int64_id) (simp add: in_int64_def)
  show "inflight s' = inflight s + (if b then 1 else 0)" "inflight s' \<le> sh_max s'" "sh_max s' = sh_max s"
    "rampStartPct s' = rampStartPct s"
    using assms(2,4) i by (auto simp: Allow_def Let_def split: if_splits)
qed

text \<open>
  C15: However the goroutines of a sidecar interleave between the load of the counter, the
  compare-and-swap and the release, the counter is the number of requests between \<open>Allow\<close> and
  \<open>Release\<close>, and it never exceeds its maximum.
\<close>

theorem shedder_bounded_in_every_interleaving:
  assumes "shed_step\<^sup>*\<^sup>* (shed_start m pct) x" "0 \<le> m" "m < 2 ^ 63"
  shows "finite (holders x) \<and> InFlight (ss_shedder x) = int (card (holders x)) \<and> InFlight (ss_shedder x) \<le> m"
proof -
  have "shed_inv m x"
    using assms(1)
    by (induction rule: rtranclp_induct) (auto intro: shed_start_inv[OF assms(2)] shed_step_inv[OF _ _ assms(3)])
  then show ?thesis by (simp add: shed_inv_def InFlight_def)
qed

theorem shedder_bounded_in_every_interleaving_witness:
  "\<exists>x. shed_step\<^sup>*\<^sup>* (shed_start 1 100) x \<and> ss_pc x 0 = Holding \<and> ss_pc x 1 = Loaded 0 \<and> InFlight (ss_shedder x) \<le> 1"
proof -
  let ?a = "shed_start 1 100"
  let ?b = "?a\<lparr>ss_pc := (ss_pc ?a)(0 := Loaded (inflight (ss_shedder ?a)))\<rparr>"
  let ?c = "?b\<lparr>ss_pc := (ss_pc ?b)(1 := Loaded (inflight (ss_shedder ?b)))\<rparr>"
  let ?d = "?c\<lparr>ss_shedder := (ss_shedder ?c)\<lparr>inflight := int64 (0 + 1)\<rparr>, ss_pc := (ss_pc ?c)(0 := Holding)\<rparr>"
  have "shed_step ?a ?b" "shed_step ?b ?c"
    by (rule shed_step.load, simp add: shed_start_def)+
  moreover have "shed_step ?c ?d"
    by (rule shed_step.swap) (auto simp: shed_start_def NewShedderWithRamp_def shouldAdmitAtLoad_def int64_def
        signed_divide_int_def sgn_if)
  ultimately have r: "shed_step\<^sup>*\<^sup>* ?a ?d" by (meson rtranclp.rtrancl_refl rtranclp.rtrancl_into_rtrancl)
  then show ?thesis using shedder_bounded_in_every_interleaving[OF r]
    by (intro exI[of _ ?d]) (simp add: shed_start_def NewShedderWithRamp_def)
qed

text \<open>
  The shed curve: below the start of the ramp every request is admitted, at the maximum none is,
  and between them a request is admitted exactly if its draw is at least the share of the ramp
  already used, so a ramp that starts at 100 percent is a hard cutoff.
\<close>

theorem shed_curve:
  assumes "0 < sh_max s" "sh_max s \<le> 2 ^ 53" "0 \<le> rampStartPct s" "rampStartPct s \<le> 100" "0 \<le> inflight s"
  shows "fst (Allow s (Fin r)) \<longleftrightarrow> inflight s < sh_max s \<and>
    (let start = sh_max s * rampStartPct s div 100
     in if inflight s < start then True
        else fl (of_int (inflight s - start) / of_int (sh_max s - start)) \<le> r)"
proof -
  define start where "start = sh_max s * rampStartPct s div 100"
  have st: "int64 (int64 (sh_max s * rampStartPct s) sdiv 100) = start" "0 \<le> start" "start \<le> sh_max s"
    using ramp_exact[of "sh_max s" "rampStartPct s"] assms by (auto simp: start_def)
  have w: "int64 (sh_max s - start) = sh_max s - start" using st assms(2) by (intro int64_id) (simp add: in_int64_def)
  have "int64 (inflight s - start) = inflight s - start \<and> of_int_dbl (inflight s - start) = Fin (of_int (inflight s - start)) \<and>
      of_int_dbl (sh_max s - start) = Fin (of_int (sh_max s - start))"
    if "start \<le> inflight s" "inflight s < sh_max s"
    using that st(2,3) assms(2) of_int_dbl_exact[of "inflight s - start"] of_int_dbl_exact[of "sh_max s - start"]
    by (auto intro!: int64_id simp: in_int64_def)
  then show ?thesis
    unfolding Allow_def shouldAdmitAtLoad_def Let_def st(1) w start_def[symmetric]
    by auto
qed

theorem shed_curve_witness:
  "fst (Allow \<lparr>inflight = 9, sh_max = 10, rampStartPct = 80\<rparr> (Fin (1 / 2))) \<longleftrightarrow> fl (1 / 2) \<le> (1 / 2 :: rat)"
  using shed_curve[of "\<lparr>inflight = 9, sh_max = 10, rampStartPct = 80\<rparr>" "1 / 2"] by simp

end
