(* ===== verification/NegativeCache.thy ===== *)
theory NegativeCache
  imports Prelude "HOL-Library.Finite_Map"
begin

text \<open>
  \<open>services/sidecar/negativecache/negativecache.go\<close>: keys that were refused and until when.  Times are
  nanoseconds; every reading of the clock is an argument.
\<close>

definition sweepThreshold :: nat where "sweepThreshold = 10000"

type_synonym neg_cache = "(string, int) fmap"

definition NewCache :: neg_cache where "NewCache = fmempty"

definition sweepLocked :: "int \<Rightarrow> neg_cache \<Rightarrow> neg_cache" where
  "sweepLocked now c = fmfilter (\<lambda>k. case fmlookup c k of None \<Rightarrow> False | Some until \<Rightarrow> \<not> now > until) c"

text \<open>\<open>t\<close> is the clock of the mark, \<open>t'\<close> that of the sweep.\<close>

definition MarkDenied :: "string \<Rightarrow> int \<Rightarrow> int \<Rightarrow> int \<Rightarrow> neg_cache \<Rightarrow> neg_cache" where
  "MarkDenied key retryAfter t t' c =
    (let c1 = fmupd key (t + retryAfter) c
     in if fcard (fmdom c1) > sweepThreshold then sweepLocked t' c1 else c1)"

text \<open>\<open>time.Time.Sub\<close> saturates at the limits of a duration.\<close>

definition time_Sub :: "int \<Rightarrow> int \<Rightarrow> int" where
  "time_Sub a b = max (- (2 ^ 63)) (min (2 ^ 63 - 1) (a - b))"

definition IsDenied :: "string \<Rightarrow> int \<Rightarrow> neg_cache \<Rightarrow> (bool \<times> int) \<times> neg_cache" where
  "IsDenied key now c =
    (case fmlookup c key of
       None \<Rightarrow> ((False, 0), c)
     | Some until \<Rightarrow>
         if now > until then ((False, 0), fmdrop key c)
         else ((True, time_Sub until now), c))"

lemma fmlookup_sweep:
  "fmlookup (sweepLocked now c) k = (case fmlookup c k of None \<Rightarrow> None | Some u \<Rightarrow> if now > u then None else Some u)"
  by (auto simp: sweepLocked_def split: option.splits)

lemma MarkDenied_lookup:
  "fmlookup (MarkDenied k ra t t' c) k' =
    (let c1 = fmupd k (t + ra) c
     in case fmlookup c1 k' of None \<Rightarrow> None
        | Some u \<Rightarrow> if fcard (fmdom c1) > sweepThreshold \<and> t' > u then None else Some u)"
  by (auto simp: MarkDenied_def Let_def fmlookup_sweep split: option.splits)

section \<open>A window of denial\<close>

text \<open>An operation of any goroutine, with its clock readings.\<close>

datatype cache_op = Mark string int int int | Query string int

fun cache_step :: "cache_op \<Rightarrow> neg_cache \<Rightarrow> neg_cache" where
  "cache_step (Mark k ra t t') c = MarkDenied k ra t t' c"
| "cache_step (Query k t) c = snd (IsDenied k t c)"

fun op_times :: "cache_op \<Rightarrow> int set" where
  "op_times (Mark k ra t t') = {t, t'}"
| "op_times (Query k t) = {t}"

fun marks :: "string \<Rightarrow> cache_op \<Rightarrow> bool" where
  "marks k (Mark k' ra t t') \<longleftrightarrow> k' = k"
| "marks k (Query k' t) \<longleftrightarrow> False"

text \<open>The entry of a key is there, or it has expired and the present is past it.\<close>

definition entry_until :: "string \<Rightarrow> int \<Rightarrow> int \<Rightarrow> neg_cache \<Rightarrow> bool" where
  "entry_until k u now c \<longleftrightarrow> fmlookup c k = Some u \<or> fmlookup c k = None \<and> now > u"

lemma cache_step_entry:
  assumes "entry_until k u now c" "\<not> marks k x" "op_times x \<subseteq> {..now'}" "now \<le> now'"
  shows "entry_until k u now' (cache_step x c)"
proof (cases x)
  case (Mark k' ra t t')
  then show ?thesis using assms
    by (auto simp: entry_until_def MarkDenied_lookup Let_def split: option.splits)
next
  case (Query k' t)
  then show ?thesis using assms
    by (auto simp: entry_until_def IsDenied_def split: option.splits)
qed

lemma cache_run_entry:
  assumes "entry_until k u now c" "\<forall>x \<in> set xs. \<not> marks k x \<and> op_times x \<subseteq> {..now'}" "now \<le> now'"
  shows "entry_until k u now' (fold cache_step xs c)"
  using assms
proof (induction xs arbitrary: c now)
  case Nil
  then show ?case by (auto simp: entry_until_def)
next
  case (Cons x xs)
  then have "entry_until k u now' (cache_step x c)" by (intro cache_step_entry) auto
  then show ?case using Cons.prems Cons.IH[of now' "cache_step x c"] by auto
qed

lemma MarkDenied_entry:
  "t \<le> now \<Longrightarrow> t' \<le> now \<Longrightarrow> entry_until k (t + ra) now (MarkDenied k ra t t' c)"
  by (auto simp: entry_until_def MarkDenied_lookup Let_def)

lemma IsDenied_entry:
  "entry_until k u now c \<Longrightarrow> fst (IsDenied k now c) = (if now \<le> u then (True, time_Sub u now) else (False, 0))"
  by (auto simp: entry_until_def IsDenied_def)

text \<open>
  C24: A key marked as denied at time \<open>t\<close> for a duration is denied at every later moment up to the end
  of the duration, with the time that is left, and no longer after it, whatever is done meanwhile
  with other keys, however many sweeps run and however often the key itself is queried.
\<close>

theorem denial_window:
  assumes "\<forall>x \<in> set xs. \<not> marks k x \<and> op_times x \<subseteq> {..now}" "t \<le> now" "t' \<le> now"
  shows "fst (IsDenied k now (fold cache_step xs (MarkDenied k ra t t' c))) =
    (if now \<le> t + ra then (True, time_Sub (t + ra) now) else (False, 0))"
  using IsDenied_entry[OF cache_run_entry[OF MarkDenied_entry[OF assms(2,3)] assms(1) order_refl]] by simp

theorem denial_window_witness:
  "fst (IsDenied ''a'' 70 (fold cache_step [Mark ''b'' 1 20 21, Query ''a'' 40, Query ''b'' 60]
     (MarkDenied ''a'' 50 20 20 fmempty))) = (True, 0)"
  using denial_window[of "[Mark ''b'' 1 20 21, Query ''a'' 40, Query ''b'' 60]" "''a''" 70 20 20 50 fmempty]
  by (simp add: time_Sub_def)

end
