(* ===== verification/SidecarProxy.thy ===== *)
theory SidecarProxy
  imports Shedder NegativeCache GoHttp CoreServer
begin

text \<open>
  \<open>services/sidecar/proxy\<close>, \<open>shadow\<close>, \<open>decisionlog\<close> and \<open>metrics\<close>: the handlers of \<open>/check\<close> and
  \<open>/release\<close>.  A sidecar is a record of the objects its handlers share and of the core process it
  talks to, reached through a record of RPCs (\<open>rpc_client\<close>); a request brings its clock readings and
  its random draw.  Spans and plain log lines are left out.
\<close>

section \<open>Metrics and the decision log\<close>

record sidecar_metrics =
  decisions :: "string \<times> string \<Rightarrow> nat"
  shadow_would_reject :: "string \<Rightarrow> nat"
  worker_inflight :: int
  releases :: "string \<Rightarrow> nat"
  upstream_errors :: "string \<Rightarrow> nat"
  latencies :: "string \<Rightarrow> int list"   \<comment> \<open>the observations of the histogram, in nanoseconds\<close>

definition RecordDecision :: "string \<Rightarrow> string \<Rightarrow> sidecar_metrics \<Rightarrow> sidecar_metrics" where
  "RecordDecision tier action m = m\<lparr>decisions := inc (decisions m) (tier, action)\<rparr>"

definition RecordShadowWouldReject :: "string \<Rightarrow> sidecar_metrics \<Rightarrow> sidecar_metrics" where
  "RecordShadowWouldReject tier m = m\<lparr>shadow_would_reject := inc (shadow_would_reject m) tier\<rparr>"

definition SetWorkerInFlight :: "int \<Rightarrow> sidecar_metrics \<Rightarrow> sidecar_metrics" where
  "SetWorkerInFlight v m = m\<lparr>worker_inflight := v\<rparr>"

definition RecordDecisionLatency :: "string \<Rightarrow> int \<Rightarrow> sidecar_metrics \<Rightarrow> sidecar_metrics" where
  "RecordDecisionLatency tier latency m = m\<lparr>latencies := (latencies m)(tier := latencies m tier @ [latency])\<rparr>"

definition RecordReleaseResult :: "string \<Rightarrow> sidecar_metrics \<Rightarrow> sidecar_metrics" where
  "RecordReleaseResult result m = m\<lparr>releases := inc (releases m) result\<rparr>"

definition RecordUpstreamError :: "string \<Rightarrow> sidecar_metrics \<Rightarrow> sidecar_metrics" where
  "RecordUpstreamError endpoint m = m\<lparr>upstream_errors := inc (upstream_errors m) endpoint\<rparr>"

record log_entry =
  log_tier :: string
  log_key :: string
  log_action :: string
  log_priority :: string
  log_latency_ms :: int

section \<open>Shadow mode, priorities, costs\<close>

text \<open>The argument is the value of the variable \<open>RATECAP_SHADOW_MODE\<close>.\<close>

definition GlobalOverrideEnabled :: "string \<Rightarrow> bool" where
  "GlobalOverrideEnabled v \<longleftrightarrow> v = ''true''"

definition CoerceIfShadowOverridden :: "proto_action \<Rightarrow> bool \<Rightarrow> proto_action" where
  "CoerceIfShadowOverridden action override =
    (if \<not> override then action
     else if action = P_REJECT_429 \<or> action = P_REJECT_503 then P_SHADOW_LOG else action)"

definition ResolvePriority :: "string \<Rightarrow> bool \<Rightarrow> Priority \<Rightarrow> Priority" where
  "ResolvePriority headerValue routeMatched defaultPriority =
    (if headerValue = ''critical'' then Critical
     else if headerValue = ''sheddable'' then Sheddable
     else if routeMatched then Critical else defaultPriority)"

text \<open>\<open>strconv.ParseInt\<close> in base 10 with 32 bits.\<close>

definition ParseInt32 :: "string \<Rightarrow> int option" where
  "ParseInt32 s = (case ParseInt s of None \<Rightarrow> None | Some v \<Rightarrow> if in_int32 v then Some v else None)"

definition resolveCost :: "string \<Rightarrow> int" where
  "resolveCost raw =
    (if raw = '''' then 1
     else (case ParseInt32 raw of None \<Rightarrow> 1 | Some parsed \<Rightarrow> if parsed \<le> 0 then 1 else parsed))"

fun actionLabel :: "proto_action \<Rightarrow> string" where
  "actionLabel P_ALLOW = ''allow''"
| "actionLabel P_REJECT_429 = ''reject_429''"
| "actionLabel P_REJECT_503 = ''reject_503''"
| "actionLabel P_SHADOW_LOG = ''shadow_log''"
| "actionLabel P_QUEUE = ''queue''"
| "actionLabel (P_UnknownAction _) = ''unknown''"

definition priorityLabel :: "Priority \<Rightarrow> string" where
  "priorityLabel p = (if p = Critical then ''critical'' else ''sheddable'')"

section \<open>The sidecar\<close>

record 'u rpc_client =
  rpc_Check :: "check_request \<Rightarrow> 'u \<Rightarrow> (status + check_response) \<times> 'u"
  rpc_Release :: "string \<Rightarrow> string \<Rightarrow> 'u \<Rightarrow> (status + unit) \<times> 'u"
  rpc_Refund :: "string \<Rightarrow> int \<Rightarrow> 'u \<Rightarrow> (status + unit) \<times> 'u"

record 'u sidecar =
  sc_shedder :: shedder
  sc_cache :: "neg_cache option"
  sc_routes :: "string set option"
  sc_shadow_env :: string
  sc_metrics :: sidecar_metrics
  sc_log :: "log_entry list"
  sc_upstream :: 'u

text \<open>The clock at the start, when the cache is read, when a denial is marked and when it is swept, and
  when a decision is logged and observed, by the sidecar itself and after core's answer; the draw.\<close>

record check_env =
  t_start :: int
  t_local_log :: int
  t_local_observe :: int
  t_core_log :: int
  t_core_observe :: int
  t_query :: int
  t_mark :: int
  t_sweep :: int
  random_draw :: dbl

definition upd_metrics :: "(sidecar_metrics \<Rightarrow> sidecar_metrics) \<Rightarrow> 'u sidecar \<Rightarrow> 'u sidecar" where
  "upd_metrics f s = s\<lparr>sc_metrics := f (sc_metrics s)\<rparr>"

definition decision_log :: "string \<Rightarrow> string \<Rightarrow> string \<Rightarrow> Priority \<Rightarrow> int \<Rightarrow> 'u sidecar \<Rightarrow> 'u sidecar" where
  "decision_log tier key action p latency s =
    s\<lparr>sc_log := sc_log s @ [\<lparr>log_tier = tier, log_key = key, log_action = action, log_priority = priorityLabel p,
       log_latency_ms = latency sdiv 1000000\<rparr>]\<rparr>"

text \<open>\<open>criticalroutes.Set.Contains\<close>; \<open>None\<close> is the nil set.\<close>

definition Contains :: "string set option \<Rightarrow> string \<Rightarrow> bool" where
  "Contains s route = (case s of None \<Rightarrow> False | Some routes \<Rightarrow> if route = '''' then False else route \<in> routes)"

section \<open>The check handler\<close>

text \<open>Lines 175 to 178: the reservations as numbered headers.\<close>

fun reservation_headers :: "nat \<Rightarrow> token_reservation list \<Rightarrow> http_response \<Rightarrow> http_response" where
  "reservation_headers i [] w = w"
| "reservation_headers i (r # rs) w =
    reservation_headers (Suc i) rs
      (Header_Set (''Concurrency-Key-'' @ Itoa (int i)) (res_Key r)
        (Header_Set (''Concurrency-Token-'' @ Itoa (int i)) (res_Token r) w))"

text \<open>Lines 203 to 225: the action as a status.\<close>

definition write_action :: "proto_action \<Rightarrow> check_response \<Rightarrow> http_response \<Rightarrow> http_response" where
  "write_action action resp w =
    (case action of
       P_ALLOW \<Rightarrow> WriteHeader 200 w
     | P_SHADOW_LOG \<Rightarrow> WriteHeader 200 w
     | P_QUEUE \<Rightarrow> WriteHeader 200 w
     | P_REJECT_429 \<Rightarrow>
         (let w1 = Header_Set ''Retry-After-Ms'' (Itoa (crs_RetryAfterMs resp)) w;
              w2 = Header_Set ''RateLimit-Reset'' (Itoa (int64 (crs_RetryAfterMs resp + 999) sdiv 1000)) w1;
              w3 = (if crs_Tier resp = ''rate_limiter''
                    then Header_Set ''RateLimit-Remaining'' (Itoa (crs_Remaining resp))
                           (Header_Set ''RateLimit-Limit'' (Itoa (crs_Limit resp)) w2)
                    else w2)
          in WriteHeader 429 w3)
     | P_REJECT_503 \<Rightarrow> WriteHeader 503 (Header_Set ''X-RateCap-Shed-Tier'' ''3'' w)
     | P_UnknownAction _ \<Rightarrow> w)"

text \<open>Lines 141 to 225: the call to core and what becomes of its answer.\<close>

definition serve_upstream ::
  "'u rpc_client \<Rightarrow> check_env \<Rightarrow> http_request \<Rightarrow> string \<Rightarrow> Priority \<Rightarrow> 'u sidecar \<Rightarrow> http_response \<times> 'u sidecar" where
  "serve_upstream rpc env r key priority s =
    (let protoPriority = (if priority = Critical then CRITICAL else SHEDDABLE);
         (result, u') = rpc_Check rpc \<lparr>crq_Key = key, crq_Cost = int32 (resolveCost (rq_Query r ''cost'')),
            crq_SkipReservations = (rq_Query r ''skip_reservations'' = ''true''), crq_Priority = protoPriority\<rparr> (sc_upstream s);
         s1 = s\<lparr>sc_upstream := u'\<rparr>
     in case result of
       Inl err \<Rightarrow> (http_Error ''upstream check failed'' 500 fresh_response, upd_metrics (RecordUpstreamError ''check_rate_limit'') s1)
     | Inr resp \<Rightarrow>
       (let w = reservation_headers 0 (crs_Reservations resp) fresh_response;
            realAction = crs_Action resp;
            action = (if GlobalOverrideEnabled (sc_shadow_env s1) then CoerceIfShadowOverridden realAction True else realAction);
            s2 = upd_metrics (RecordDecisionLatency (crs_Tier resp) (t_core_observe env - t_start env))
                   (decision_log (crs_Tier resp) key (actionLabel realAction) priority (t_core_log env - t_start env)
                     (upd_metrics (RecordDecision (crs_Tier resp) (actionLabel realAction)) s1));
            s3 = (if action \<noteq> realAction then upd_metrics (RecordShadowWouldReject (crs_Tier resp)) s2 else s2);
            s4 = (if realAction = P_REJECT_429
                  then s3\<lparr>sc_cache := map_option
                         (MarkDenied key (int64 (crs_RetryAfterMs resp * 1000000)) (t_mark env) (t_sweep env)) (sc_cache s3)\<rparr>
                  else s3)
        in (write_action action resp w, s4)))"

text \<open>Lines 102 to 113: the answer from the cache.\<close>

definition serve_denied ::
  "check_env \<Rightarrow> string \<Rightarrow> Priority \<Rightarrow> int \<Rightarrow> 'u sidecar \<Rightarrow> http_response \<times> 'u sidecar" where
  "serve_denied env key priority remaining s =
    (let s1 = upd_metrics (RecordDecisionLatency ''negative_cache'' (t_local_observe env - t_start env))
                (decision_log ''negative_cache'' key ''reject_429'' priority (t_local_log env - t_start env)
                  (upd_metrics (RecordDecision ''negative_cache'' ''reject_429'') s));
         remainingMs = remaining sdiv 1000000
     in (WriteHeader 429
           (Header_Set ''RateLimit-Reset'' (Itoa (int64 (remainingMs + 999) sdiv 1000))
             (Header_Set ''Retry-After-Ms'' (Itoa remainingMs) fresh_response)), s1))"

text \<open>Lines 115 to 139: Tier 4 in front of the call; \<open>serve\<close> is the rest of the handler, after which
  the deferred release runs.\<close>

definition serve_shed ::
  "check_env \<Rightarrow> string \<Rightarrow> Priority \<Rightarrow> ('u sidecar \<Rightarrow> http_response \<times> 'u sidecar) \<Rightarrow> 'u sidecar \<Rightarrow>
   http_response \<times> 'u sidecar" where
  "serve_shed env key priority serve s =
    (if priority = Critical then serve s
     else
      (case Allow (sc_shedder s) (random_draw env) of
         (False, sh) \<Rightarrow>
           (let s1 = s\<lparr>sc_shedder := sh\<rparr>;
                recorded = (\<lambda>x. upd_metrics (RecordDecisionLatency ''worker_shedder'' (t_local_observe env - t_start env))
                  (decision_log ''worker_shedder'' key ''reject_503'' priority (t_local_log env - t_start env) x))
            in if \<not> GlobalOverrideEnabled (sc_shadow_env s) then
                 (WriteHeader 503 (Header_Set ''X-RateCap-Shed-Tier'' ''4'' fresh_response),
                  recorded
                    (upd_metrics (\<lambda>m. SetWorkerInFlight (InFlight sh) (RecordDecision ''worker_shedder'' ''reject_503'' m)) s1))
               else
                 serve (recorded
                    (upd_metrics (\<lambda>m. SetWorkerInFlight (InFlight sh)
                       (RecordShadowWouldReject ''worker_shedder'' (RecordDecision ''worker_shedder'' ''reject_503'' m))) s1)))
       | (True, sh) \<Rightarrow>
           (case serve (upd_metrics (SetWorkerInFlight (InFlight sh)) (s\<lparr>sc_shedder := sh\<rparr>)) of
              (w, s2) \<Rightarrow>
                (let sh2 = shed_Release (sc_shedder s2)
                 in (w, upd_metrics (SetWorkerInFlight (InFlight sh2)) (s2\<lparr>sc_shedder := sh2\<rparr>))))))"

definition serve_check ::
  "'u rpc_client \<Rightarrow> Priority \<Rightarrow> check_env \<Rightarrow> http_request \<Rightarrow> 'u sidecar \<Rightarrow> http_response \<times> 'u sidecar" where
  "serve_check rpc defaultPriority env r s =
    (if rq_Method r \<noteq> ''GET'' then (http_Error ''method not allowed'' 405 fresh_response, s)
     else
      (let key = rq_Query r ''key''
       in if key = '''' then (http_Error ''missing key parameter'' 400 fresh_response, s)
          else
           (let routeMatched = Contains (sc_routes s) (Header_Get r ''x-ratecap-route'');
                priority = ResolvePriority (Header_Get r ''x-ratecap-priority'') routeMatched defaultPriority;
                go = serve_shed env key priority (serve_upstream rpc env r key priority)
            in case sc_cache s of
                 None \<Rightarrow> go s
               | Some cache \<Rightarrow>
                 (case IsDenied key (t_query env) cache of
                    ((denied, remaining), cache') \<Rightarrow>
                      (let s1 = s\<lparr>sc_cache := Some cache'\<rparr>
                       in if denied then serve_denied env key priority remaining s1 else go s1)))))"

section \<open>The release handler\<close>

definition serve_release ::
  "'u rpc_client \<Rightarrow> http_request \<Rightarrow> 'u sidecar \<Rightarrow> http_response \<times> 'u sidecar" where
  "serve_release rpc r s =
    (if rq_Method r \<noteq> ''POST'' then (http_Error ''method not allowed'' 405 fresh_response, s)
     else
      (let concurrencyKey = Header_Get r ''X-RateCap-Concurrency-Key'';
           refundKey = Header_Get r ''X-RateCap-Refund-Key'';
           refund = (\<lambda>s1.
             if refundKey \<noteq> '''' then
               (case ParseInt32 (Header_Get r ''X-RateCap-Refund-Amount'') of
                  None \<Rightarrow> (http_Error ''invalid or missing X-RateCap-Refund-Amount'' 400 fresh_response, s1)
                | Some refundAmount \<Rightarrow>
                    if refundAmount \<le> 0 then (http_Error ''invalid or missing X-RateCap-Refund-Amount'' 400 fresh_response, s1)
                    else
                     (case rpc_Refund rpc refundKey (int32 refundAmount) (sc_upstream s1) of
                        (Inl err, u') \<Rightarrow>
                          (http_Error ''upstream refund failed'' 500 fresh_response,
                           upd_metrics (RecordUpstreamError ''refund_cost'') (s1\<lparr>sc_upstream := u'\<rparr>))
                      | (Inr _, u') \<Rightarrow> (WriteHeader 200 fresh_response, s1\<lparr>sc_upstream := u'\<rparr>)))
             else (WriteHeader 200 fresh_response, s1))
       in if concurrencyKey = '''' \<and> refundKey = '''' then (http_Error ''missing key parameter'' 400 fresh_response, s)
          else if concurrencyKey \<noteq> '''' then
            (case rpc_Release rpc concurrencyKey (Header_Get r ''X-RateCap-Concurrency-Token'') (sc_upstream s) of
               (Inl err, u') \<Rightarrow>
                 (http_Error ''upstream release failed'' 500 fresh_response,
                  upd_metrics (\<lambda>m. RecordReleaseResult ''failure'' (RecordUpstreamError ''release_concurrency'' m))
                    (s\<lparr>sc_upstream := u'\<rparr>))
             | (Inr _, u') \<Rightarrow> refund (upd_metrics (RecordReleaseResult ''success'') (s\<lparr>sc_upstream := u'\<rparr>)))
          else refund s))"

end
