(* ===== verification/SidecarAdmin.thy ===== *)
theory SidecarAdmin
  imports FileWatcher CoreConfig SidecarProxy
begin

text \<open>
  \<open>services/sidecar/admin\<close>: the handler of \<open>/admin/set-limit\<close>; \<open>services/sidecar/criticalroutes\<close>: the set
  of critical routes and its reload; and the reloads of the configuration and of certificates.  The
  JSON coding, the YAML parser and the file system are arguments.
\<close>

section \<open>The admin endpoint\<close>

record setLimitBody =
  body_Tier :: string
  body_Value :: int

text \<open>\<open>decode\<close> reads the first JSON value of a body, \<open>encode\<close> writes the answer of core.\<close>

definition serve_admin ::
  "(string \<Rightarrow> go_error + setLimitBody) \<Rightarrow> (set_response \<Rightarrow> string) \<Rightarrow>
   (string \<Rightarrow> int \<Rightarrow> 'u \<Rightarrow> (status + set_response) \<times> 'u) \<Rightarrow> string \<Rightarrow> http_request \<Rightarrow> 'u \<Rightarrow> http_response \<times> 'u" where
  "serve_admin decode encode rpc_SetDynamicLimit secret r u =
    (if rq_Method r \<noteq> ''POST'' then (http_Error ''method not allowed'' 405 fresh_response, u)
     else if secret = '''' then (http_Error ''admin endpoint disabled: no admin secret configured'' 503 fresh_response, u)
     else
      (let provided = Header_Get r ''X-RateCap-Admin-Secret''
       in if provided = '''' \<or> provided \<noteq> secret then (http_Error ''unauthorized'' 401 fresh_response, u)
          else (case decode (rq_Body r) of
             Inl err \<Rightarrow> (http_Error ''invalid request body'' 400 fresh_response, u)
           | Inr body \<Rightarrow>
             (case rpc_SetDynamicLimit (body_Tier body) (body_Value body) u of
                (Inl err, u1) \<Rightarrow> (http_Error ''upstream call failed'' 500 fresh_response, u1)
              | (Inr resp, u1) \<Rightarrow>
                (write_body (encode resp) (Header_Set ''Content-Type'' ''application/json'' fresh_response), u1)))))"

text \<open>
  The admin endpoint changes a limit only for a POST that carries the configured secret and a body
  that parses, and then exactly as core answers; without a configured secret nobody is let in, and
  the answer tells which of these was missing.
\<close>

theorem admin_gate:
  "snd (serve_admin decode encode rpc secret r u) =
    (if rq_Method r = ''POST'' \<and> secret \<noteq> '''' \<and> Header_Get r ''X-RateCap-Admin-Secret'' = secret
     then (case decode (rq_Body r) of Inl _ \<Rightarrow> u | Inr b \<Rightarrow> snd (rpc (body_Tier b) (body_Value b) u)) else u) \<and>
   status_of (fst (serve_admin decode encode rpc secret r u)) =
    (if rq_Method r \<noteq> ''POST'' then 405
     else if secret = '''' then 503
     else if Header_Get r ''X-RateCap-Admin-Secret'' \<noteq> secret then 401
     else (case decode (rq_Body r) of Inl _ \<Rightarrow> 400
       | Inr b \<Rightarrow> (case fst (rpc (body_Tier b) (body_Value b) u) of Inl _ \<Rightarrow> 500 | Inr _ \<Rightarrow> 200)))"
  by (auto simp: serve_admin_def Let_def split: sum.split prod.split)

section \<open>Critical routes\<close>

text \<open>\<open>read\<close> is the file system, \<open>yaml\<close> the parser: the list \<open>critical_routes\<close> of a document.\<close>

definition Load_routes :: "(string \<Rightarrow> go_error + string) \<Rightarrow> (string \<Rightarrow> go_error + string list) \<Rightarrow> string \<Rightarrow> go_error + string set" where
  "Load_routes read yaml path =
    (case read path of
       Inl err \<Rightarrow> Inl (''reading critical routes '' @ path @ '': '' @ err)
     | Inr data \<Rightarrow> (case yaml data of
         Inl err \<Rightarrow> Inl (''parsing critical routes '' @ path @ '': '' @ err)
       | Inr routes \<Rightarrow> Inr (set routes)))"

definition store_routes :: "go_error + string set \<Rightarrow> string set \<Rightarrow> string set" where
  "store_routes loaded routes = (case loaded of Inl err \<Rightarrow> routes | Inr reloaded \<Rightarrow> reloaded)"

text \<open>\<open>criticalroutes.Watch\<close>: the first load must succeed, then the loop runs.\<close>

definition Watch_routes ::
  "string \<Rightarrow> int \<Rightarrow> go_error + string set \<Rightarrow> (go_error + string set) watch_event list \<Rightarrow>
   go_error + string set watch option" where
  "Watch_routes path t first es =
    (case first of Inl err \<Rightarrow> Inl err | Inr routes \<Rightarrow> Inr (watch_run path store_routes es (watch_start t routes)))"

definition loaded :: "'e + 'v \<Rightarrow> 'v option" where
  "loaded r = (case r of Inl _ \<Rightarrow> None | Inr v \<Rightarrow> Some v)"

interpretation routes: last_known_good store_routes loaded "\<lambda>s. s"
  by unfold_locales (simp add: store_routes_def loaded_def split: sum.split)

section \<open>Configurations\<close>

text \<open>\<open>config.Watch\<close> with the callback of core's \<open>main\<close>.\<close>

definition Watch_config ::
  "(string \<Rightarrow> string) \<Rightarrow> string \<Rightarrow> int \<Rightarrow> limiters \<times> core_metrics \<Rightarrow> (go_error + config) watch_event list \<Rightarrow>
   (limiters \<times> core_metrics) watch option" where
  "Watch_config sha256 path t st es = watch_run path (on_reload sha256) es (watch_start t st)"

definition valid_limiters :: "go_error + config \<Rightarrow> limiters option" where
  "valid_limiters r = (case r of Inl _ \<Rightarrow> None | Inr c \<Rightarrow> if Validate c = None then Some (new_limiters c) else None)"

interpretation configs: last_known_good "on_reload sha256" valid_limiters fst for sha256
  by unfold_locales
    (auto simp: on_reload_cases valid_limiters_def split: sum.split)

section \<open>Certificates\<close>

text \<open>\<open>watchCert\<close> and \<open>reload\<close>: every event on either file loads the pair at once; \<open>load_pair\<close> is what
  \<open>tls.LoadX509KeyPair\<close> finds then.\<close>

datatype 'x cert_event = CertFsEvent string "go_error + 'x" | CertFsError | CertStop

fun reload_cert :: "go_error + 'x \<Rightarrow> 'x \<Rightarrow> 'x" where
  "reload_cert (Inl err) current = current"
| "reload_cert (Inr cert) current = cert"

fun watchCert_loop :: "string \<Rightarrow> string \<Rightarrow> 'x cert_event list \<Rightarrow> 'x \<Rightarrow> 'x" where
  "watchCert_loop certPath keyPath [] current = current"
| "watchCert_loop certPath keyPath (CertFsEvent name load_pair # es) current =
    watchCert_loop certPath keyPath es
      (if name = certPath \<or> name = keyPath then reload_cert load_pair current else current)"
| "watchCert_loop certPath keyPath (CertFsError # es) current = watchCert_loop certPath keyPath es current"
| "watchCert_loop certPath keyPath (CertStop # es) current = current"

definition watchCert :: "string \<Rightarrow> string \<Rightarrow> go_error + 'x \<Rightarrow> 'x cert_event list \<Rightarrow> go_error + 'x" where
  "watchCert certPath keyPath first es =
    (case first of Inl err \<Rightarrow> Inl err | Inr cert \<Rightarrow> Inr (watchCert_loop certPath keyPath es cert))"

interpretation certs: last_known_good reload_cert loaded "\<lambda>c. c"
proof
  show "reload_cert r c = (case loaded r of None \<Rightarrow> c | Some v \<Rightarrow> v)" for r :: "go_error + 'a" and c
    by (cases r) (simp_all add: loaded_def)
qed

fun cert_loads :: "string \<Rightarrow> string \<Rightarrow> 'x cert_event list \<Rightarrow> (go_error + 'x) list" where
  "cert_loads certPath keyPath [] = []"
| "cert_loads certPath keyPath (CertFsEvent name r # es) =
    (if name = certPath \<or> name = keyPath then [r] else []) @ cert_loads certPath keyPath es"
| "cert_loads certPath keyPath (CertFsError # es) = cert_loads certPath keyPath es"
| "cert_loads certPath keyPath (CertStop # es) = []"

lemma watchCert_fold: "watchCert_loop p k es c = fold reload_cert (cert_loads p k es) c"
  by (induction p k es c rule: watchCert_loop.induct) auto

section \<open>Reloads between changes of a limit\<close>

text \<open>What changes the limiters of a core process: a reload of its watcher and the RPC \<open>SetDynamicLimit\<close>.\<close>

datatype limit_event = Reloaded "go_error + config" | LimitSet string int

definition set_limit :: "string \<Rightarrow> int \<Rightarrow> limiters \<Rightarrow> limiters" where
  "set_limit tier v ls =
    (case SetDynamicLimit tier v (rateLimiter ls, fleetShedder ls) of
       (_, tb, fs) \<Rightarrow> ls\<lparr>rateLimiter := tb, fleetShedder := fs\<rparr>)"

fun limit_event_step :: "(string \<Rightarrow> string) \<Rightarrow> limit_event \<Rightarrow> limiters \<times> core_metrics \<Rightarrow> limiters \<times> core_metrics" where
  "limit_event_step sha256 (Reloaded r) st = on_reload sha256 r st"
| "limit_event_step sha256 (LimitSet tier v) st = (set_limit tier v (fst st), snd st)"

definition good_reload :: "limit_event \<Rightarrow> limiters option" where
  "good_reload e = (case e of Reloaded r \<Rightarrow> valid_limiters r | LimitSet _ _ \<Rightarrow> None)"

fun limits_set :: "limit_event list \<Rightarrow> (string \<times> int) list" where
  "limits_set [] = []"
| "limits_set (LimitSet tier v # es) = (tier, v) # limits_set es"
| "limits_set (Reloaded r # es) = limits_set es"

lemma no_good_reload:
  "\<forall>e \<in> set es. good_reload e = None \<Longrightarrow>
    fst (fold (limit_event_step sha256) es st) = fold (\<lambda>(tier, v). set_limit tier v) (limits_set es) (fst st)"
proof (induction es arbitrary: st rule: limits_set.induct)
  case (3 r es)
  then have "fst (on_reload sha256 r st) = fst st" by (simp add: configs.apply_view good_reload_def)
  then show ?case using 3 by simp
qed (auto simp: good_reload_def)

lemma good_reload_forgets:
  assumes "good_reload e = Some ls" "\<forall>e \<in> set es. good_reload e = None"
  shows "fst (fold (limit_event_step sha256) (before @ e # es) st) = fold (\<lambda>(tier, v). set_limit tier v) (limits_set es) ls"
proof -
  have "fst (limit_event_step sha256 e st') = ls" for st'
    using assms(1) by (cases e) (simp_all add: configs.apply_view good_reload_def)
  then show ?thesis using no_good_reload[OF assms(2)] by simp
qed

text \<open>
  C30: A reload that cannot be read, does not parse or is not valid changes nothing, and a good one
  replaces everything.  What a watcher has made of its events is, for the routes of a sidecar, a
  certificate and the limiters of a core process, the last good reload, or the start if there was
  none.  Between reloads the RPC \<open>SetDynamicLimit\<close> changes the limiters as well: the limiters of a
  process are then those of the last good reload with just the changes made since, and every change
  made before it is undone.
\<close>

theorem last_good_reload_rules:
  assumes "Watch_routes path t (Inr r0) es = Inr (Some w)" "Watch_config sha256 path' t' (ls0, m) es' = Some w'"
    and "watchCert certPath keyPath (Inr c0) es'' = Inr c"
  shows "wt_value w = last (r0 # List.map_filter loaded (loads es)) \<and>
    fst (wt_value w') = last (ls0 # List.map_filter valid_limiters (loads es')) \<and>
    c = last (c0 # List.map_filter loaded (cert_loads certPath keyPath es'')) \<and>
    (\<forall>after. (\<forall>e \<in> set after. good_reload e = None) \<longrightarrow>
      fst (fold (limit_event_step sha256) after (ls0, m)) = fold (\<lambda>(tier, v). set_limit tier v) (limits_set after) ls0 \<and>
      (\<forall>before e ls. good_reload e = Some ls \<longrightarrow>
        fst (fold (limit_event_step sha256) (before @ e # after) (ls0, m)) =
          fold (\<lambda>(tier, v). set_limit tier v) (limits_set after) ls))"
  using routes.watched_view[of path es t r0 w] configs.watched_view[of path' sha256 es' t' "(ls0, m)" w'] assms
    certs.fold_view[of "cert_loads certPath keyPath es''" c0] good_reload_forgets no_good_reload
  by (simp add: Watch_routes_def Watch_config_def watchCert_def watchCert_fold)

theorem last_good_reload_rules_witness:
  "last ({''GET /a''} # List.map_filter loaded [Inl ''bad'' :: go_error + string set]) = {''GET /a''} \<and>
   (\<exists>w. Watch_routes ''f'' 0 (Inr {''GET /a''})
      [FsEvent 1 ''f'' [Write], Expire 60000000, TimerC 60000001 (Inl ''bad'')] = Inr (Some w) \<and> wt_value w = {''GET /a''})"
proof -
  let ?es = "[FsEvent 1 ''f'' [Write], Expire 60000000, TimerC 60000001 (Inl ''bad'')] :: (go_error + string set) watch_event list"
  obtain w where w: "Watch_routes ''f'' 0 (Inr {''GET /a''}) ?es = Inr (Some w)"
    by (simp add: Watch_routes_def watch_start_def relevant_def debounceWindow_def)
  have cert: "watchCert ''c'' ''k'' (Inr (1::int)) [] = Inr 1" by (simp add: watchCert_def)
  let ?ls = "\<lparr>rateLimiter = NewTokenBucketLimiter 1 1 False, concurrencyLimiter = NewConcurrencyLimiter 1 1 False False 0 0 0,
    fleetShedder = NewFleetShedder 1 0 1 False\<rparr>"
  have c: "Watch_config (\<lambda>s. s) ''y'' 0 (?ls, core_metrics0) [] = Some (watch_start 0 (?ls, core_metrics0))"
    by (simp add: Watch_config_def)
  have "wt_value w = last ({''GET /a''} # List.map_filter loaded (loads ?es))"
    by (rule last_good_reload_rules[OF w c cert, THEN conjunct1])
  then show ?thesis using w by (simp add: map_filter_simps loaded_def)
qed

end
