(* ===== verification/SidecarProps.thy ===== *)
theory SidecarProps
  imports SidecarProxy
begin

text \<open>
  What the handlers of \<open>/check\<close> and \<open>/release\<close> guarantee: a table of answers that they refine, the
  deferred release of the load counter, the headers of a refusal, what a refusal leaves in the
  negative cache, global shadow mode, and which refunds go to core.
\<close>

section \<open>The deferred release\<close>

text \<open>The rest of the handler, as Tier 4 sees it: it leaves the counter and the environment alone.\<close>

locale counted_handler =
  fixes serve :: "'u sidecar \<Rightarrow> http_response \<times> 'u sidecar"
  assumes keeps_shedder: "serve s = (w, s') \<Longrightarrow> sc_shedder s' = sc_shedder s"
begin

lemma serve_shed_balanced:
  assumes "0 \<le> inflight (sc_shedder s)" "inflight (sc_shedder s) \<le> sh_max (sc_shedder s)"
    and "sh_max (sc_shedder s) < 2 ^ 63" "serve_shed r key p serve s = (w, s')"
  shows "sc_shedder s' = sc_shedder s"
proof (cases "p = Critical")
  case True
  then show ?thesis using assms(4) keeps_shedder by (auto simp: serve_shed_def)
next
  case False
  obtain b sh where a: "Allow (sc_shedder s) (random_draw r) = (b, sh)" by fastforce
  show ?thesis
  proof (cases b)
    case True
    then have sh: "sh = (sc_shedder s)\<lparr>inflight := int64 (inflight (sc_shedder s) + 1)\<rparr>"
      "inflight (sc_shedder s) < sh_max (sc_shedder s)"
      using a by (auto simp: Allow_def Let_def split: if_splits)
    have i: "int64 (inflight (sc_shedder s) + 1) = inflight (sc_shedder s) + 1"
      using assms(1,3) sh(2) by (intro int64_id) (simp add: in_int64_def)
    have j: "int64 (inflight (sc_shedder s)) = inflight (sc_shedder s)"
      using assms(1,3) sh(2) by (intro int64_id) (simp add: in_int64_def)
    show ?thesis using assms(4) False True a sh(1) i j
      by (auto simp: serve_shed_def upd_metrics_def shed_Release_def Let_def split: prod.splits dest!: keeps_shedder)
  next
    case b: False
    then have "sh = sc_shedder s" using a by (auto simp: Allow_def Let_def split: if_splits)
    then show ?thesis using assms(4) False b a
      by (auto simp: serve_shed_def upd_metrics_def decision_log_def Let_def split: if_splits dest!: keeps_shedder)
  qed
qed

end

lemma upd_simps [simp]:
  "sc_shedder (upd_metrics f s) = sc_shedder s" "sc_cache (upd_metrics f s) = sc_cache s"
  "sc_shadow_env (upd_metrics f s) = sc_shadow_env s" "sc_upstream (upd_metrics f s) = sc_upstream s"
  "sc_routes (upd_metrics f s) = sc_routes s" "sc_log (upd_metrics f s) = sc_log s"
  "sc_metrics (upd_metrics f s) = f (sc_metrics s)"
  "sc_shedder (decision_log t k a p l s) = sc_shedder s" "sc_cache (decision_log t k a p l s) = sc_cache s"
  "sc_shadow_env (decision_log t k a p l s) = sc_shadow_env s" "sc_upstream (decision_log t k a p l s) = sc_upstream s"
  "sc_routes (decision_log t k a p l s) = sc_routes s" "sc_metrics (decision_log t k a p l s) = sc_metrics s"
  by (simp_all add: upd_metrics_def decision_log_def)

lemma upstream_errors_simps [simp]:
  "upstream_errors (RecordDecision t a m) = upstream_errors m" "upstream_errors (RecordShadowWouldReject t m) = upstream_errors m"
  "upstream_errors (SetWorkerInFlight v m) = upstream_errors m" "upstream_errors (RecordDecisionLatency t d m) = upstream_errors m"
  by (simp_all add: RecordDecision_def RecordShadowWouldReject_def SetWorkerInFlight_def RecordDecisionLatency_def)

lemma serve_upstream_keeps:
  "serve_upstream rpc env r key p s = (w, s') \<Longrightarrow>
    sc_shedder s' = sc_shedder s \<and> sc_shadow_env s' = sc_shadow_env s \<and> sc_routes s' = sc_routes s"
  by (auto simp: serve_upstream_def Let_def split: sum.splits prod.splits if_splits)

interpretation upstream: counted_handler "serve_upstream rpc env r key p" for rpc env r key p
  by unfold_locales (use serve_upstream_keeps in blast)

text \<open>
  C22: A request to \<open>/check\<close> leaves the counter of requests in flight as it found it, whatever it asks
  for and however it is answered: the deferred release runs once exactly if Tier 4 had counted it.
\<close>

theorem check_balances_inflight:
  assumes "0 \<le> InFlight (sc_shedder s)" "InFlight (sc_shedder s) \<le> sh_max (sc_shedder s)"
    and "sh_max (sc_shedder s) < 2 ^ 63"
  shows "sc_shedder (snd (serve_check rpc dp env r s)) = sc_shedder s"
proof -
  have go: "sc_shedder (snd (serve_shed d k p (serve_upstream rpc env r k p) x)) = sc_shedder x"
    if "sc_shedder x = sc_shedder s" for d k p x
    using upstream.serve_shed_balanced[of x d k p rpc env r] assms that by (metis InFlight_def prod.collapse)
  show ?thesis
    by (auto simp: serve_check_def serve_denied_def go Let_def split: option.splits prod.splits)
qed

text \<open>A sidecar to evaluate on, and a core that answers as it is told and logs what it was asked.\<close>

definition demo_sidecar :: "int \<Rightarrow> string \<Rightarrow> neg_cache \<Rightarrow> 'u \<Rightarrow> 'u sidecar" where
  "demo_sidecar n shadow c u =
    \<lparr>sc_shedder = \<lparr>inflight = n, sh_max = 2, rampStartPct = 100\<rparr>, sc_cache = Some c, sc_routes = None,
     sc_shadow_env = shadow,
     sc_metrics = \<lparr>decisions = (\<lambda>_. 0), shadow_would_reject = (\<lambda>_. 0), worker_inflight = 0, releases = (\<lambda>_. 0),
       upstream_errors = (\<lambda>_. 0), latencies = (\<lambda>_. [])\<rparr>,
     sc_log = [], sc_upstream = u\<rparr>"

definition demo_rpc :: "status + check_response \<Rightarrow> string list rpc_client" where
  "demo_rpc a = \<lparr>rpc_Check = (\<lambda>q u. (a, u @ [''check''])),
     rpc_Release = (\<lambda>k t u. (Inr (), u @ [''release''])), rpc_Refund = (\<lambda>k n u. (Inr (), u @ [''refund'' @ Itoa n]))\<rparr>"

definition demo_get :: http_request where
  "demo_get = \<lparr>rq_Method = ''GET'', rq_Query = (\<lambda>n. if n = ''key'' then ''a'' else ''''), rq_Header = (\<lambda>_. ''''), rq_Body = ''''\<rparr>"

definition demo_env :: "int \<Rightarrow> check_env" where
  "demo_env t = \<lparr>t_start = t, t_local_log = t, t_local_observe = t, t_core_log = t, t_core_observe = t, t_query = t,
     t_mark = t, t_sweep = t, random_draw = Fin 0\<rparr>"

definition demo_answer :: "proto_action \<Rightarrow> check_response" where
  "demo_answer a = \<lparr>crs_Action = a, crs_RetryAfterMs = 1500, crs_Reservations = [], crs_Tier = ''rate_limiter'',
     crs_Limit = 5, crs_Remaining = 2\<rparr>"

theorem check_balances_inflight_witness:
  "sc_shedder (snd (serve_check (demo_rpc (Inr (demo_answer P_ALLOW))) Sheddable (demo_env 7) demo_get
     (demo_sidecar 1 '''' fmempty []))) = \<lparr>inflight = 1, sh_max = 2, rampStartPct = 100\<rparr>"
  using check_balances_inflight[of "demo_sidecar 1 '''' fmempty []" "demo_rpc (Inr (demo_answer P_ALLOW))" Sheddable
      "demo_env 7" demo_get]
  by (simp add: demo_sidecar_def InFlight_def)

section \<open>The answers\<close>

text \<open>The abstract table of \<open>/check\<close>: the status, and the request put to core, if any.\<close>

definition action_status :: "proto_action \<Rightarrow> int" where
  "action_status a = (if a = P_REJECT_429 then 429 else if a = P_REJECT_503 then 503 else 200)"

definition check_priority :: "Priority \<Rightarrow> http_request \<Rightarrow> 'u sidecar \<Rightarrow> Priority" where
  "check_priority dp r s =
    ResolvePriority (Header_Get r ''x-ratecap-priority'') (Contains (sc_routes s) (Header_Get r ''x-ratecap-route'')) dp"

definition core_question :: "Priority \<Rightarrow> http_request \<Rightarrow> 'u sidecar \<Rightarrow> check_request" where
  "core_question dp r s = \<lparr>crq_Key = rq_Query r ''key'', crq_Cost = resolveCost (rq_Query r ''cost''),
     crq_SkipReservations = (rq_Query r ''skip_reservations'' = ''true''),
     crq_Priority = (if check_priority dp r s = Critical then CRITICAL else SHEDDABLE)\<rparr>"

definition cached_denial :: "string \<Rightarrow> int \<Rightarrow> 'u sidecar \<Rightarrow> bool" where
  "cached_denial key now s = (case sc_cache s of None \<Rightarrow> False | Some c \<Rightarrow> fst (fst (IsDenied key now c)))"

definition shed_here :: "Priority \<Rightarrow> check_env \<Rightarrow> http_request \<Rightarrow> 'u sidecar \<Rightarrow> bool" where
  "shed_here dp env r s \<longleftrightarrow> check_priority dp r s \<noteq> Critical \<and> \<not> fst (Allow (sc_shedder s) (random_draw env)) \<and>
     sc_shadow_env s \<noteq> ''true''"

definition check_table ::
  "'u rpc_client \<Rightarrow> Priority \<Rightarrow> check_env \<Rightarrow> http_request \<Rightarrow> 'u sidecar \<Rightarrow> int \<times> 'u" where
  "check_table rpc dp env r s =
    (if rq_Method r \<noteq> ''GET'' then (405, sc_upstream s)
     else if rq_Query r ''key'' = '''' then (400, sc_upstream s)
     else if cached_denial (rq_Query r ''key'') (t_query env) s then (429, sc_upstream s)
     else if shed_here dp env r s then (503, sc_upstream s)
     else (case rpc_Check rpc (core_question dp r s) (sc_upstream s) of
       (Inl _, u) \<Rightarrow> (500, u)
     | (Inr resp, u) \<Rightarrow> (if sc_shadow_env s = ''true'' then 200 else action_status (crs_Action resp), u)))"

lemma resolveCost_range: "1 \<le> resolveCost raw \<and> resolveCost raw \<le> 2 ^ 31 - 1"
  by (auto simp: resolveCost_def ParseInt32_def in_int32_def split: option.splits)

lemma resolveCost_int32 [simp]: "int32 (resolveCost raw) = resolveCost raw"
  using resolveCost_range[of raw] by (intro int32_id) (simp add: in_int32_def)

lemma reservation_headers_status [simp]: "rs_Status (reservation_headers i rs w) = rs_Status w"
  by (induction i rs w rule: reservation_headers.induct) auto

lemma write_action_status:
  "rs_Status w = None \<Longrightarrow> status_of (write_action a resp w) = action_status a"
  by (auto simp: write_action_def action_status_def status_of_def Let_def split: proto_action.split)

lemma coerced_status: "action_status (CoerceIfShadowOverridden a True) = 200"
  by (auto simp: CoerceIfShadowOverridden_def action_status_def)

lemma serve_upstream_table:
  assumes "check_priority dp r s0 = p" "key = rq_Query r ''key''"
  shows "(status_of (fst (serve_upstream rpc env r key p s)), sc_upstream (snd (serve_upstream rpc env r key p s))) =
    (case rpc_Check rpc (core_question dp r s0) (sc_upstream s) of
       (Inl _, u) \<Rightarrow> (500, u)
     | (Inr resp, u) \<Rightarrow> (if sc_shadow_env s = ''true'' then 200 else action_status (crs_Action resp), u))"
  using assms
  by (auto simp: serve_upstream_def core_question_def GlobalOverrideEnabled_def write_action_status coerced_status Let_def
      split: sum.split prod.split)

lemma serve_denied_table:
  "status_of (fst (serve_denied env key p rem s)) = 429" "sc_upstream (snd (serve_denied env key p rem s)) = sc_upstream s"
  by (simp_all add: serve_denied_def status_of_def Let_def)

lemma serve_shed_table:
  fixes serve :: "'u sidecar \<Rightarrow> http_response \<times> 'u sidecar"
  assumes "\<And>s'. sc_upstream s' = sc_upstream s \<Longrightarrow> sc_shadow_env s' = sc_shadow_env s \<Longrightarrow>
    (status_of (fst (serve s')), sc_upstream (snd (serve s'))) = z"
  shows "(status_of (fst (serve_shed d key p serve s)), sc_upstream (snd (serve_shed d key p serve s))) =
    (if p \<noteq> Critical \<and> \<not> fst (Allow (sc_shedder s) (random_draw d)) \<and> sc_shadow_env s \<noteq> ''true'' then (503, sc_upstream s) else z)"
proof (cases "p = Critical")
  case True
  then show ?thesis using assms[of s] by (simp add: serve_shed_def)
next
  case False
  obtain b sh where a: "Allow (sc_shedder s) (random_draw d) = (b, sh)" by fastforce
  show ?thesis
  proof (cases b)
    case True
    then show ?thesis
      using False a assms[of "upd_metrics (SetWorkerInFlight (InFlight sh)) (s\<lparr>sc_shedder := sh\<rparr>)"]
      by (auto simp: serve_shed_def Let_def split: prod.split)
  next
    case b: False
    then show ?thesis
      using False a assms
      by (auto simp: serve_shed_def GlobalOverrideEnabled_def Let_def status_of_def)
  qed
qed

text \<open>A request that is not answered before core is asked gets the answer of the rest of the handler.\<close>

lemma serve_shed_forwards:
  assumes "\<not> (p \<noteq> Critical \<and> \<not> fst (Allow (sc_shedder s) (random_draw d)) \<and> sc_shadow_env s \<noteq> ''true'')"
  shows "\<exists>s'. sc_upstream s' = sc_upstream s \<and> sc_shadow_env s' = sc_shadow_env s \<and> sc_cache s' = sc_cache s \<and>
    upstream_errors (sc_metrics s') = upstream_errors (sc_metrics s) \<and>
    fst (serve_shed d key p serve s) = fst (serve s') \<and>
    sc_cache (snd (serve_shed d key p serve s)) = sc_cache (snd (serve s')) \<and>
    sc_upstream (snd (serve_shed d key p serve s)) = sc_upstream (snd (serve s')) \<and>
    upstream_errors (sc_metrics (snd (serve_shed d key p serve s))) = upstream_errors (sc_metrics (snd (serve s')))"
proof (cases "p = Critical")
  case True
  then show ?thesis by (intro exI[of _ s]) (simp add: serve_shed_def)
next
  case False
  obtain b sh where a: "Allow (sc_shedder s) (random_draw d) = (b, sh)" by fastforce
  show ?thesis
  proof (cases b)
    case True
    then show ?thesis using False a
      by (intro exI[of _ "upd_metrics (SetWorkerInFlight (InFlight sh)) (s\<lparr>sc_shedder := sh\<rparr>)"])
        (auto simp: serve_shed_def Let_def split: prod.split)
  next
    case b: False
    then have "GlobalOverrideEnabled (sc_shadow_env s)" using assms False a by (simp add: GlobalOverrideEnabled_def)
    then show ?thesis using False a b
      by (intro exI[of _ "upd_metrics (RecordDecisionLatency ''worker_shedder'' (t_local_observe d - t_start d))
          (decision_log ''worker_shedder'' key ''reject_503'' p (t_local_log d - t_start d)
            (upd_metrics (\<lambda>m. SetWorkerInFlight (InFlight sh)
               (RecordShadowWouldReject ''worker_shedder'' (RecordDecision ''worker_shedder'' ''reject_503'' m)))
              (s\<lparr>sc_shedder := sh\<rparr>)))"])
        (simp add: serve_shed_def Let_def)
  qed
qed

lemma serve_check_forwards:
  assumes "rq_Method r = ''GET''" "rq_Query r ''key'' \<noteq> ''''" "\<not> cached_denial (rq_Query r ''key'') (t_query env) s"
    and "\<not> shed_here dp env r s"
  shows "\<exists>s'. sc_upstream s' = sc_upstream s \<and> sc_shadow_env s' = sc_shadow_env s \<and> (sc_cache s' = None \<longleftrightarrow> sc_cache s = None) \<and>
    upstream_errors (sc_metrics s') = upstream_errors (sc_metrics s) \<and>
    fst (serve_check rpc dp env r s) = fst (serve_upstream rpc env r (rq_Query r ''key'') (check_priority dp r s) s') \<and>
    sc_cache (snd (serve_check rpc dp env r s)) =
      sc_cache (snd (serve_upstream rpc env r (rq_Query r ''key'') (check_priority dp r s) s')) \<and>
    sc_upstream (snd (serve_check rpc dp env r s)) =
      sc_upstream (snd (serve_upstream rpc env r (rq_Query r ''key'') (check_priority dp r s) s')) \<and>
    upstream_errors (sc_metrics (snd (serve_check rpc dp env r s))) =
      upstream_errors (sc_metrics (snd (serve_upstream rpc env r (rq_Query r ''key'') (check_priority dp r s) s')))"
proof -
  let ?up = "serve_upstream rpc env r (rq_Query r ''key'') (check_priority dp r s)"
  let ?shed = "serve_shed env (rq_Query r ''key'') (check_priority dp r s) ?up"
  obtain x where x: "serve_check rpc dp env r s = ?shed x" "sc_upstream x = sc_upstream s"
      "sc_shadow_env x = sc_shadow_env s" "sc_shedder x = sc_shedder s" "sc_cache x = None \<longleftrightarrow> sc_cache s = None"
      "upstream_errors (sc_metrics x) = upstream_errors (sc_metrics s)"
  proof (cases "sc_cache s")
    case None
    then show thesis using assms(1,2) by (intro that[of s]) (simp_all add: serve_check_def check_priority_def Let_def)
  next
    case (Some c)
    obtain dn rem c' where d: "IsDenied (rq_Query r ''key'') (t_query env) c = ((dn, rem), c')" by (metis prod.collapse)
    then have "\<not> dn" using assms(3) Some by (simp add: cached_denial_def)
    then show thesis using assms(1,2) Some d
      by (intro that[of "s\<lparr>sc_cache := Some c'\<rparr>"]) (simp_all add: serve_check_def check_priority_def Let_def)
  qed
  have "\<not> (check_priority dp r s \<noteq> Critical \<and> \<not> fst (Allow (sc_shedder x) (random_draw env)) \<and> sc_shadow_env x \<noteq> ''true'')"
    using assms(4) x by (simp add: shed_here_def)
  from serve_shed_forwards[OF this, of "rq_Query r ''key''" ?up] x show ?thesis by metis
qed

lemma check_table_eq:
  "(status_of (fst (serve_check rpc dp env r s)), sc_upstream (snd (serve_check rpc dp env r s))) =
    check_table rpc dp env r s"
proof -
  let ?key = "rq_Query r ''key''" and ?p = "check_priority dp r s"
  have go: "(status_of (fst (serve_shed d ?key ?p (serve_upstream rpc env r ?key ?p) x)),
      sc_upstream (snd (serve_shed d ?key ?p (serve_upstream rpc env r ?key ?p) x))) =
    (if ?p \<noteq> Critical \<and> \<not> fst (Allow (sc_shedder s) (random_draw d)) \<and> sc_shadow_env s \<noteq> ''true'' then (503, sc_upstream s)
     else (case rpc_Check rpc (core_question dp r s) (sc_upstream s) of
       (Inl _, u) \<Rightarrow> (500, u)
     | (Inr resp, u) \<Rightarrow> (if sc_shadow_env s = ''true'' then 200 else action_status (crs_Action resp), u)))"
    if "sc_shedder x = sc_shedder s" "sc_upstream x = sc_upstream s" "sc_shadow_env x = sc_shadow_env s" for d x
    unfolding that(1,2,3)[symmetric]
    by (rule serve_shed_table) (simp add: serve_upstream_table[where dp = dp and ?s0.0 = s] split: sum.split prod.split)
  show ?thesis
  proof (cases "rq_Method r \<noteq> ''GET'' \<or> ?key = ''''")
    case True
    then show ?thesis by (auto simp: serve_check_def check_table_def Let_def)
  next
    case False
    show ?thesis
    proof (cases "sc_cache s")
      case None
      then show ?thesis using False go[of s]
        by (simp add: serve_check_def check_table_def cached_denial_def shed_here_def check_priority_def Let_def)
    next
      case (Some c)
      obtain dn rem c' where d: "IsDenied ?key (t_query env) c = ((dn, rem), c')" by (metis prod.collapse)
      show ?thesis
      proof (cases dn)
        case True
        then show ?thesis using False Some d
          by (simp add: serve_check_def check_table_def cached_denial_def serve_denied_table Let_def)
      next
        case dn: False
        then show ?thesis using False Some d go[of "s\<lparr>sc_cache := Some c'\<rparr>" env]
          by (simp add: serve_check_def check_table_def cached_denial_def shed_here_def check_priority_def Let_def)
      qed
    qed
  qed
qed

text \<open>
  C7: The handler of \<open>/check\<close> implements its table: the status, whether core is asked, and what it is
  asked, are decided by the method, the key, the negative cache, Tier 4, the answer and the global
  shadow switch in this order, and the cost put to core is the parsed one.
\<close>

theorem check_refines_table:
  "(status_of (fst (serve_check rpc dp env r s)), sc_upstream (snd (serve_check rpc dp env r s))) =
    check_table rpc dp env r s"
  by (rule check_table_eq)

section \<open>What a refusal says\<close>

definition retry_headers_ok :: "http_response \<Rightarrow> int \<Rightarrow> bool" where
  "retry_headers_ok w ms \<longleftrightarrow> header_of w ''Retry-After-Ms'' = Some (Itoa ms) \<and>
     header_of w ''RateLimit-Reset'' = Some (Itoa \<lceil>of_int ms / 1000 :: rat\<rceil>)"

lemma ceiling_thousandth:
  assumes "0 \<le> ms" "ms + 999 < 2 ^ 63"
  shows "int64 (ms + 999) sdiv 1000 = \<lceil>of_int ms / 1000 :: rat\<rceil>"
proof -
  have "int64 (ms + 999) = ms + 999" using assms by (intro int64_id) (simp add: in_int64_def)
  moreover have "(ms + 999) sdiv 1000 = (ms + 999) div 1000" using assms(1) by (intro sdiv_nonneg) auto
  moreover have "\<lceil>of_int ms / 1000 :: rat\<rceil> = (ms + 999) div 1000"
  proof (rule ceiling_unique)
    define q where "q = (ms + 999) div 1000"
    obtain m where "ms + 999 = 1000 * q + m" "0 \<le> m" "m < 1000"
      by (rule that[of "(ms + 999) mod 1000"]) (simp_all add: q_def)
    then have "1000 * (q - 1) < ms" "ms \<le> 1000 * q" by simp_all
    then have "rat_of_int (1000 * (q - 1)) < of_int ms" "rat_of_int ms \<le> of_int (1000 * q)"
      by (simp_all only: of_int_less_iff of_int_le_iff)
    then show "rat_of_int ((ms + 999) div 1000) - 1 < of_int ms / 1000" "of_int ms / 1000 \<le> rat_of_int ((ms + 999) div 1000)"
      by (simp_all add: q_def[symmetric])
  qed
  ultimately show ?thesis by simp
qed

lemma canonical_names:
  "CanonicalHeaderKey ''Retry-After-Ms'' = ''Retry-After-Ms''" "CanonicalHeaderKey ''RateLimit-Reset'' = ''Ratelimit-Reset''"
  "CanonicalHeaderKey ''RateLimit-Limit'' = ''Ratelimit-Limit''"
  "CanonicalHeaderKey ''RateLimit-Remaining'' = ''Ratelimit-Remaining''"
  by (simp_all add: canonical_eval)

lemma reservation_headers_other:
  assumes "rs_Status w = None" "hd (CanonicalHeaderKey n) \<noteq> CHR ''C''"
  shows "header_of (reservation_headers i rs w) n = header_of w n"
  using assms
proof (induction i rs w rule: reservation_headers.induct)
  case (2 i r rs w)
  have ne: "CanonicalHeaderKey n \<noteq> CanonicalHeaderKey (''Concurrency-'' @ x)" for x
  proof
    assume "CanonicalHeaderKey n = CanonicalHeaderKey (''Concurrency-'' @ x)"
    moreover have "hd (CanonicalHeaderKey (''Concurrency-'' @ x)) = CHR ''C''"
      unfolding append_Cons by (rule canonical_from_hd) simp
    ultimately show False using 2(3) by metis
  qed
  then show ?case
    using 2(1)[OF _ 2(3)] 2(2) ne[of "''Key-'' @ Itoa (int i)"] ne[of "''Token-'' @ Itoa (int i)"] by simp
qed simp

text \<open>
  A refusal by core is passed on with the time to wait, exactly in milliseconds and rounded up in
  seconds, and carries the limit and the remaining tokens exactly if Tier 1 refused.
\<close>

lemma refusal_headers:
  assumes "rpc_Check rpc (core_question dp r s) (sc_upstream s) = (Inr resp, u)" "crs_Action resp = P_REJECT_429"
    and "0 \<le> crs_RetryAfterMs resp" "crs_RetryAfterMs resp + 999 < 2 ^ 63" "sc_shadow_env s \<noteq> ''true''"
    and "rq_Method r = ''GET''" "rq_Query r ''key'' \<noteq> ''''" "\<not> cached_denial (rq_Query r ''key'') (t_query env) s"
    and "\<not> shed_here dp env r s"
  shows "let w = fst (serve_check rpc dp env r s) in status_of w = 429 \<and> retry_headers_ok w (crs_RetryAfterMs resp) \<and>
    header_of w ''RateLimit-Limit'' =
      (if crs_Tier resp = ''rate_limiter'' then Some (Itoa (crs_Limit resp)) else None) \<and>
    header_of w ''RateLimit-Remaining'' =
      (if crs_Tier resp = ''rate_limiter'' then Some (Itoa (crs_Remaining resp)) else None)"
proof -
  have up: "fst (serve_upstream rpc env r (rq_Query r ''key'') (check_priority dp r s) s') =
      write_action P_REJECT_429 resp (reservation_headers 0 (crs_Reservations resp) fresh_response)"
    if "sc_upstream s' = sc_upstream s" "sc_shadow_env s' = sc_shadow_env s" for s'
    using assms(1,2,5) that
    by (auto simp: serve_upstream_def core_question_def GlobalOverrideEnabled_def Let_def)
  have "fst (serve_check rpc dp env r s) =
      write_action P_REJECT_429 resp (reservation_headers 0 (crs_Reservations resp) fresh_response)"
    using serve_check_forwards[OF assms(6-9), of rpc] up by metis
  then show ?thesis
    using ceiling_thousandth[OF assms(3,4)]
    by (auto simp: write_action_def retry_headers_ok_def status_of_def canonical_names reservation_headers_other
        header_of_def[of fresh_response] Let_def)
qed

section \<open>What a refusal leaves behind\<close>

lemma serve_upstream_marks:
  assumes "rpc_Check rpc (core_question dp r s0) (sc_upstream s) = (Inr resp, u)" "crs_Action resp = P_REJECT_429"
    and "check_priority dp r s0 = p" "key = rq_Query r ''key''" "sc_cache s = Some c"
  shows "sc_cache (snd (serve_upstream rpc env r key p s)) =
    Some (MarkDenied key (int64 (crs_RetryAfterMs resp * 1000000)) (t_mark env) (t_sweep env) c)"
  using assms by (auto simp: serve_upstream_def core_question_def Let_def)



section \<open>What goes to core as a refund\<close>

text \<open>
  Whatever core does with a refund of zero, of a negative amount or of more than 32 bits is out of
  reach of \<open>/release\<close>: replacing the refund RPC there by anything changes no answer, no metric and no
  state.
\<close>

theorem release_sends_positive_refunds:
  "serve_release rpc r s =
    serve_release (rpc\<lparr>rpc_Refund := (\<lambda>k n u. if 0 < n \<and> n < 2 ^ 31 then rpc_Refund rpc k n u else other k n u)\<rparr>) r s"
proof -
  have "rpc_Refund (rpc\<lparr>rpc_Refund := (\<lambda>k n u. if 0 < n \<and> n < 2 ^ 31 then rpc_Refund rpc k n u else other k n u)\<rparr>) k (int32 n) u
      = rpc_Refund rpc k (int32 n) u" if "ParseInt32 v = Some n" "0 < n" for k n u v
    using that int32_id[of n] by (auto simp: ParseInt32_def in_int32_def split: option.splits if_splits)
  then show ?thesis
    unfolding serve_release_def Let_def by (auto split: option.split sum.split prod.split)
qed

end
