(* ===== verification/SidecarMain.thy ===== *)
theory SidecarMain
  imports SelfThrottle SidecarAdmin SidecarProps CoreMain
begin

text \<open>
  \<open>services/sidecar/main.go\<close> and \<open>services/sidecar/auth\<close>: what a sidecar makes of its environment
  variables, its routes behind the throttle, its health, and the secret it sends to core.
  \<open>strconv.ParseFloat\<close>, the dialling of core, the loading of certificates and of critical routes are
  arguments.
\<close>

section \<open>Reading the environment\<close>

definition resolveMaxInflight :: "string \<Rightarrow> int \<Rightarrow> int" where
  "resolveMaxInflight envVal defaultVal =
    (if envVal = '''' then defaultVal
     else (case ParseInt envVal of
       None \<Rightarrow> defaultVal
     | Some parsed \<Rightarrow> if parsed \<le> 0 then defaultVal else parsed))"

definition resolveRampStartPct :: "string \<Rightarrow> int \<Rightarrow> int" where
  "resolveRampStartPct envVal defaultVal =
    (if envVal = '''' then defaultVal
     else (case ParseInt envVal of
       None \<Rightarrow> defaultVal
     | Some parsed \<Rightarrow> if parsed \<le> 0 \<or> parsed > 100 then defaultVal else parsed))"

definition resolveMaxRPS :: "(string \<Rightarrow> dbl option) \<Rightarrow> string \<Rightarrow> dbl \<Rightarrow> dbl" where
  "resolveMaxRPS ParseFloat envVal defaultVal =
    (if envVal = '''' then defaultVal
     else (case ParseFloat envVal of
       None \<Rightarrow> defaultVal
     | Some parsed \<Rightarrow> if dle parsed (Fin 0) then defaultVal else parsed))"

definition sidecar_resolvePprofEnabled :: "string \<Rightarrow> bool" where
  "sidecar_resolvePprofEnabled raw =
    (if raw = '''' then False else (case ParseBool raw of None \<Rightarrow> False | Some enabled \<Rightarrow> enabled))"

text \<open>\<open>maybeStartPprofServer\<close>: the address that is listened on, if any.\<close>

definition maybeStartPprofServer :: "bool \<Rightarrow> string \<Rightarrow> string option" where
  "maybeStartPprofServer enabled addr = (if \<not> enabled then None else Some addr)"

section \<open>Start-up\<close>

record sidecar_start =
  sm_coreAddr :: string
  sm_sharedSecret :: string
  sm_adminSecret :: string
  sm_mTLS :: bool
  sm_shedder :: shedder
  sm_cache :: neg_cache
  sm_routes :: "string set option"
  sm_pprof :: "string option"
  sm_throttle :: throttle
  sm_listenAddr :: string

text \<open>\<open>main\<close> up to the listener, \<open>Inl\<close> being \<open>log.Fatalf\<close>; \<open>now\<close> is the clock when the throttle is made.\<close>

definition sidecar_main ::
  "(string \<Rightarrow> string \<Rightarrow> string \<Rightarrow> go_error option) \<Rightarrow> (string \<Rightarrow> go_error option) \<Rightarrow> (string \<Rightarrow> go_error + string set) \<Rightarrow>
   (string \<Rightarrow> dbl option) \<Rightarrow> (string \<Rightarrow> string) \<Rightarrow> int \<Rightarrow> go_error + sidecar_start" where
  "sidecar_main tls_load dial watch_routes ParseFloat getenv now =
    (let coreAddr = or_default (getenv ''RATECAP_CORE_ADDR'') ''localhost:9090'';
         sharedSecret = getenv ''RATECAP_SHARED_SECRET'';
         adminSecret = getenv ''RATECAP_ADMIN_SECRET'';
         tlsCertPath = getenv ''RATECAP_TLS_CERT_PATH''; tlsKeyPath = getenv ''RATECAP_TLS_KEY_PATH'';
         tlsCAPath = getenv ''RATECAP_TLS_CA_PATH''
     in if sharedSecret = '''' then Inl (''RATECAP_SHARED_SECRET must be set'' @ em_dash @
          ''ratecap-sidecar refuses to start without gRPC authentication configured'')
        else if EnvVarsPartiallySet tlsCertPath tlsKeyPath tlsCAPath then
          Inl ''RATECAP_TLS_CERT_PATH, RATECAP_TLS_KEY_PATH, and RATECAP_TLS_CA_PATH must be set together or not at all''
        else (case (if tlsCertPath \<noteq> '''' then tls_load tlsCertPath tlsKeyPath tlsCAPath else None) of
          Some err \<Rightarrow> Inl (''failed to load TLS config: '' @ err)
        | None \<Rightarrow>
          (case dial coreAddr of
             Some err \<Rightarrow> Inl (''failed to connect to ratecap-core at '' @ coreAddr @ '': '' @ err)
           | None \<Rightarrow>
             (let maxInflight = resolveMaxInflight (getenv ''RATECAP_MAX_INFLIGHT_REQUESTS'') 500;
                  rampStartPct = resolveRampStartPct (getenv ''RATECAP_SHED_RAMP_START_PCT'') 100;
                  criticalRoutesPath = getenv ''RATECAP_CRITICAL_ROUTES_PATH''
              in case (if criticalRoutesPath = '''' then Inr None
                       else (case watch_routes criticalRoutesPath of Inl err \<Rightarrow> Inl err | Inr rs \<Rightarrow> Inr (Some rs))) of
                   Inl err \<Rightarrow> Inl (''failed to load critical routes from '' @ criticalRoutesPath @ '': '' @ err)
                 | Inr criticalRoutes \<Rightarrow>
                   Inr \<lparr>sm_coreAddr = coreAddr, sm_sharedSecret = sharedSecret, sm_adminSecret = adminSecret,
                     sm_mTLS = (tlsCertPath \<noteq> ''''), sm_shedder = NewShedderWithRamp maxInflight rampStartPct,
                     sm_cache = NewCache, sm_routes = criticalRoutes,
                     sm_pprof = maybeStartPprofServer (sidecar_resolvePprofEnabled (getenv ''RATECAP_PPROF_ENABLED'')) ''127.0.0.1:6061'',
                     sm_throttle = th_New (resolveMaxRPS ParseFloat (getenv ''RATECAP_SIDECAR_MAX_RPS'') (Fin 1000)) now,
                     sm_listenAddr = or_default (getenv ''RATECAP_SIDECAR_ADDR'') '':8080''\<rparr>))))"

section \<open>Routes\<close>

datatype connectivity = Idle | Connecting | Ready | TransientFailure | Shutdown

fun conn_String :: "connectivity \<Rightarrow> string" where
  "conn_String Idle = ''IDLE''"
| "conn_String Connecting = ''CONNECTING''"
| "conn_String Ready = ''READY''"
| "conn_String TransientFailure = ''TRANSIENT_FAILURE''"
| "conn_String Shutdown = ''SHUTDOWN''"

definition newHealthzHandler :: "connectivity \<Rightarrow> http_request \<Rightarrow> 's \<Rightarrow> http_response \<times> 's" where
  "newHealthzHandler state r s =
    (if state = TransientFailure \<or> state = Shutdown
     then (http_Error (''core connection unhealthy: '' @ conn_String state) 503 fresh_response, s)
     else (WriteHeader 200 fresh_response, s))"

text \<open>\<open>http.ServeMux\<close> with patterns that are plain paths, on a path in canonical form.\<close>

type_synonym 's handler = "http_request \<Rightarrow> 's \<Rightarrow> http_response \<times> 's"

definition NotFound :: "'s handler" where
  "NotFound r s = (http_Error ''404 page not found'' 404 fresh_response, s)"

definition mux :: "(string \<times> 's handler) list \<Rightarrow> string \<Rightarrow> 's handler" where
  "mux routes path = (case map_of routes path of None \<Rightarrow> NotFound | Some h \<Rightarrow> h)"

text \<open>\<open>now\<close> and \<open>now'\<close> are the clock readings of the throttle.\<close>

definition newTopMux ::
  "(string \<Rightarrow> 's handler) \<Rightarrow> 's handler \<Rightarrow> 's handler \<Rightarrow> 's handler \<Rightarrow> int \<Rightarrow> int \<Rightarrow> string \<Rightarrow> (throttle \<times> 's) handler" where
  "newTopMux protected metricsHandler healthz adminHandler now now' path =
    mux [(''/check'', Middleware now now' (protected path)),
         (''/release'', Middleware now now' (protected path)),
         (''/metrics'', Middleware now now' metricsHandler),
         (''/healthz'', Middleware now now' healthz),
         (''/admin/set-limit'', Middleware now now' adminHandler)] path"

definition protectedMux :: "'u rpc_client \<Rightarrow> check_env \<Rightarrow> string \<Rightarrow> 'u sidecar handler" where
  "protectedMux rpc env = mux [(''/check'', serve_check rpc Sheddable env), (''/release'', serve_release rpc)]"

definition admin_handler ::
  "(string \<Rightarrow> go_error + setLimitBody) \<Rightarrow> (set_response \<Rightarrow> string) \<Rightarrow>
   (string \<Rightarrow> int \<Rightarrow> 'u \<Rightarrow> (status + set_response) \<times> 'u) \<Rightarrow> string \<Rightarrow> 'u sidecar handler" where
  "admin_handler decode encode rpc_set secret r s =
    (case serve_admin decode encode rpc_set secret r (sc_upstream s) of (w, u) \<Rightarrow> (w, s\<lparr>sc_upstream := u\<rparr>))"

text \<open>The handler a started sidecar serves; \<open>render\<close> renders the metrics.\<close>

definition sidecar_handler ::
  "sidecar_start \<Rightarrow> 'u rpc_client \<Rightarrow> (string \<Rightarrow> int \<Rightarrow> 'u \<Rightarrow> (status + set_response) \<times> 'u) \<Rightarrow>
   (string \<Rightarrow> go_error + setLimitBody) \<Rightarrow> (set_response \<Rightarrow> string) \<Rightarrow> (sidecar_metrics \<Rightarrow> string) \<Rightarrow>
   connectivity \<Rightarrow> check_env \<Rightarrow> int \<Rightarrow> int \<Rightarrow> string \<Rightarrow> (throttle \<times> 'u sidecar) handler" where
  "sidecar_handler st rpc rpc_set decode encode render conn env now now' =
    newTopMux (protectedMux rpc env)
      (\<lambda>r s. (write_body (render (sc_metrics s)) fresh_response, s))
      (newHealthzHandler conn) (admin_handler decode encode rpc_set (sm_adminSecret st)) now now'"

section \<open>The secret\<close>

text \<open>\<open>auth.UnaryClientInterceptor\<close>: the outgoing metadata of a call, before and after.\<close>

definition UnaryClientInterceptor :: "string \<Rightarrow> (string \<Rightarrow> string list) \<Rightarrow> string \<Rightarrow> string list" where
  "UnaryClientInterceptor secret md = md(MetadataKey := md MetadataKey @ [secret])"

lemma sidecar_secret_accepted:
  "chained secret' (Some (UnaryClientInterceptor secret (\<lambda>_. []))) m p h s =
    (if secret = secret' then metrics_interceptor m p h s
     else (Done (Inl (Unauthenticated, ''invalid shared secret'')), s))"
  by (simp add: chained_def auth_interceptor_def UnaryClientInterceptor_def)

section \<open>What start-up establishes\<close>

lemma resolveMaxInflight_range: "in_int64 d \<Longrightarrow> 0 < d \<Longrightarrow> 0 < resolveMaxInflight v d \<and> resolveMaxInflight v d < 2 ^ 63"
  by (auto simp: resolveMaxInflight_def in_int64_def ParseInt_def Let_def split: option.splits prod.splits if_splits)

lemma resolveRampStartPct_range: "0 < d \<Longrightarrow> d \<le> 100 \<Longrightarrow> 0 < resolveRampStartPct v d \<and> resolveRampStartPct v d \<le> 100"
  by (auto simp: resolveRampStartPct_def split: option.splits)

lemma resolveMaxRPS_positive: "\<not> dle d (Fin 0) \<Longrightarrow> \<not> dle (resolveMaxRPS P v d) (Fin 0)"
  by (auto simp: resolveMaxRPS_def split: option.splits)

lemma sidecar_main_starts:
  assumes "sidecar_main tls_load dial watch_routes ParseFloat getenv now = Inr st"
  shows "sm_sharedSecret st = getenv ''RATECAP_SHARED_SECRET''" "sm_sharedSecret st \<noteq> ''''"
    "\<not> EnvVarsPartiallySet (getenv ''RATECAP_TLS_CERT_PATH'') (getenv ''RATECAP_TLS_KEY_PATH'') (getenv ''RATECAP_TLS_CA_PATH'')"
    "sm_mTLS st \<longleftrightarrow> getenv ''RATECAP_TLS_CERT_PATH'' \<noteq> ''''"
    "sm_shedder st = NewShedderWithRamp (resolveMaxInflight (getenv ''RATECAP_MAX_INFLIGHT_REQUESTS'') 500)
       (resolveRampStartPct (getenv ''RATECAP_SHED_RAMP_START_PCT'') 100)"
    "sm_throttle st = th_New (resolveMaxRPS ParseFloat (getenv ''RATECAP_SIDECAR_MAX_RPS'') (Fin 1000)) now"
    "sm_pprof st = maybeStartPprofServer (sidecar_resolvePprofEnabled (getenv ''RATECAP_PPROF_ENABLED'')) ''127.0.0.1:6061''"
    "sm_routes st = None \<longleftrightarrow> getenv ''RATECAP_CRITICAL_ROUTES_PATH'' = ''''"
  using assms by (auto simp: sidecar_main_def Let_def split: if_split_asm option.split_asm sum.split_asm)

text \<open>
  A sidecar that starts has a shared secret; its TLS files are all configured or none is, and then
  it dials with mutual TLS; its load counter starts at zero under a positive 64-bit maximum with the
  ramp between 1 and 100 percent, whatever the variables hold; its throttle's rate is not zero or
  less; the profiler listens, if at all, on the loopback interface and only when asked to.
\<close>

theorem sidecar_start_is_sane:
  assumes "sidecar_main tls_load dial watch_routes ParseFloat getenv now = Inr st"
  shows "sm_sharedSecret st \<noteq> '''' \<and>
    (sm_mTLS st = (getenv ''RATECAP_TLS_CERT_PATH'' \<noteq> '''')) \<and>
    (sm_mTLS st = (getenv ''RATECAP_TLS_KEY_PATH'' \<noteq> '''')) \<and> (sm_mTLS st = (getenv ''RATECAP_TLS_CA_PATH'' \<noteq> '''')) \<and>
    InFlight (sm_shedder st) = 0 \<and> 0 < sh_max (sm_shedder st) \<and> sh_max (sm_shedder st) < 2 ^ 63 \<and>
    0 < rampStartPct (sm_shedder st) \<and> rampStartPct (sm_shedder st) \<le> 100 \<and>
    \<not> dle (th_rate (sm_throttle st)) (Fin 0) \<and> th_burst (sm_throttle st) = th_rate (sm_throttle st) \<and>
    sm_pprof st = (if ParseBool (getenv ''RATECAP_PPROF_ENABLED'') = Some True then Some ''127.0.0.1:6061'' else None)"
proof -
  note s = sidecar_main_starts[OF assms]
  have "sm_pprof st = (if ParseBool (getenv ''RATECAP_PPROF_ENABLED'') = Some True then Some ''127.0.0.1:6061'' else None)"
    unfolding s(7) by (auto simp: maybeStartPprofServer_def sidecar_resolvePprofEnabled_def ParseBool_def)
  moreover have "\<not> dle (th_rate (sm_throttle st)) (Fin 0) \<and> th_burst (sm_throttle st) = th_rate (sm_throttle st)"
    unfolding s(6) using resolveMaxRPS_positive[of "Fin 1000"] by (simp add: th_New_def th_NewWithClock_def)
  moreover have "InFlight (sm_shedder st) = 0 \<and> 0 < sh_max (sm_shedder st) \<and> sh_max (sm_shedder st) < 2 ^ 63 \<and>
    0 < rampStartPct (sm_shedder st) \<and> rampStartPct (sm_shedder st) \<le> 100"
    unfolding s(5) using resolveMaxInflight_range[of 500] resolveRampStartPct_range[of 100]
    by (simp add: NewShedderWithRamp_def InFlight_def in_int64_def)
  ultimately show ?thesis using s(2,3,4) by (simp add: EnvVarsPartiallySet_iff)
qed

theorem sidecar_start_is_sane_witness:
  "\<exists>st. sidecar_main (\<lambda>_ _ _. None) (\<lambda>_. None) (\<lambda>_. Inr {}) (\<lambda>_. None)
     (\<lambda>n. if n = ''RATECAP_SHARED_SECRET'' then ''s'' else if n = ''RATECAP_MAX_INFLIGHT_REQUESTS'' then ''-3'' else '''') 0 = Inr st \<and>
     0 < sh_max (sm_shedder st) \<and> sm_pprof st = None"
proof -
  let ?e = "\<lambda>n. if n = ''RATECAP_SHARED_SECRET'' then ''s'' else if n = ''RATECAP_MAX_INFLIGHT_REQUESTS'' then ''-3'' else ''''"
  obtain st where st: "sidecar_main (\<lambda>_ _ _. None) (\<lambda>_. None) (\<lambda>_. Inr {}) (\<lambda>_. None) ?e 0 = Inr st"
    by (simp add: sidecar_main_def EnvVarsPartiallySet_def Let_def)
  show ?thesis using sidecar_start_is_sane[OF st] st by (simp add: ParseBool_def)
qed

text \<open>
  C37: Every route of a sidecar, its metrics, its health and the admin endpoint included, is behind one
  throttle: a request that finds less than one token is answered 429 with a time to retry, and its
  handler does not run.
\<close>

theorem throttle_guards_every_route:
  assumes "path \<in> {''/check'', ''/release'', ''/metrics'', ''/healthz'', ''/admin/set-limit''}" "\<not> fst (th_Allow now l)"
  shows "case sidecar_handler st rpc rpc_set decode encode render conn env now now' path r (l, s) of
    (w, l', s') \<Rightarrow> status_of w = 429 \<and> header_of w ''Retry-After'' \<noteq> None \<and> s' = s"
proof -
  obtain l1 where a: "th_Allow now l = (False, l1)" using assms(2) by (metis prod.collapse)
  have "header_of (http_Error ''too many requests'' 429 (Header_Set ''Retry-After'' v fresh_response)) ''Retry-After'' \<noteq> None" for v
    by (simp add: http_Error_def write_body_def WriteHeader_def Header_Set_def header_of_def Let_def)
  then show ?thesis using assms(1) a
    by (auto simp: sidecar_handler_def newTopMux_def mux_def Middleware_def Let_def split: prod.split)
qed

text \<open>A sidecar with the defaults, whose throttle is empty.\<close>

definition demo_start :: sidecar_start where
  "demo_start = \<lparr>sm_coreAddr = ''localhost:9090'', sm_sharedSecret = ''s'', sm_adminSecret = ''t'', sm_mTLS = False,
     sm_shedder = NewShedderWithRamp 500 100, sm_cache = NewCache, sm_routes = None, sm_pprof = None,
     sm_throttle = \<lparr>th_rate = Fin 1, th_burst = Fin 1, th_tokens = Fin 0, th_updatedAt = 5\<rparr>, sm_listenAddr = '':8080''\<rparr>"

theorem throttle_guards_every_route_witness:
  "status_of (fst (sidecar_handler demo_start (demo_rpc (Inl internalError)) (\<lambda>t v u. (Inl internalError, u)) (\<lambda>_. Inl '''')
     (\<lambda>_. '''') (\<lambda>_. '''') Ready (demo_env 5) 5 5 ''/metrics'' demo_get
     (sm_throttle demo_start, demo_sidecar 0 '''' fmempty []))) = 429"
proof -
  have "\<not> fst (th_Allow 5 (sm_throttle demo_start))"
    by (simp add: demo_start_def th_Allow_def refillLocked_def Let_def)
  from throttle_guards_every_route[where path = "''/metrics''", OF _ this, where st = demo_start and rpc = "demo_rpc (Inl internalError)"
      and rpc_set = "\<lambda>t v u. (Inl internalError, u)" and decode = "\<lambda>_. Inl ''''" and encode = "\<lambda>_. ''''" and render = "\<lambda>_. ''''"
      and conn = Ready and env = "demo_env 5" and now' = 5 and r = demo_get and s = "demo_sidecar 0 '''' fmempty []"]
  show ?thesis by (auto split: prod.splits)
qed

end
