(* ===== verification/ClientWire.thy ===== *)
theory ClientWire
  imports SidecarProps GoSdk
begin

text \<open>
  The Go client and a sidecar: what the client asks for is what core is asked, and what core answers
  is what the client reads.
\<close>

section \<open>Reservations on the wire\<close>

definition token_header :: "nat \<Rightarrow> string" where "token_header i = ''Concurrency-Token-'' @ Itoa (int i)"
definition key_header :: "nat \<Rightarrow> string" where "key_header i = ''Concurrency-Key-'' @ Itoa (int i)"

lemmas reservation_headers_Cons = reservation_headers.simps(2)[folded token_header_def key_header_def]
lemmas read_reservations_unfold = read_reservations.simps[folded token_header_def key_header_def]
lemmas canonical_reservation = canonical_reservation[folded token_header_def key_header_def]

declare reservation_headers.simps(2) [simp del]

lemma reservation_names:
  "CanonicalHeaderKey (token_header i) = CanonicalHeaderKey (token_header j) \<longleftrightarrow> i = j"
  "CanonicalHeaderKey (key_header i) = CanonicalHeaderKey (key_header j) \<longleftrightarrow> i = j"
  "CanonicalHeaderKey (token_header i) \<noteq> CanonicalHeaderKey (key_header j)"
  "CanonicalHeaderKey (key_header i) \<noteq> CanonicalHeaderKey (token_header j)"
  using Itoa_inj[of i j] unfolding canonical_reservation by (auto simp: token_header_def key_header_def)

lemma reservation_headers_sent:
  assumes "rs_Status w = None"
  shows "header_of (reservation_headers i rs w) (token_header j) =
      (if i \<le> j \<and> j < i + length rs then Some (res_Token (rs ! (j - i))) else header_of w (token_header j))"
    "header_of (reservation_headers i rs w) (key_header j) =
      (if i \<le> j \<and> j < i + length rs then Some (res_Key (rs ! (j - i))) else header_of w (key_header j))"
proof -
  have "header_of (reservation_headers i rs w) (token_header j) =
      (if i \<le> j \<and> j < i + length rs then Some (res_Token (rs ! (j - i))) else header_of w (token_header j)) \<and>
    header_of (reservation_headers i rs w) (key_header j) =
      (if i \<le> j \<and> j < i + length rs then Some (res_Key (rs ! (j - i))) else header_of w (key_header j))"
    using assms
  proof (induction rs arbitrary: i w)
    case (Cons r rs)
    let ?w = "Header_Set (key_header i) (res_Key r) (Header_Set (token_header i) (res_Token r) w)"
    have "rs_Status ?w = None" using Cons.prems by simp
    note IH = Cons.IH[OF this, of "Suc i"]
    show ?case
    proof (cases "Suc i \<le> j")
      case True
      then obtain k where "j = i + Suc k" using less_iff_Suc_add[of i j] by (auto simp: Suc_le_eq)
      then show ?thesis using IH Cons.prems by (simp add: reservation_headers_Cons reservation_names)
    next
      case False
      then show ?thesis using IH Cons.prems by (auto simp: reservation_headers_Cons reservation_names)
    qed
  qed auto
  then show "header_of (reservation_headers i rs w) (token_header j) =
      (if i \<le> j \<and> j < i + length rs then Some (res_Token (rs ! (j - i))) else header_of w (token_header j))"
    "header_of (reservation_headers i rs w) (key_header j) =
      (if i \<le> j \<and> j < i + length rs then Some (res_Key (rs ! (j - i))) else header_of w (key_header j))" by auto
qed

lemma hd_reservation_names:
  "hd (CanonicalHeaderKey (token_header i)) = CHR ''C''" "hd (CanonicalHeaderKey (key_header i)) = CHR ''C''"
  unfolding canonical_reservation by (simp_all add: token_header_def key_header_def)

lemma write_action_other:
  assumes "rs_Status w = None" "hd (CanonicalHeaderKey n) = CHR ''C''"
  shows "header_of (write_action a resp w) n = header_of w n"
proof -
  have "CanonicalHeaderKey n \<noteq> CanonicalHeaderKey m" if "hd (CanonicalHeaderKey m) \<noteq> CHR ''C''" for m
    using assms(2) that by metis
  then have "CanonicalHeaderKey n \<noteq> CanonicalHeaderKey ''Retry-After-Ms''" "CanonicalHeaderKey n \<noteq> CanonicalHeaderKey ''RateLimit-Reset''"
    "CanonicalHeaderKey n \<noteq> CanonicalHeaderKey ''RateLimit-Limit''" "CanonicalHeaderKey n \<noteq> CanonicalHeaderKey ''RateLimit-Remaining''"
    "CanonicalHeaderKey n \<noteq> CanonicalHeaderKey ''X-RateCap-Shed-Tier''"
    by (simp_all add: canonical_from_hd)
  then show ?thesis using assms(1) by (auto simp: write_action_def Let_def split: proto_action.split)
qed

text \<open>A response whose numbered headers are those of a list of reservations.\<close>

definition carries :: "http_response \<Rightarrow> token_reservation list \<Rightarrow> bool" where
  "carries w rs \<longleftrightarrow> (\<forall>j. response_Header_Get w (token_header j) = (if j < length rs then res_Token (rs ! j) else '''') \<and>
    (j < length rs \<longrightarrow> response_Header_Get w (key_header j) = res_Key (rs ! j)))"

definition as_read :: "token_reservation list \<Rightarrow> sdk_reservation list" where
  "as_read rs = map (\<lambda>r. \<lparr>rv_key = res_Key r, rv_tok = res_Token r\<rparr>) (takeWhile (\<lambda>r. res_Token r \<noteq> '''') rs)"

lemma read_reservations_carried:
  assumes "carries w rs"
  shows "read_reservations i w acc = Some (acc @ as_read (drop i rs))"
proof (induction "length rs - i" arbitrary: i acc)
  case 0
  then show ?case using assms by (subst read_reservations_unfold) (simp add: carries_def as_read_def)
next
  case (Suc n)
  then have i: "i < length rs" by simp
  then have d: "drop i rs = rs ! i # drop (Suc i) rs" by (simp add: Cons_nth_drop_Suc)
  show ?case
  proof (cases "res_Token (rs ! i) = ''''")
    case True
    then show ?thesis using assms i d by (subst read_reservations_unfold) (simp add: carries_def as_read_def)
  next
    case False
    then show ?thesis using assms i d Suc.hyps(1)[of "Suc i"] Suc.hyps(2)
      by (subst read_reservations_unfold) (simp add: carries_def as_read_def)
  qed
qed

lemma carries_sent:
  assumes "\<forall>r \<in> set rs. visible (res_Token r) \<and> visible (res_Key r)"
  shows "carries (received (write_action a resp (reservation_headers 0 rs fresh_response))) rs"
  using assms
  by (auto simp: carries_def response_Header_Get_def write_action_other hd_reservation_names reservation_headers_sent
      header_of_def[of fresh_response])

lemma carries_none:
  assumes "\<And>n. hd (CanonicalHeaderKey n) = CHR ''C'' \<Longrightarrow> CanonicalHeaderKey n \<noteq> CanonicalHeaderKey ''Content-Type'' \<Longrightarrow> header_of w n = None"
  shows "carries (received w) []"
proof -
  have "token_header j \<noteq> CanonicalHeaderKey ''Content-Type''" for j
    by (simp add: token_header_def canonical_eval)
  then have "header_of w (token_header j) = None" for j
    using assms[of "token_header j"] hd_reservation_names(1)[of j] by (simp add: canonical_reservation)
  then show ?thesis by (simp add: carries_def response_Header_Get_def)
qed

lemma http_Error_carries: "carries (received (http_Error msg code fresh_response)) []"
proof (rule carries_none)
  fix n
  assume n: "hd (CanonicalHeaderKey n) = CHR ''C''" "CanonicalHeaderKey n \<noteq> CanonicalHeaderKey ''Content-Type''"
  have "hd (CanonicalHeaderKey ''X-Content-Type-Options'') = CHR ''X''" by (rule canonical_from_hd) simp
  then have "CanonicalHeaderKey n \<noteq> CanonicalHeaderKey ''X-Content-Type-Options''" using n(1) by auto
  then show "header_of (http_Error msg code fresh_response) n = None"
    unfolding http_Error_header[OF fresh_simps(1)] using n(2) by (simp add: header_of_def)
qed

section \<open>What the client asks\<close>

definition asked_cost :: "checkOptions \<Rightarrow> int" where
  "asked_cost opts = (if opt_hasCost opts \<and> 0 < opt_cost opts \<and> opt_cost opts < 2 ^ 31 then opt_cost opts else 1)"

lemma resolveCost_Itoa: "in_int64 c \<Longrightarrow> resolveCost (Itoa c) = (if 0 < c \<and> c < 2 ^ 31 then c else 1)"
  by (auto simp: resolveCost_def ParseInt32_def ParseInt_Itoa in_int32_def)

lemma wire_critical [simp]: "header_wire ''critical'' = ''critical''" "header_wire ''sheddable'' = ''sheddable''"
  "header_wire '''' = ''''"
  by (simp_all add: visible_def)

lemma applied_fields:
  "field (cr_Query (applyToRequest opts r)) n =
     (if n = ''cost'' \<and> opt_hasCost opts then Itoa (opt_cost opts) else field (cr_Query r) n)"
  "cr_Header r = [] \<Longrightarrow> field (cr_Header (applyToRequest opts r)) ''X-Ratecap-Priority'' =
     (if opt_hasPriority opts then headerValue (opt_priority opts) else '''')"
  "cr_Header r = [] \<Longrightarrow> field (cr_Header (applyToRequest opts r)) ''X-Ratecap-Route'' =
     (if opt_hasRoute opts then opt_route opts else '''')"
  "cr_Method (applyToRequest opts r) = cr_Method r" "cr_Path (applyToRequest opts r) = cr_Path r"
  by (simp_all add: applyToRequest_def request_Header_Set_def canonical_eval)

lemma canonical_ratecap:
  "CanonicalHeaderKey ''x-ratecap-priority'' = ''X-Ratecap-Priority''" "CanonicalHeaderKey ''x-ratecap-route'' = ''X-Ratecap-Route''"
  by (simp_all add: canonical_eval)

text \<open>
  C25: What a caller of the client asks for is what core is asked: the key; the cost, if it is positive
  and fits 32 bits, and one otherwise, so that an estimate that overflowed is charged as a single
  token; no reservations for \<open>Allow\<close>; and as critical exactly a request that names this priority, or
  names none and whose route is a critical one.
\<close>

theorem question_round_trip:
  assumes "in_int64 (opt_cost (applyCheckOptions opts))" "visible route" "sc_routes s = routes"
    and "opt_route (applyCheckOptions opts) = route"
  shows "core_question Sheddable (as_sent (Allow_request key opts)) s =
    (let ch = applyCheckOptions opts in
     \<lparr>crq_Key = key, crq_Cost = asked_cost ch, crq_SkipReservations = True,
      crq_Priority = (if opt_hasPriority ch then (if opt_priority ch = sdk_Critical then CRITICAL else SHEDDABLE)
        else if opt_hasRoute ch \<and> Contains routes route then CRITICAL else SHEDDABLE)\<rparr>)"
proof -
  let ?o = "applyCheckOptions opts" and ?r = "as_sent (Allow_request key opts)"
  have q: "rq_Query ?r ''key'' = key" "rq_Query ?r ''skip_reservations'' = ''true''"
    "rq_Query ?r ''cost'' = (if opt_hasCost ?o then Itoa (opt_cost ?o) else '''')"
    by (simp_all add: Allow_request_def applied_fields)
  have h: "Header_Get ?r ''x-ratecap-priority'' = (if opt_hasPriority ?o then headerValue (opt_priority ?o) else '''')"
    "Header_Get ?r ''x-ratecap-route'' = (if opt_hasRoute ?o then route else '''')"
    using assms(2,4) by (simp_all add: Allow_request_def canonical_ratecap applied_fields headerValue_def)
  have "resolveCost (rq_Query ?r ''cost'') = asked_cost ?o"
    using resolveCost_Itoa[OF assms(1)] unfolding q(3) by (auto simp: asked_cost_def resolveCost_def)
  moreover have "check_priority Sheddable ?r s = (if opt_hasPriority ?o then (if opt_priority ?o = sdk_Critical then Critical else Sheddable)
        else if opt_hasRoute ?o \<and> Contains routes route then Critical else Sheddable)"
    unfolding check_priority_def h assms(3)
    by (auto simp: ResolvePriority_def headerValue_def Contains_def split: option.splits)
  ultimately show ?thesis unfolding core_question_def q(1,2) Let_def by simp
qed

text \<open>
  Reservations survive the way back: whatever the action, the client reads the keys and tokens of
  an answer in their order, up to the first empty token, and its loop ends.
\<close>

theorem reservations_round_trip:
  assumes "\<forall>r \<in> set rs. visible (res_Token r) \<and> visible (res_Key r)"
  shows "read_reservations 0 (received (write_action a resp (reservation_headers 0 rs fresh_response))) [] = Some (as_read rs)"
  using read_reservations_carried[OF carries_sent[OF assms, of a resp], of 0 "[]"] by simp

theorem reservations_round_trip_witness:
  "read_reservations 0 (received (write_action P_ALLOW (demo_answer P_ALLOW)
     (reservation_headers 0 [\<lparr>res_Key = ''a'', res_Token = ''u1.61''\<rparr>, \<lparr>res_Key = ''fleet'', res_Token = ''u2.61''\<rparr>] fresh_response))) [] =
   Some [\<lparr>rv_key = ''a'', rv_tok = ''u1.61''\<rparr>, \<lparr>rv_key = ''fleet'', rv_tok = ''u2.61''\<rparr>]"
  using reservations_round_trip[of "[\<lparr>res_Key = ''a'', res_Token = ''u1.61''\<rparr>, \<lparr>res_Key = ''fleet'', res_Token = ''u2.61''\<rparr>]"
      P_ALLOW "demo_answer P_ALLOW"]
  by (simp add: visible_def as_read_def)

theorem question_round_trip_witness:
  "core_question Sheddable (as_sent (Allow_request ''a'' [WithCost (2 ^ 31), WithPriority 1])) (demo_sidecar 0 '''' fmempty ()) =
    \<lparr>crq_Key = ''a'', crq_Cost = 1, crq_SkipReservations = True, crq_Priority = CRITICAL\<rparr>"
  using question_round_trip[of "[WithCost (2 ^ 31), WithPriority 1]" "''''" "demo_sidecar 0 '''' fmempty ()" None "''a''"]
  by (simp add: applyCheckOptions_def in_int64_def visible_def demo_sidecar_def asked_cost_def sdk_Critical_def Let_def)

section \<open>What the client learns of a refusal\<close>

lemma visible_Itoa [simp]: "visible (Itoa n)"
proof -
  have "32 < (of_char (digit_char d) :: nat) \<and> of_char (digit_char d) \<noteq> (127 :: nat)" if "d < 10" for d
    using that by (simp add: digit_char_def)
  then have "visible (digits m)" for m
    using digits_all[of _ m] by (fastforce simp: visible_def list_all_iff)
  then show ?thesis by (simp add: Itoa_def visible_def)
qed

lemma header_int_received:
  "header_int (received w) n = (case header_of w n of None \<Rightarrow> 0 | Some v \<Rightarrow> if header_wire v = '''' then 0 else ParseInt_value (header_wire v))"
  by (simp add: header_int_def response_Header_Get_def Let_def split: option.split)

text \<open>
  C26: With the global shadow switch off, a refusal by core reaches the caller of the client with its numbers: the time to wait, in
  milliseconds and rounded up in seconds, and the limit and the remaining tokens if Tier 1 refused,
  zero otherwise.
\<close>

theorem refusal_round_trip:
  fixes key :: string and opts :: "CheckOption list"
  defines "r \<equiv> as_sent (Allow_request key opts)"
  assumes "rpc_Check rpc (core_question Sheddable r s) (sc_upstream s) = (Inr resp, u)" "crs_Action resp = P_REJECT_429"
    and "0 \<le> crs_RetryAfterMs resp" "crs_RetryAfterMs resp + 999 < 2 ^ 63" "sc_shadow_env s \<noteq> ''true''"
    and "key \<noteq> ''''" "\<not> cached_denial key (t_query env) s" "\<not> shed_here Sheddable env r s"
    and "visible (opt_route (applyCheckOptions opts))" "in_int64 (crs_Limit resp)" "in_int64 (crs_Remaining resp)"
  shows "fst (sdk_Allow (http_Do (\<lambda>path. serve_check rpc Sheddable env)) key opts s) =
    Inr \<lparr>ar_allowed = False, ar_retryAfterMs = crs_RetryAfterMs resp,
      ar_rateLimitReset = \<lceil>of_int (crs_RetryAfterMs resp) / 1000 :: rat\<rceil>,
      ar_rateLimitLimit = (if crs_Tier resp = ''rate_limiter'' then crs_Limit resp else 0),
      ar_rateLimitRemaining = (if crs_Tier resp = ''rate_limiter'' then crs_Remaining resp else 0)\<rparr>"
proof -
  have get: "rq_Method r = ''GET''" "rq_Query r ''key'' = key"
    by (simp_all add: r_def Allow_request_def applied_fields)
  let ?w = "fst (serve_check rpc Sheddable env r s)" and ?ms = "crs_RetryAfterMs resp"
  have w: "status_of ?w = 429" "retry_headers_ok ?w ?ms"
    "header_of ?w ''RateLimit-Limit'' = (if crs_Tier resp = ''rate_limiter'' then Some (Itoa (crs_Limit resp)) else None)"
    "header_of ?w ''RateLimit-Remaining'' = (if crs_Tier resp = ''rate_limiter'' then Some (Itoa (crs_Remaining resp)) else None)"
    using refusal_headers[OF assms(2-6) get(1), unfolded get(2), OF assms(7,8,9)] by (simp_all add: Let_def)
  have "\<lceil>of_int ?ms / 1000 :: rat\<rceil> \<le> ?ms" "0 \<le> \<lceil>of_int ?ms / 1000 :: rat\<rceil>"
    using assms(4) by (simp_all add: ceiling_le_iff)
  then have "in_int64 \<lceil>of_int ?ms / 1000 :: rat\<rceil>" using assms(5) by (simp add: in_int64_def)
  moreover have "in_int64 ?ms" using assms(4,5) by (simp add: in_int64_def)
  moreover have "\<not> list_ex (\<lambda>(n, v). \<not> ValidHeaderFieldValue v) (cr_Header (Allow_request key opts))"
    using assms(10) by (auto simp: Allow_request_def applyToRequest_def request_Header_Set_def set_field_def Let_def
        headerValue_def visible_def)
  ultimately show ?thesis
    using w assms(11,12)
    by (auto simp: sdk_Allow_def http_Do_def r_def[symmetric] header_int_received retry_headers_ok_def split: prod.split)
qed

theorem refusal_round_trip_witness:
  "fst (sdk_Allow (http_Do (\<lambda>path. serve_check (demo_rpc (Inr (demo_answer P_REJECT_429))) Sheddable (demo_env 7))) ''a'' []
     (demo_sidecar 0 '''' fmempty [])) =
   Inr \<lparr>ar_allowed = False, ar_retryAfterMs = 1500, ar_rateLimitReset = 2, ar_rateLimitLimit = 5, ar_rateLimitRemaining = 2\<rparr>"
proof -
  have "\<lceil>3 / 2 :: rat\<rceil> = 2" by (rule ceiling_unique) simp_all
  moreover have "\<not> shed_here Sheddable (demo_env 7) (as_sent (Allow_request ''a'' [])) (demo_sidecar 0 '''' fmempty [])"
    by (simp add: shed_here_def demo_sidecar_def demo_env_def Allow_def shouldAdmitAtLoad_def int64_def
        signed_divide_int_def sgn_if Let_def)
  moreover have "\<not> cached_denial ''a'' (t_query (demo_env 7)) (demo_sidecar 0 '''' fmempty [])"
    by (simp add: cached_denial_def demo_sidecar_def IsDenied_def)
  ultimately show ?thesis
    using refusal_round_trip[of "demo_rpc (Inr (demo_answer P_REJECT_429))" "''a''" "[]" "demo_sidecar 0 '''' fmempty []"
      "demo_answer P_REJECT_429" "[''check'']" "demo_env 7"]
    by (simp add: demo_rpc_def demo_answer_def demo_sidecar_def[of _ "''''" _ "[]"] applyCheckOptions_def visible_def in_int64_def)
qed

end
