(* ===== verification/EndToEnd.thy ===== *)
theory EndToEnd
  imports SidecarMain ClientWire SlotProps
begin

text \<open>
  The Go client, a sidecar and a core process together: what the client holds is what core granted,
  and what it releases leaves core's ledger.
\<close>

section \<open>Calls from a sidecar to core\<close>

text \<open>
  A call over the connection of the sidecar, through its interceptor and the two of core.  A handler
  that panics or does not return gives the client an error of gRPC.
\<close>

definition grpc_call ::
  "string \<Rightarrow> string \<Rightarrow> rpc_info \<Rightarrow> string \<Rightarrow> ('db core \<Rightarrow> (status + 'r) outcome \<times> 'db core) \<Rightarrow> 'db core \<Rightarrow>
   (status + 'r) \<times> 'db core" where
  "grpc_call secret coreSecret p fullMethod handler s =
    (case chained coreSecret (Some (UnaryClientInterceptor secret (\<lambda>_. []))) fullMethod p handler s of
       (Done r, s1) \<Rightarrow> (r, s1)
     | (Panicked m, s1) \<Rightarrow> (Inl (OtherCode ''Unavailable'', m), s1)
     | (Waiting, s1) \<Rightarrow> (Inl (OtherCode ''DeadlineExceeded'', ''''), s1))"

definition core_rpc ::
  "(string \<Rightarrow> string \<Rightarrow> string) \<Rightarrow> 'db redis_store \<Rightarrow> limiters \<Rightarrow> string \<Rightarrow> string \<Rightarrow> rpc_info \<Rightarrow> 'db core rpc_client" where
  "core_rpc H st ls secret coreSecret p =
    \<lparr>rpc_Check = (\<lambda>q. grpc_call secret coreSecret p ''/ratecap.v1.RatecapService/CheckRateLimit''
       (CheckRateLimit (pipeline_Check (core_tiers H st (rateLimiter ls) (concurrencyLimiter ls) (fleetShedder ls))) q)),
     rpc_Release = (\<lambda>k t. grpc_call secret coreSecret p ''/ratecap.v1.RatecapService/ReleaseConcurrency''
       (\<lambda>s. case ReleaseConcurrency H (signingKey st) (core_slot_store H st) k t s of (r, s1) \<Rightarrow> (Done r, s1))),
     rpc_Refund = (\<lambda>k n. grpc_call secret coreSecret p ''/ratecap.v1.RatecapService/RefundCost''
       (\<lambda>s. case RefundCost (RefundTokens st) (Some (rateLimiter ls)) k n s of (r, s1) \<Rightarrow> (Done r, s1)))\<rparr>"

lemma grpc_call_ok:
  "grpc_call secret coreSecret p m h s = (Inr r, s') \<Longrightarrow>
    secret = coreSecret \<and> (\<exists>s1. h s = (Done (Inr r), s1) \<and> held_slots s' = held_slots s1)"
  by (auto simp: grpc_call_def sidecar_secret_accepted metrics_interceptor_def held_slots_def Let_def
      split: outcome.splits prod.splits if_splits)

lemma grpc_call_done:
  "h s = (Done r, s1) \<Longrightarrow> held_slots (snd (grpc_call secret secret p m h s)) = held_slots s1"
  by (auto simp: grpc_call_def sidecar_secret_accepted metrics_interceptor_def held_slots_def Let_def split: prod.splits)

lemma core_rpc_release:
  assumes "verifyToken H t (signingKey st)"
  shows "held_slots (snd (rpc_Release (core_rpc H st ls secret secret p) k t u)) = held_slots u - {#(k, t)#}"
proof -
  obtain y u1 where d: "decr_concurrent (core_slot_store H st) k t u = (y, u1)" by fastforce
  then have "ReleaseConcurrency H (signingKey st) (core_slot_store H st) k t u =
      ((case y of Some e \<Rightarrow> Inl internalError | None \<Rightarrow> Inr ()), u1)"
    using assms by (simp add: ReleaseConcurrency_def split: option.split)
  then have "held_slots (snd (rpc_Release (core_rpc H st ls secret secret p) k t u)) = held_slots u1"
    unfolding core_rpc_def by (simp add: grpc_call_done)
  then show ?thesis using slots.decr_release[OF d] by simp
qed

section \<open>The tokens and keys of an answer\<close>

text \<open>The UUIDs a process will draw are visible text without dots.\<close>

definition uuids_visible :: "'db core \<Rightarrow> bool" where
  "uuids_visible s \<longleftrightarrow> (\<forall>env \<in> sset (envs s). visible (uuid_string env))"

lemma visible_hex: "visible (hex_encode bs)"
proof -
  have "visible [hex_digit n]" for n
  proof -
    have "n mod 16 < length ''0123456789abcdef''" by simp
    then have "hex_digit n \<in> set ''0123456789abcdef''" unfolding hex_digit_def by (rule nth_mem)
    then show ?thesis by (auto simp: visible_def)
  qed
  then show ?thesis by (induction bs) (auto simp: hex_encode_def visible_def)
qed

lemma visible_signToken: "visible u \<Longrightarrow> visible (signToken H u k)"
  by (simp add: signToken_def visible_hex)

lemma uuids_visible_tail: "uuids_visible s \<Longrightarrow> envs s' = stl (envs s) \<Longrightarrow> uuids_visible s'"
  by (auto simp: uuids_visible_def dest: stl_sset)

interpretation wire_tokens: slot_tokens "core_slot_store H st" uuids_visible visible for H st
proof
  fix k c d x t y es and s s' :: "'a core"
  let ?S = "core_slot_store H st :: 'a core slot_store"
  show "uuids_visible s'" if "uuids_visible s" "incr_concurrent ?S k c d s = (x, s')"
    using that IncrConcurrent_envs uuids_visible_tail by (fastforce simp: core_slot_store_def)
  show "uuids_visible s'" if "uuids_visible s" "decr_concurrent ?S k t s = (y, s')"
    using that DecrConcurrent_envs uuids_visible_tail by (fastforce simp: core_slot_store_def)
  show "uuids_visible s'" if "uuids_visible s" "await_events ?S s = (es, s')"
    using that by (auto simp: core_slot_store_def next_events_def uuids_visible_def)
  show "visible t" if "uuids_visible s" "incr_concurrent ?S k c d s = (Inr (True, t), s')"
    using that IncrConcurrent_reply[of H st k c d s True t s']
    by (auto simp: core_slot_store_def uuids_visible_def shd_sset intro: visible_signToken)
  show "t = ''''" if "incr_concurrent ?S k c d s = (Inr (False, t), s')"
    using that IncrConcurrent_reply[of H st k c d s False t s'] by (auto simp: core_slot_store_def)
qed

text \<open>What an answer of the pipeline carries: keys of the request or the fleet, good tokens, and an
  empty token at most at the end.\<close>

lemma cl_shape:
  assumes "cl_Check S l req s = (Done (d, e), s')"
  shows "Reservations d = [] \<or> (\<exists>t. Reservations d = [reservation (Key req) t])"
proof -
  have poll: "Reservations x = [] \<or> (\<exists>t. Reservations x = [reservation (Key req) t])"
    if "poll_loop S (Key req) c dur evs s1 = (Done (x, e1), s2)" for c dur evs s1 x e1 s2
    using that
  proof (induction evs arbitrary: s1)
    case (Cons ev evs)
    then show ?case
      by (cases ev) (auto simp: concurrency_reject_def concurrency_grant_def decision0_def
          split: sum.splits prod.splits if_splits)
  qed simp
  have queue: "Reservations x = [] \<or> (\<exists>t. Reservations x = [reservation (Key req) t])"
    if "with_deferred f (pollUntilAllowedOrDeadline S req c dur w p s1) = (Done (x, e1), s2)" for f c dur w p s1 x e1 s2
    using that poll by (auto simp: with_deferred_def pollUntilAllowedOrDeadline_def Let_def
        split: prod.splits outcome.splits if_splits)
  show ?thesis
    using assms
    by (auto simp: cl_Check_def Let_def acquireBacklogSlot_def concurrency_reject_def concurrency_grant_def decision0_def
        dest: queue split: if_splits sum.splits prod.splits)
qed

lemma fs_shape:
  assumes "fs_Check S l req s = (Done (d, e), s')"
  shows "Reservations d = [] \<or> (\<exists>t. Reservations d = [reservation fleetKey t])"
  using assms by (auto simp: fs_Check_def fleet_grant_def decision0_def split: if_splits sum.splits prod.splits)

definition well_formed :: "(string \<Rightarrow> bool) \<Rightarrow> string \<Rightarrow> token_reservation list \<Rightarrow> bool" where
  "well_formed good key rs \<longleftrightarrow>
    (\<forall>r \<in> set rs. (res_Key r = key \<or> res_Key r = fleetKey) \<and> (res_Token r = '''' \<or> good (res_Token r))) \<and>
    takeWhile (\<lambda>r. res_Token r \<noteq> '''') rs = filter (\<lambda>r. res_Token r \<noteq> '''') rs"

lemma core_answer_shape:
  fixes s :: "'db core"
  assumes "CheckRateLimit (pipeline_Check (core_tiers H st tb cl fs)) q s = (Done (Inr resp), s')"
    and "uuids_ok s" "uuids_visible s"
  shows "well_formed (\<lambda>t. visible t \<and> verifyToken H t (signingKey st)) (crq_Key q) (crs_Reservations resp) \<and>
    held_slots s' = held_slots s + mset (map slot_of (takeWhile (\<lambda>r. res_Token r \<noteq> '''') (crs_Reservations resp)))"
proof -
  let ?q = "limiter_request q" and ?S = "core_slot_store H st :: 'db core slot_store"
  let ?good = "\<lambda>t. t = '''' \<or> visible t \<and> verifyToken H t (signingKey st)"
  obtain d where p: "pipeline_Check (core_tiers H st tb cl fs) ?q s = (Done (d, None), s')"
    and resp: "crs_Reservations resp = Reservations d"
    using CheckRateLimit_response[OF assms(1)] by blast
  have key: "Key ?q = crq_Key q" by (simp add: limiter_request_def)
  have good: "\<forall>r \<in> set (Reservations x). ?good (res_Token r)"
    if "cl_Check ?S cl ?q s1 = (Done (x, e), s2) \<or> fs_Check ?S fs ?q s1 = (Done (x, e), s2)" "uuids_ok s1" "uuids_visible s1"
    for x e s1 s2
    using that tokens.cl_good wire_tokens.cl_good tokens.fs_good wire_tokens.fs_good
    unfolding tokens.good_tokens_def wire_tokens.good_tokens_def by metis
  have "well_formed (\<lambda>t. visible t \<and> verifyToken H t (signingKey st)) (crq_Key q) (Reservations d)"
    using p
  proof (cases rule: core_pipeline_cases)
    case (first d1)
    then show ?thesis by (simp add: well_formed_def)
  next
    case (second d1 s1 d2)
    have u: "uuids_ok s1" "uuids_visible s1"
      using tb_uuids[OF second(1) assms(2)] uuids_visible_tail[OF assms(3) tb_envs[OF second(1)]] by auto
    show ?thesis using cl_shape[OF second(3)] good[OF disjI1[OF second(3)] u] second(6) key
      by (auto simp: well_formed_def reservation_def)
  next
    case (third d1 s1 d2 s2 d3)
    have u: "uuids_ok s1" "uuids_visible s1"
      using tb_uuids[OF third(1) assms(2)] uuids_visible_tail[OF assms(3) tb_envs[OF third(1)]] by auto
    have u2: "uuids_ok s2" "uuids_visible s2"
      using tokens.cl_inv[OF third(3) u(1)] wire_tokens.cl_inv[OF third(3) u(2)] by auto
    have "Reservations d2 = [] \<or> (\<exists>t. Reservations d2 = [reservation (Key ?q) t] \<and> t \<noteq> '''')"
    proof (cases "SkipReservations ?q")
      case True
      then show ?thesis using third(3) by (auto simp: cl_Check_def decision0_def)
    next
      case False
      then show ?thesis using cl_admits[OF third(3,4) False u(1)] by blast
    qed
    then show ?thesis using fs_shape[OF third(5)] good[OF disjI1[OF third(3)] u] good[OF disjI2[OF third(5)] u2] third(6) key
      by (auto simp: well_formed_def reservation_def)
  qed
  moreover have "held_slots s' = held_slots s + slots_of d"
    by (rule core_tiers.pipeline_accounted[OF p])
  moreover have "filter (\<lambda>(k, t). t \<noteq> '''') (map slot_of rs) = map slot_of (filter (\<lambda>r. res_Token r \<noteq> '''') rs)" for rs
    by (induction rs) auto
  ultimately show ?thesis unfolding resp by (simp add: well_formed_def slots_of_def)
qed

section \<open>How a check is answered\<close>

lemma upstream_answers:
  assumes "serve_upstream rpc env r (rq_Query r ''key'') (check_priority dp r s0) s = (w, s1)"
  obtains (error) "upstream_errors (sc_metrics s1) ''check_rate_limit'' = Suc (upstream_errors (sc_metrics s) ''check_rate_limit'')"
      "carries (received w) []"
    | (core) resp a where "rpc_Check rpc (core_question dp r s0) (sc_upstream s) = (Inr resp, sc_upstream s1)"
      "w = write_action a resp (reservation_headers 0 (crs_Reservations resp) fresh_response)"
proof -
  obtain x u where x: "rpc_Check rpc (core_question dp r s0) (sc_upstream s) = (x, u)" by fastforce
  show thesis
  proof (cases x)
    case (Inl e)
    then show thesis using assms x
      by (intro error) (auto simp: serve_upstream_def core_question_def RecordUpstreamError_def inc_def http_Error_carries Let_def)
  next
    case (Inr resp)
    then show thesis using assms x by (intro core) (auto simp: serve_upstream_def core_question_def Let_def)
  qed
qed

lemma shed_answer_carries: "carries (received (WriteHeader c (Header_Set ''X-RateCap-Shed-Tier'' v fresh_response))) []"
  "carries (received (WriteHeader 429 (Header_Set ''RateLimit-Reset'' v (Header_Set ''Retry-After-Ms'' v' fresh_response)))) []"
proof -
  have "CanonicalHeaderKey n \<noteq> CanonicalHeaderKey m" if "hd (CanonicalHeaderKey n) = CHR ''C''" "hd (CanonicalHeaderKey m) \<noteq> CHR ''C''" for n m
    using that by metis
  then have "CanonicalHeaderKey n \<noteq> CanonicalHeaderKey ''X-RateCap-Shed-Tier''" "CanonicalHeaderKey n \<noteq> CanonicalHeaderKey ''RateLimit-Reset''"
    "CanonicalHeaderKey n \<noteq> CanonicalHeaderKey ''Retry-After-Ms''" if "hd (CanonicalHeaderKey n) = CHR ''C''" for n
    using that by (simp_all add: canonical_from_hd)
  then show "carries (received (WriteHeader c (Header_Set ''X-RateCap-Shed-Tier'' v fresh_response))) []"
    "carries (received (WriteHeader 429 (Header_Set ''RateLimit-Reset'' v (Header_Set ''Retry-After-Ms'' v' fresh_response)))) []"
    by (auto intro!: carries_none simp: header_of_def[of fresh_response])
qed

lemma check_answers:
  assumes "serve_check rpc dp env r s = (w, s1)"
  obtains (local) "sc_upstream s1 = sc_upstream s" "carries (received w) []"
    | (error) "upstream_errors (sc_metrics s1) ''check_rate_limit'' \<noteq> upstream_errors (sc_metrics s) ''check_rate_limit''"
      "carries (received w) []"
    | (core) resp a where "rq_Query r ''key'' \<noteq> ''''" "rpc_Check rpc (core_question dp r s) (sc_upstream s) = (Inr resp, sc_upstream s1)"
      "w = write_action a resp (reservation_headers 0 (crs_Reservations resp) fresh_response)"
proof (cases "rq_Method r = ''GET'' \<and> rq_Query r ''key'' \<noteq> '''' \<and> \<not> cached_denial (rq_Query r ''key'') (t_query env) s \<and>
    \<not> shed_here dp env r s")
  case True
  then obtain x w' s' where x: "sc_upstream x = sc_upstream s" "upstream_errors (sc_metrics x) = upstream_errors (sc_metrics s)"
      "serve_upstream rpc env r (rq_Query r ''key'') (check_priority dp r s) x = (w', s')"
      "w = w'" "sc_upstream s1 = sc_upstream s'" "upstream_errors (sc_metrics s1) = upstream_errors (sc_metrics s')"
    using serve_check_forwards[of r env s dp rpc] assms by (metis fst_conv snd_conv prod.collapse)
  from x(3) show thesis
    by (cases rule: upstream_answers) (use x True that(2,3) in auto)
next
  case False
  then have "sc_upstream s1 = sc_upstream s"
    using check_table_eq[of rpc dp env r s] assms by (auto simp: check_table_def split: if_splits)
  moreover have "carries (received w) []"
  proof -
    have shed: "fst (serve_shed env k (check_priority dp r s) g x) =
        WriteHeader 503 (Header_Set ''X-RateCap-Shed-Tier'' ''4'' fresh_response)"
      if "shed_here dp env r s" "sc_shedder x = sc_shedder s" "sc_shadow_env x = sc_shadow_env s" for k x
        and g :: "'a sidecar \<Rightarrow> http_response \<times> 'a sidecar"
      using that by (cases "Allow (sc_shedder s) (random_draw env)")
        (auto simp: serve_shed_def shed_here_def GlobalOverrideEnabled_def Let_def)
    show ?thesis
    proof (cases "sc_cache s")
      case None
      then show ?thesis using False assms shed[of s]
        by (auto simp: serve_check_def cached_denial_def check_priority_def[symmetric] http_Error_carries
            shed_answer_carries Let_def split: if_splits dest!: arg_cong[where f = fst])
    next
      case (Some c)
      obtain dn rem c' where d: "IsDenied (rq_Query r ''key'') (t_query env) c = ((dn, rem), c')" by (metis prod.collapse)
      then show ?thesis using False Some assms shed[of "s\<lparr>sc_cache := Some c'\<rparr>"]
        by (auto simp: serve_check_def serve_denied_def cached_denial_def check_priority_def[symmetric] http_Error_carries
            shed_answer_carries Let_def split: if_splits dest!: arg_cong[where f = fst])
    qed
  qed
  ultimately show thesis by (rule local)
qed

section \<open>Taking and giving back\<close>

definition ticket_slots :: "Ticket \<Rightarrow> (string \<times> string) multiset" where
  "ticket_slots t = mset (map (\<lambda>r. (rv_key r, rv_tok r)) (tk_reservations t))"

lemma as_read_slots: "map (\<lambda>r. (rv_key r, rv_tok r)) (as_read rs) = map slot_of (takeWhile (\<lambda>r. res_Token r \<noteq> '''') rs)"
  by (simp add: as_read_def)

lemma canonical_release:
  "CanonicalHeaderKey ''X-RateCap-Concurrency-Key'' = ''X-Ratecap-Concurrency-Key''"
  "CanonicalHeaderKey ''X-RateCap-Concurrency-Token'' = ''X-Ratecap-Concurrency-Token''"
  "CanonicalHeaderKey ''X-RateCap-Refund-Key'' = ''X-Ratecap-Refund-Key''"
  by (simp_all add: canonical_eval)

lemma releaseOne_held:
  assumes "visible (rv_key r)" "rv_key r \<noteq> ''''" "visible (rv_tok r)" "verifyToken H (rv_tok r) (signingKey st)"
  shows "held_slots (sc_upstream (snd (releaseOne (http_Do (protectedMux (core_rpc H st ls secret secret p) env)) r s))) =
    held_slots (sc_upstream s) - {#(rv_key r, rv_tok r)#}"
proof -
  let ?rpc = "core_rpc H st ls secret secret p" and ?q = "as_sent (release_request r)"
  have q: "rq_Method ?q = ''POST''" "Header_Get ?q ''X-RateCap-Concurrency-Key'' = rv_key r"
    "Header_Get ?q ''X-RateCap-Concurrency-Token'' = rv_tok r" "Header_Get ?q ''X-RateCap-Refund-Key'' = ''''"
    using assms(1,3) by (simp_all add: release_request_def request_Header_Set_def canonical_release)
  have v: "\<not> list_ex (\<lambda>(n, v). \<not> ValidHeaderFieldValue v) (cr_Header (release_request r))"
    "cr_Path (release_request r) = ''/release''"
    using assms(1,3) by (auto simp: release_request_def request_Header_Set_def set_field_def)
  have "sc_upstream (snd (serve_release ?rpc ?q s)) = snd (rpc_Release ?rpc (rv_key r) (rv_tok r) (sc_upstream s))"
    unfolding serve_release_def Let_def q using assms(2) by (auto split: sum.split prod.split)
  moreover have "snd (releaseOne (http_Do (protectedMux ?rpc env)) r s) = snd (serve_release ?rpc ?q s)"
    using v by (auto simp: releaseOne_def http_Do_def protectedMux_def mux_def split: prod.split)
  ultimately show ?thesis using core_rpc_release[OF assms(4)] by simp
qed

lemma release_loop_held:
  assumes "\<forall>r \<in> set rs. visible (rv_key r) \<and> rv_key r \<noteq> '''' \<and> visible (rv_tok r) \<and> verifyToken H (rv_tok r) (signingKey st)"
  shows "held_slots (sc_upstream (snd (release_loop (http_Do (protectedMux (core_rpc H st ls secret secret p) env)) rs s))) =
    held_slots (sc_upstream s) - mset (map (\<lambda>r. (rv_key r, rv_tok r)) rs)"
  using assms
proof (induction rs arbitrary: s)
  case (Cons r rs)
  let ?http = "http_Do (protectedMux (core_rpc H st ls secret secret p) env)"
  have "snd (release_loop ?http (r # rs) s) = snd (release_loop ?http rs (snd (releaseOne ?http r s)))"
    by (simp split: prod.split)
  then show ?case using Cons.IH[of "snd (releaseOne ?http r s)"] Cons.prems releaseOne_held[of r H st ls secret p env s]
    by simp
qed simp

lemma acquire_slots:
  assumes "field (cr_Query req) ''key'' = key" "\<not> list_ex (\<lambda>(n, v). \<not> ValidHeaderFieldValue v) (cr_Header req)"
    and "serve_check (core_rpc H st ls secret coreSecret p) Sheddable env (as_sent req) s = (w, s1)"
    and "uuids_ok (sc_upstream s)" "uuids_visible (sc_upstream s)" "visible key"
  obtains rvs where "read_reservations 0 (received w) [] = Some rvs"
    "upstream_errors (sc_metrics s1) ''check_rate_limit'' \<noteq> upstream_errors (sc_metrics s) ''check_rate_limit'' \<or>
      held_slots (sc_upstream s1) = held_slots (sc_upstream s) + mset (map (\<lambda>r. (rv_key r, rv_tok r)) rvs)"
    "rvs = [] \<or> secret = coreSecret \<and>
      (\<forall>r \<in> set rvs. visible (rv_key r) \<and> rv_key r \<noteq> '''' \<and> visible (rv_tok r) \<and> verifyToken H (rv_tok r) (signingKey st))"
proof -
  let ?q = "core_question Sheddable (as_sent req) s"
  have k: "rq_Query (as_sent req) ''key'' = key" "crq_Key ?q = key"
    using assms(1) by (auto simp: core_question_def)
  show thesis using assms(3)
  proof (cases rule: check_answers)
    case local
    then show thesis using read_reservations_carried[OF local(2), of 0 "[]"] by (intro that[of "[]"]) (simp_all add: as_read_def)
  next
    case error
    then show thesis using read_reservations_carried[OF error(2), of 0 "[]"] by (intro that[of "[]"]) (simp_all add: as_read_def)
  next
    case (core resp a)
    let ?rs = "crs_Reservations resp"
    obtain u1 where c: "secret = coreSecret" "held_slots (sc_upstream s1) = held_slots u1"
        "CheckRateLimit (pipeline_Check (core_tiers H st (rateLimiter ls) (concurrencyLimiter ls) (fleetShedder ls))) ?q
          (sc_upstream s) = (Done (Inr resp), u1)"
      using grpc_call_ok[OF core(2)[unfolded core_rpc_def rpc_client.simps]] by blast
    have shape: "well_formed (\<lambda>t. visible t \<and> verifyToken H t (signingKey st)) key ?rs"
      "held_slots u1 = held_slots (sc_upstream s) + mset (map slot_of (takeWhile (\<lambda>r. res_Token r \<noteq> '''') ?rs))"
      using core_answer_shape[OF c(3) assms(4,5)] k(2) by auto
    have fleet: "visible fleetKey" "fleetKey \<noteq> ''''" by (simp_all add: fleetKey_def)
    have "\<forall>r \<in> set ?rs. visible (res_Token r) \<and> visible (res_Key r)"
      using shape(1) assms(6) fleet by (auto simp: well_formed_def)
    then have "read_reservations 0 (received w) [] = Some (as_read ?rs)"
      using read_reservations_carried[OF carries_sent[of ?rs a resp], of 0 "[]"] core(3) by simp
    moreover have "\<forall>r \<in> set (as_read ?rs). visible (rv_key r) \<and> rv_key r \<noteq> '''' \<and> visible (rv_tok r) \<and>
        verifyToken H (rv_tok r) (signingKey st)"
      using shape(1) assms(6) fleet core(1) k(1)
      by (auto simp: well_formed_def as_read_def dest!: set_takeWhileD)
    ultimately show thesis using c shape(2) as_read_slots[of ?rs] by (intro that[of "as_read ?rs"]) simp_all
  qed
qed

lemma acquire_cases:
  assumes "uuids_ok (sc_upstream s)" "uuids_visible (sc_upstream s)" "visible key"
    and "Acquire (http_Do (protectedMux (core_rpc H st ls secret coreSecret p) env)) key opts s = (x, s1)"
  obtains (refused) err where "x = Some (Inl err)" "s1 = s"
    | (answered) t where "x = Some (Inr t)"
      "upstream_errors (sc_metrics s1) ''check_rate_limit'' \<noteq> upstream_errors (sc_metrics s) ''check_rate_limit'' \<or>
       held_slots (sc_upstream s1) = held_slots (sc_upstream s) + ticket_slots t"
      "\<And>env' s2. held_slots (sc_upstream (snd (Ticket_Release (http_Do (protectedMux (core_rpc H st ls secret coreSecret p) env')) t s2))) =
        held_slots (sc_upstream s2) - ticket_slots t"
proof (cases "list_ex (\<lambda>(n, v). \<not> ValidHeaderFieldValue v) (cr_Header (Acquire_request key opts))")
  case True
  then show thesis using assms(4) by (intro refused) (auto simp: Acquire_def http_Do_def)
next
  case False
  let ?rpc = "core_rpc H st ls secret coreSecret p" and ?req = "Acquire_request key opts"
  obtain w s' where w: "serve_check ?rpc Sheddable env (as_sent ?req) s = (w, s')" by fastforce
  have "field (cr_Query ?req) ''key'' = key" by (simp add: Acquire_request_def applied_fields)
  from acquire_slots[OF this False w assms(1-3)]
  obtain rvs where r: "read_reservations 0 (received w) [] = Some rvs"
    "upstream_errors (sc_metrics s') ''check_rate_limit'' \<noteq> upstream_errors (sc_metrics s) ''check_rate_limit'' \<or>
      held_slots (sc_upstream s') = held_slots (sc_upstream s) + mset (map (\<lambda>r. (rv_key r, rv_tok r)) rvs)"
    "rvs = [] \<or> secret = coreSecret \<and>
      (\<forall>r \<in> set rvs. visible (rv_key r) \<and> rv_key r \<noteq> '''' \<and> visible (rv_tok r) \<and> verifyToken H (rv_tok r) (signingKey st))" .
  have "http_Do (protectedMux ?rpc env) ?req s = (Inr (received w), s')"
    using False w by (simp add: http_Do_def protectedMux_def mux_def Acquire_request_def applied_fields)
  then obtain t where t: "Acquire (http_Do (protectedMux ?rpc env)) key opts s = (Some (Inr t), s')" "tk_reservations t = rvs"
    using r(1) by (simp add: Acquire_def)
  have "held_slots (sc_upstream (snd (release_loop (http_Do (protectedMux ?rpc env')) rvs s2))) =
      held_slots (sc_upstream s2) - mset (map (\<lambda>r. (rv_key r, rv_tok r)) rvs)" for env' s2
    using r(3) release_loop_held[of rvs H st ls coreSecret p env' s2] by auto
  then show thesis using t r(2) assms(4) by (intro answered[of t]) (simp_all add: Ticket_Release_def ticket_slots_def)
qed



end
