(* ===== verification/CliCommands.thy ===== *)
theory CliCommands
  imports EndToEnd CliBench
begin

text \<open>
  \<open>cli/cmd\<close>: the commands of \<open>ratecapctl\<close> besides the loop of the benchmark.  A command returns the
  error its \<open>RunE\<close> returns, or its output.  The command-line parser, the JSON coding of strings, PEM and
  X.509, the programs \<open>docker\<close> and \<open>redis-cli\<close> and the rendering of floats are arguments.
\<close>

text \<open>\<open>Run\<close>: the exit code.\<close>

definition exit_code :: "go_error + 'a \<Rightarrow> int" where
  "exit_code r = (case r of Inl err \<Rightarrow> 1 | Inr _ \<Rightarrow> 0)"

definition newline :: string where "newline = [CHR 0x0A]"

section \<open>config validate\<close>

definition config_validate ::
  "(string \<Rightarrow> go_error + string) \<Rightarrow> (string \<Rightarrow> go_error + config) \<Rightarrow> string \<Rightarrow> go_error + string" where
  "config_validate read_file unmarshal path =
    (case Load read_file unmarshal path of
       Inl err \<Rightarrow> Inl (''loading '' @ path @ '': '' @ err)
     | Inr cfg \<Rightarrow>
       (case Validate cfg of
          Some err \<Rightarrow> Inl (''invalid config: '' @ err)
        | None \<Rightarrow> Inr (path @ '' is valid'' @ newline)))"

section \<open>admin set-limit\<close>

text \<open>\<open>json.Marshal\<close> of the map: its keys in order; \<open>quote\<close> writes a string.\<close>

definition set_limit_body :: "(string \<Rightarrow> string) \<Rightarrow> string \<Rightarrow> int \<Rightarrow> string" where
  "set_limit_body quote tier limit = json_object [json_field ''tier'' (quote tier), json_field ''value'' (Itoa limit)]"

definition set_limit_request :: "(string \<Rightarrow> string) \<Rightarrow> string \<Rightarrow> string \<Rightarrow> int \<Rightarrow> client_request" where
  "set_limit_request quote adminSecret tier limit =
    request_Header_Set ''Content-Type'' ''application/json''
      (request_Header_Set ''X-RateCap-Admin-Secret'' adminSecret
        \<lparr>cr_Method = ''POST'', cr_Path = ''/admin/set-limit'', cr_Query = [], cr_Header = [],
         cr_Body = set_limit_body quote tier limit\<rparr>)"

definition admin_set_limit ::
  "(string \<Rightarrow> string) \<Rightarrow> 's http_client \<Rightarrow> (string \<Rightarrow> string) \<Rightarrow> string \<Rightarrow> string \<Rightarrow> int \<Rightarrow> 's \<Rightarrow> (go_error + string) \<times> 's" where
  "admin_set_limit quote http getenv flagSecret tier limit s =
    (let adminSecret = (if flagSecret = '''' then getenv ''RATECAP_ADMIN_SECRET'' else flagSecret)
     in if adminSecret = '''' then (Inl ''--admin-secret is required (or set RATECAP_ADMIN_SECRET)'', s)
        else (case http (set_limit_request quote adminSecret tier limit) s of
          (Inl err, s1) \<Rightarrow> (Inl (''calling sidecar: '' @ err), s1)
        | (Inr resp, s1) \<Rightarrow>
          (if status_of resp \<noteq> 200
           then (Inl (''sidecar returned '' @ Itoa (status_of resp) @ '': '' @ rs_Body resp), s1)
           else (Inr (rs_Body resp @ newline), s1))))"

section \<open>tls check\<close>

record certificate =
  cert_DNSNames :: "string list"

definition tls_check ::
  "(string \<Rightarrow> go_error + string) \<Rightarrow> (string \<Rightarrow> string option) \<Rightarrow> (string \<Rightarrow> go_error + certificate) \<Rightarrow>
   (certificate \<Rightarrow> string \<Rightarrow> go_error option) \<Rightarrow> (string list \<Rightarrow> string) \<Rightarrow> (string \<Rightarrow> string) \<Rightarrow> string \<Rightarrow> string \<Rightarrow> go_error + string" where
  "tls_check read_file pem_Decode ParseCertificate VerifyHostname show_list quote certPath expectedHost =
    (case read_file certPath of
       Inl err \<Rightarrow> Inl (''reading '' @ certPath @ '': '' @ err)
     | Inr data \<Rightarrow>
       (case pem_Decode data of
          None \<Rightarrow> Inl (certPath @ '' does not contain a valid PEM block'')
        | Some block \<Rightarrow>
          (case ParseCertificate block of
             Inl err \<Rightarrow> Inl (''parsing certificate in '' @ certPath @ '': '' @ err)
           | Inr cert \<Rightarrow>
             (case VerifyHostname cert expectedHost of
                Some err \<Rightarrow> Inl (certPath @ [CHR 0x27] @ ''s SAN list '' @ show_list (cert_DNSNames cert) @ '' does not cover '' @
                  quote expectedHost @ '': '' @ err)
              | None \<Rightarrow> Inr (certPath @ '': SAN list '' @ show_list (cert_DNSNames cert) @ '' covers '' @
                  quote expectedHost @ newline)))))"

section \<open>Resource snapshots\<close>

record resource_snapshot =
  DockerStats :: string
  RedisInfo :: string

text \<open>A program that fails leaves its field empty.\<close>

definition captureResources :: "(string \<Rightarrow> string list \<Rightarrow> go_error + string) \<Rightarrow> string list \<Rightarrow> string \<Rightarrow> resource_snapshot" where
  "captureResources run containers redisAddr =
    (let snap = \<lparr>DockerStats = '''', RedisInfo = ''''\<rparr>;
         snap = (if containers \<noteq> [] then
                   (case run ''docker'' ([''stats'', ''--no-stream'', ''--format'', ''{{json .}}''] @ containers) of
                      Inl err \<Rightarrow> snap | Inr out \<Rightarrow> snap\<lparr>DockerStats := out\<rparr>) else snap)
     in if redisAddr \<noteq> '''' then
          (case run ''redis-cli'' [''-u'', redisAddr, ''INFO''] of Inl err \<Rightarrow> snap | Inr out \<Rightarrow> snap\<lparr>RedisInfo := out\<rparr>)
        else snap)"

definition isSnapshotEmpty :: "resource_snapshot option \<Rightarrow> bool" where
  "isSnapshotEmpty snap = (case snap of None \<Rightarrow> True | Some s \<Rightarrow> DockerStats s = '''' \<and> RedisInfo s = '''')"

definition printResourceSection :: "string \<Rightarrow> resource_snapshot option \<Rightarrow> string" where
  "printResourceSection label snap =
    (case snap of None \<Rightarrow> ''''
     | Some s \<Rightarrow>
       if isSnapshotEmpty snap then ''''
       else ''Resources ('' @ label @ ''):'' @ newline @
         (if DockerStats s \<noteq> '''' then ''  docker stats: '' @ DockerStats s @ newline else '''') @
         (if RedisInfo s \<noteq> '''' then ''  redis info: '' @ RedisInfo s @ newline else ''''))"

section \<open>bench run\<close>

text \<open>\<open>fmt p d\<close> renders a double with \<open>p\<close> decimals.\<close>

definition summary_lines :: "(nat \<Rightarrow> dbl \<Rightarrow> string) \<Rightarrow> bench_result \<Rightarrow> string list" where
  "summary_lines fmt r =
    [''Total requests: '' @ Itoa (TotalRequests r) @ newline,
     ''Accepted: '' @ Itoa (br_Accepted r) @ ''  Rejected: '' @ Itoa (br_Rejected r) @ ''  Errored: '' @ Itoa (br_Errored r) @ newline,
     ''Elapsed: '' @ Itoa (ElapsedMs r) @ ''ms'' @ newline,
     ''Throughput: '' @ fmt 1 (ThroughputRPS r) @ '' req/s'' @ newline,
     ''P50: '' @ fmt 2 (P50Ms r) @ ''ms  P99: '' @ fmt 2 (P99Ms r) @ ''ms  P99.9: '' @ fmt 2 (P999Ms r) @
       ''ms (accepted requests only)'' @ newline]"

text \<open>What the command writes to its output: \<open>snaps\<close> are the lines of the windows, \<open>shared_note\<close> the line
  about a shared key, \<open>encode\<close> the JSON encoder.  With \<open>--json\<close> there is one object and nothing else.\<close>

definition bench_output ::
  "(nat \<Rightarrow> dbl \<Rightarrow> string) \<Rightarrow> (bench_result \<Rightarrow> resource_snapshot option \<Rightarrow> resource_snapshot option \<Rightarrow> string) \<Rightarrow> string \<Rightarrow>
   bool \<Rightarrow> string list \<Rightarrow> bench_result \<Rightarrow> resource_snapshot option \<Rightarrow> resource_snapshot option \<Rightarrow> string list" where
  "bench_output fmt encode shared_note jsonOutput snaps r resourceBefore resourceAfter =
    (let progress = (if jsonOutput then [] else snaps)
     in progress @
       (if jsonOutput then [encode r resourceBefore resourceAfter]
        else summary_lines fmt r @ (if SharedKey r then [shared_note] else []) @
          [printResourceSection ''before'' resourceBefore, printResourceSection ''after'' resourceAfter]))"

text \<open>The snapshots of the command: taken only when asked for.\<close>

definition bench_resources ::
  "(string \<Rightarrow> string list \<Rightarrow> go_error + string) \<Rightarrow> bool \<Rightarrow> string \<Rightarrow> string \<Rightarrow> resource_snapshot option" where
  "bench_resources run captureResourcesFlag dockerContainers redisAddr =
    (if captureResourcesFlag
     then Some (captureResources run (if dockerContainers \<noteq> '''' then Split dockerContainers (CHR '','') else []) redisAddr)
     else None)"

section \<open>From the command to core\<close>

text \<open>What the JSON coding promises: a body read back is the tier, if it is ASCII, and the value, if it
  fits 32 bits.  (Bytes that are not UTF-8 do not survive: \<open>encoding/json\<close> replaces them.)\<close>

definition is_ascii :: "string \<Rightarrow> bool" where
  "is_ascii t \<longleftrightarrow> list_all (\<lambda>c. (of_char c :: nat) < 128) t"

definition json_laws :: "(string \<Rightarrow> string) \<Rightarrow> (string \<Rightarrow> go_error + setLimitBody) \<Rightarrow> bool" where
  "json_laws quote decode \<longleftrightarrow>
    (\<forall>t v. is_ascii t \<and> in_int32 v \<longrightarrow> decode (set_limit_body quote t v) = Inr \<lparr>body_Tier = t, body_Value = v\<rparr>) \<and>
    (\<forall>t v. in_int64 v \<and> \<not> in_int32 v \<longrightarrow> (\<exists>err. decode (set_limit_body quote t v) = Inl err))"

text \<open>The call of the sidecar, through its interceptor and the two of core, to a core process; and what
  gRPC makes of a call that is not sent or whose answer is lost.\<close>

definition core_set_limit ::
  "string \<Rightarrow> string \<Rightarrow> rpc_info \<Rightarrow> string \<Rightarrow> int \<Rightarrow> 'db process \<Rightarrow> (status + set_response) \<times> 'db process" where
  "core_set_limit secret coreSecret p tier v pr =
    (let ls = p_limiters pr
     in case grpc_call secret coreSecret p ''/ratecap.v1.RatecapService/SetDynamicLimit''
         (\<lambda>s. case SetDynamicLimit tier v (rateLimiter ls, fleetShedder ls) of
            (r, tb, fs) \<Rightarrow> (Done (map_sum id (\<lambda>resp. (resp, ls\<lparr>rateLimiter := tb, fleetShedder := fs\<rparr>)) r), s)) (p_core pr) of
       (Inl err, s1) \<Rightarrow> (Inl err, pr\<lparr>p_core := s1\<rparr>)
     | (Inr (resp, ls'), s1) \<Rightarrow> (Inr resp, pr\<lparr>p_limiters := ls', p_core := s1\<rparr>))"

definition over_grpc :: "delivery \<Rightarrow> ('u \<Rightarrow> (status + 'r) \<times> 'u) \<Rightarrow> 'u \<Rightarrow> (status + 'r) \<times> 'u" where
  "over_grpc d call u =
    (case d of Delivered \<Rightarrow> call u | NotSent e \<Rightarrow> (Inl (OtherCode ''Unavailable'', e), u)
     | AnswerLost e \<Rightarrow> (Inl (OtherCode ''Unavailable'', e), snd (call u)))"

definition is_sent :: "delivery \<Rightarrow> bool" where
  "is_sent d \<longleftrightarrow> (case d of NotSent _ \<Rightarrow> False | _ \<Rightarrow> True)"

lemma set_limit_headers:
  "cr_Path (set_limit_request quote secret t v) = ''/admin/set-limit''"
  "cr_Method (set_limit_request quote secret t v) = ''POST''"
  "cr_Body (set_limit_request quote secret t v) = set_limit_body quote t v"
  "visible secret \<Longrightarrow> Header_Get (as_sent (set_limit_request quote secret t v)) ''X-RateCap-Admin-Secret'' = secret"
  "visible secret \<Longrightarrow> \<not> list_ex (\<lambda>(n, v). \<not> ValidHeaderFieldValue v) (cr_Header (set_limit_request quote secret t v))"
proof -
  have c: "CanonicalHeaderKey ''X-RateCap-Admin-Secret'' = ''X-Ratecap-Admin-Secret''" "CanonicalHeaderKey ''Content-Type'' = ''Content-Type''"
    by (simp_all add: canonical_eval)
  show "cr_Path (set_limit_request quote secret t v) = ''/admin/set-limit''"
    "cr_Method (set_limit_request quote secret t v) = ''POST''"
    "cr_Body (set_limit_request quote secret t v) = set_limit_body quote t v"
    by (simp_all add: set_limit_request_def request_Header_Set_def)
  show "visible secret \<Longrightarrow> Header_Get (as_sent (set_limit_request quote secret t v)) ''X-RateCap-Admin-Secret'' = secret"
    "visible secret \<Longrightarrow> \<not> list_ex (\<lambda>(n, v). \<not> ValidHeaderFieldValue v) (cr_Header (set_limit_request quote secret t v))"
    by (simp_all add: set_limit_request_def request_Header_Set_def c set_field_def)
qed

definition limit_accepted :: "string \<Rightarrow> int \<Rightarrow> bool" where
  "limit_accepted tier limit \<longleftrightarrow> tier = ''rate_limiter'' \<or> tier = ''fleet_shedder'' \<and> 0 \<le> limit \<and> limit \<le> 100"

definition with_limit :: "string \<Rightarrow> int \<Rightarrow> limiters \<Rightarrow> limiters" where
  "with_limit tier limit ls =
    (if tier = ''rate_limiter'' then ls\<lparr>rateLimiter := (rateLimiter ls)\<lparr>tb_rate := limit\<rparr>\<rparr>
     else ls\<lparr>fleetShedder := (fleetShedder ls)\<lparr>fs_reservedCriticalPct := limit\<rparr>\<rparr>)"

lemma core_set_limit_effect:
  "p_limiters (snd (core_set_limit secret coreSecret p tier limit pr)) =
     (if secret = coreSecret \<and> limit_accepted tier limit then with_limit tier limit (p_limiters pr) else p_limiters pr) \<and>
   ((\<exists>r. fst (core_set_limit secret coreSecret p tier limit pr) = Inr r) \<longleftrightarrow> secret = coreSecret \<and> limit_accepted tier limit)"
  by (auto simp: core_set_limit_def grpc_call_def sidecar_secret_accepted metrics_interceptor_def SetDynamicLimit_def
      SetRate_def SetReservedCriticalPct_def limit_accepted_def with_limit_def Let_def split: prod.splits)

text \<open>The same through the admin endpoint, for a request that carries its secret.\<close>

lemma serve_admin_effect:
  assumes "rq_Method r = ''POST''" "Header_Get r ''X-RateCap-Admin-Secret'' = given" "given \<noteq> ''''"
    and "decode (rq_Body r) = (if in_int32 limit then Inr \<lparr>body_Tier = tier, body_Value = limit\<rparr> else Inl err)"
    and "arrives \<longleftrightarrow> given = adminSecret \<and> in_int32 limit \<and> secret = coreSecret \<and> is_sent d"
    and "rpc_set = (\<lambda>tier v. over_grpc d (core_set_limit secret coreSecret p tier v))"
    and "serve_admin decode encode rpc_set adminSecret r pr = (w, pr')"
  shows "p_limiters pr' = (if arrives \<and> limit_accepted tier limit then with_limit tier limit (p_limiters pr) else p_limiters pr) \<and>
    (status_of w = 200 \<longleftrightarrow> arrives \<and> limit_accepted tier limit \<and> d = Delivered)"
proof (cases "given = adminSecret \<and> in_int32 limit")
  case True
  obtain x pr1 where x: "core_set_limit secret coreSecret p tier limit pr = (x, pr1)" by fastforce
  have e: "p_limiters pr1 = (if secret = coreSecret \<and> limit_accepted tier limit then with_limit tier limit (p_limiters pr) else p_limiters pr)"
    "(\<exists>y. x = Inr y) \<longleftrightarrow> secret = coreSecret \<and> limit_accepted tier limit"
    using core_set_limit_effect[of secret coreSecret p tier limit pr] unfolding x by auto
  show ?thesis
    using assms True x e
    by (cases d; cases x) (auto simp: serve_admin_def over_grpc_def is_sent_def Let_def)
next
  case False
  then show ?thesis using assms by (auto simp: serve_admin_def Let_def split: if_splits)
qed

text \<open>
  C27: \<open>ratecapctl admin set-limit\<close> with an ASCII tier and a secret of visible characters, through a sidecar whose throttle lets it pass,
  changes a limit of core exactly when the call arrives, that is, when its secret, from the flag or
  else the environment, is the one the sidecar is configured with, the limit fits 32 bits, sidecar and
  core share their secret and neither request is lost on the way, and when core accepts the change,
  any rate or a reserved share between 0 and 100; the change is then the one asked for.  The exit code
  is 0 exactly when such a change was made and both answers came back: a 0 tells that core has made
  the change, a 1 leaves open whether it has where an answer may have been lost.
\<close>

theorem set_limit_round_trip:
  assumes "json_laws quote decode" "is_ascii tier" "in_int64 limit"
    and "given = (if flagSecret = '''' then getenv ''RATECAP_ADMIN_SECRET'' else flagSecret)" "visible given"
    and "fst (th_Allow now l)"
    and "rpc_set = (\<lambda>tier v. over_grpc d' (core_set_limit secret coreSecret p tier v))"
    and "changed \<longleftrightarrow> given \<noteq> '''' \<and> given = sm_adminSecret st \<and> in_int32 limit \<and> secret = coreSecret \<and>
      is_sent d \<and> is_sent d' \<and> limit_accepted tier limit"
  shows "case admin_set_limit quote
      (over_network d (http_Do (sidecar_handler st rpc rpc_set decode encode render conn env now now')))
      getenv flagSecret tier limit (l, s) of
    (r, l', s') \<Rightarrow>
      p_limiters (sc_upstream s') =
        (if changed then with_limit tier limit (p_limiters (sc_upstream s)) else p_limiters (sc_upstream s)) \<and>
      exit_code r = (if changed \<and> d = Delivered \<and> d' = Delivered then 0 else 1)"
proof (cases "given = ''''")
  case True
  then show ?thesis using assms(4,8) by (auto simp: admin_set_limit_def exit_code_def Let_def)
next
  case False
  let ?req = "set_limit_request quote given tier limit"
  obtain l1 where l1: "th_Allow now l = (True, l1)" using assms(6) by (metis prod.collapse)
  obtain w u where a: "serve_admin decode encode rpc_set (sm_adminSecret st) (as_sent ?req) (sc_upstream s) = (w, u)"
    by fastforce
  have sent: "http_Do (sidecar_handler st rpc rpc_set decode encode render conn env now now') ?req (l, s) =
      (Inr (received w), l1, s\<lparr>sc_upstream := u\<rparr>)"
    using set_limit_headers[where secret = given] assms(5) l1 a
    by (simp add: http_Do_def sidecar_handler_def newTopMux_def mux_def Middleware_def admin_handler_def split: prod.split)
  obtain err where dec: "decode (rq_Body (as_sent ?req)) =
      (if in_int32 limit then Inr \<lparr>body_Tier = tier, body_Value = limit\<rparr> else Inl err)"
    using assms(1-3) unfolding json_laws_def as_sent_simps(3) set_limit_headers(3) by metis
  have "(is_sent d \<longrightarrow>
      p_limiters u = (if changed then with_limit tier limit (p_limiters (sc_upstream s)) else p_limiters (sc_upstream s))) \<and>
    (is_sent d \<longrightarrow> (status_of w = 200 \<longleftrightarrow> changed \<and> d' = Delivered))"
    using serve_admin_effect[OF _ _ False dec refl assms(7) a] set_limit_headers[where secret = given] assms(5,8) False
    by (auto split: if_splits)
  then show ?thesis
    using sent assms(4,8) False
    by (cases d) (auto simp: admin_set_limit_def over_network_def is_sent_def exit_code_def Let_def split: if_splits)
qed

text \<open>A coding of strings in which every character has a mark in front of it.\<close>

definition demo_quote :: "string \<Rightarrow> string" where
  "demo_quote t = CHR 0x22 # concat (map (\<lambda>c. [CHR ''.'', c]) t) @ [CHR 0x22]"

fun demo_unquote :: "string \<Rightarrow> string \<times> string" where
  "demo_unquote (m # c # s) =
    (if m = CHR ''.'' then (case demo_unquote s of (t, r) \<Rightarrow> (c # t, r)) else ([], c # s))"
| "demo_unquote s = ([], s)"

definition demo_decode :: "string \<Rightarrow> go_error + setLimitBody" where
  "demo_decode b =
    (case demo_unquote (drop 9 b) of
       (t, r) \<Rightarrow> (case ParseInt (butlast (drop 9 r)) of
         None \<Rightarrow> Inl ''not a number''
       | Some v \<Rightarrow> if in_int32 v then Inr \<lparr>body_Tier = t, body_Value = v\<rparr> else Inl ''out of range''))"

lemma demo_json_laws: "json_laws demo_quote demo_decode"
proof -
  have u: "demo_unquote (concat (map (\<lambda>c. [CHR ''.'', c]) t) @ CHR 0x22 # CHR '','' # s) = (t, CHR '','' # s)" for t s
    by (induction t) auto
  have "demo_decode (set_limit_body demo_quote t v) =
      (if in_int32 v then Inr \<lparr>body_Tier = t, body_Value = v\<rparr> else Inl ''out of range'')" if "in_int64 v" for t v
    using that by (simp add: demo_decode_def set_limit_body_def demo_quote_def json_object_def json_field_def u ParseInt_Itoa butlast_append)
  then show ?thesis by (auto simp: json_laws_def in_int32_int64)
qed

definition idle_rpc :: "'u rpc_client" where
  "idle_rpc = \<lparr>rpc_Check = (\<lambda>q u. (Inl internalError, u)), rpc_Release = (\<lambda>k t u. (Inr (), u)),
     rpc_Refund = (\<lambda>k n u. (Inr (), u))\<rparr>"

theorem set_limit_round_trip_witness:
  "exit_code (fst (admin_set_limit demo_quote (over_network Delivered (http_Do (sidecar_handler demo_start idle_rpc
      (\<lambda>tier v. over_grpc Delivered (core_set_limit ''s'' ''s'' \<lparr>ri_peer = NoPeer, ri_nanos = 0\<rparr> tier v))
      demo_decode (\<lambda>_. ''{}'') (\<lambda>_. '''') Ready (demo_env 5) 5 5)))
      (\<lambda>_. ''t'') '''' ''fleet_shedder'' 25
      (\<lparr>th_rate = Fin 1, th_burst = Fin 2, th_tokens = Fin 2, th_updatedAt = 5\<rparr>,
       demo_sidecar 0 '''' fmempty \<lparr>p_limiters = new_limiters demo_cfg, p_core = demo_core Map.empty demo_envs []\<rparr>))) = 0"
proof -
  let ?l = "\<lparr>th_rate = Fin 1, th_burst = Fin 2, th_tokens = Fin 2, th_updatedAt = 5\<rparr>"
  let ?s = "demo_sidecar 0 '''' fmempty \<lparr>p_limiters = new_limiters demo_cfg, p_core = demo_core Map.empty demo_envs []\<rparr>"
  have l: "fst (th_Allow 5 ?l)" by (simp add: th_Allow_def refillLocked_def Let_def)
  have "''t'' = (if '''' = '''' then (\<lambda>_. ''t'') ''RATECAP_ADMIN_SECRET'' else '''')" by simp
  from set_limit_round_trip[OF demo_json_laws _ _ this _ l refl refl, where tier = "''fleet_shedder''" and limit = 25
      and d = Delivered and d' = Delivered and st = demo_start and secret = "''s''" and coreSecret = "''s''"
      and p = "\<lparr>ri_peer = NoPeer, ri_nanos = 0\<rparr>" and rpc = idle_rpc and encode = "\<lambda>_. ''{}''" and render = "\<lambda>_. ''''"
      and conn = Ready and env = "demo_env 5" and now' = 5 and s = ?s]
  show ?thesis by (auto simp: demo_start_def in_int64_def in_int32_def limit_accepted_def is_ascii_def is_sent_def split: prod.splits)
qed

end
