(* ===== verification/SampleApp.thy ===== *)
theory SampleApp
  imports GoSdk
begin

text \<open>
  \<open>deploy/sampleapp/main.go\<close>: the handlers of the sample application.  \<open>http\<close> is the HTTP client under
  the context of the request; where a handler has waited, whether this context has ended meanwhile
  is an argument.
\<close>

definition text_line :: "string \<Rightarrow> string" where
  "text_line s = s @ [CHR 0x0A]"

section \<open>Through the client library\<close>

definition checkout :: "'s http_client \<Rightarrow> http_request \<Rightarrow> 's \<Rightarrow> http_response \<times> 's" where
  "checkout http r s =
    (case sdk_Allow http ''demo-user'' [] s of
       (Inl err, s1) \<Rightarrow> (http_Error ''rate limit check failed'' 500 fresh_response, s1)
     | (Inr a, s1) \<Rightarrow>
       (if \<not> ar_allowed a
        then (http_Error ''rate limited'' 429 (Header_Set ''Retry-After-Ms'' (Itoa (ar_retryAfterMs a)) fresh_response), s1)
        else (write_body (text_line ''checkout processed'') fresh_response, s1)))"

text \<open>The release is deferred: it runs after the answer is written, under the context of the request.\<close>

definition slow_report :: "'s http_client \<Rightarrow> bool \<Rightarrow> http_request \<Rightarrow> 's \<Rightarrow> http_response outcome \<times> 's" where
  "slow_report http ended r s =
    (case Acquire http ''demo-user-reports'' [] s of
       (None, s1) \<Rightarrow> (Waiting, s1)
     | (Some (Inl err), s1) \<Rightarrow> (Done (http_Error ''concurrency check failed'' 500 fresh_response), s1)
     | (Some (Inr ticket), s1) \<Rightarrow>
       (Done (if \<not> tk_Allowed ticket
              then http_Error ''too many concurrent reports in flight'' 429
                (Header_Set ''Retry-After-Ms'' (Itoa (tk_RetryAfterMs ticket)) fresh_response)
              else write_body (text_line ''report generated'') fresh_response),
        snd (Ticket_Release (with_context ended http) ticket s1)))"

section \<open>Through the sidecar's HTTP interface\<close>

definition relayedCheckHeaders :: "string list" where
  "relayedCheckHeaders = [''X-RateCap-Shed-Tier'', ''Retry-After-Ms'', ''RateLimit-Reset'']"

definition relayCheckHeaders :: "http_response \<Rightarrow> http_response \<Rightarrow> http_response" where
  "relayCheckHeaders checkResp w =
    fold (\<lambda>h w. let v = response_Header_Get checkResp h in if v \<noteq> '''' then Header_Set h v w else w) relayedCheckHeaders w"

fun releaseAll :: "'s http_client \<Rightarrow> sdk_reservation list \<Rightarrow> 's \<Rightarrow> 's" where
  "releaseAll http [] s = s"
| "releaseAll http (rk # keys) s = releaseAll http keys (snd (http (release_request rk) s))"

definition priorityLabel_of :: "string \<Rightarrow> string" where
  "priorityLabel_of priorityParam = (if priorityParam = ''critical'' then ''critical'' else ''sheddable'')"

definition fleet_request :: "string \<Rightarrow> string \<Rightarrow> string \<Rightarrow> client_request" where
  "fleet_request key priorityParam routeParam =
    (let r0 = \<lparr>cr_Method = ''GET'', cr_Path = ''/check'', cr_Query = [(''key'', key)], cr_Header = [], cr_Body = ''''\<rparr>;
         r1 = (if priorityParam = ''critical'' \<or> priorityParam = ''sheddable''
               then request_Header_Set ''x-ratecap-priority'' (priorityLabel_of priorityParam) r0 else r0)
     in if routeParam \<noteq> '''' then request_Header_Set ''x-ratecap-route'' routeParam r1 else r1)"

definition bool_text :: "bool \<Rightarrow> string" where
  "bool_text b = (if b then ''true'' else ''false'')"

definition demo_text :: "string \<Rightarrow> string \<Rightarrow> string \<Rightarrow> string" where
  "demo_text what priorityParam routeParam =
    text_line (what @ '' (priority='' @ priorityLabel_of priorityParam @ '', route-header-set='' @
      bool_text (routeParam \<noteq> '''') @ '')'')"

text \<open>The counter of demo requests is an atomic \<open>int64\<close>.  Releases run under the background context; the
  loop over the numbered headers is the client library's.\<close>

definition fleet_demo ::
  "'s http_client \<Rightarrow> http_request \<Rightarrow> int \<times> 's \<Rightarrow> http_response outcome \<times> int \<times> 's" where
  "fleet_demo http r st =
    (case st of (n0, s) \<Rightarrow>
      (let priorityParam = rq_Query r ''priority''; routeParam = rq_Query r ''route'';
           n = int64 (n0 + 1); key = ''fleet-demo-'' @ Itoa n
       in case http (fleet_request key priorityParam routeParam) s of
            (Inl err, s1) \<Rightarrow> (Done (http_Error ''fleet check failed'' 500 fresh_response), n, s1)
          | (Inr resp, s1) \<Rightarrow>
            (case read_reservations 0 resp [] of
               None \<Rightarrow> (Waiting, n, s1)
             | Some releaseKeys \<Rightarrow>
               (let w = relayCheckHeaders resp fresh_response
                in (Done (if status_of resp \<noteq> 200
                          then write_body (demo_text ''shed'' priorityParam routeParam) (WriteHeader (status_of resp) w)
                          else write_body (demo_text ''fleet request processed'' priorityParam routeParam) w),
                    n, releaseAll http releaseKeys s1)))))"

definition worker_request :: "string \<Rightarrow> client_request" where
  "worker_request key =
    \<lparr>cr_Method = ''GET'', cr_Path = ''/check'', cr_Query = [(''key'', key), (''skip_reservations'', ''true'')], cr_Header = [], cr_Body = ''''\<rparr>"

definition worker_demo :: "'s http_client \<Rightarrow> http_request \<Rightarrow> int \<times> 's \<Rightarrow> http_response \<times> int \<times> 's" where
  "worker_demo http r st =
    (case st of (n0, s) \<Rightarrow>
      (let n = int64 (n0 + 1)
       in case http (worker_request (''worker-demo-'' @ Itoa n)) s of
            (Inl err, s1) \<Rightarrow> (http_Error ''worker check failed'' 500 fresh_response, n, s1)
          | (Inr resp, s1) \<Rightarrow>
            (let w = relayCheckHeaders resp fresh_response
             in (if status_of resp \<noteq> 200
                 then write_body (text_line (''shed (status='' @ Itoa (status_of resp) @ '')'')) (WriteHeader (status_of resp) w)
                 else write_body (text_line ''worker request processed'') w, n, s1))))"

section \<open>What they share\<close>

lemma releaseAll_loop: "releaseAll http keys s = snd (release_loop http keys s)"
  by (induction keys arbitrary: s) (auto simp: releaseOne_def split: prod.split sum.split)

lemma relayed_response:
  "rs_Status (relayCheckHeaders resp w) = rs_Status w"
  by (simp add: relayCheckHeaders_def relayedCheckHeaders_def Let_def)

text \<open>A relayed header is the sidecar's, whenever the sidecar sent one that is not empty.\<close>

lemma relayed_headers:
  assumes "h \<in> set relayedCheckHeaders"
  shows "header_of (relayCheckHeaders resp fresh_response) h =
    (if response_Header_Get resp h = '''' then None else Some (response_Header_Get resp h))"
proof -
  have c: "CanonicalHeaderKey ''X-RateCap-Shed-Tier'' = ''X-Ratecap-Shed-Tier''"
    "CanonicalHeaderKey ''Retry-After-Ms'' = ''Retry-After-Ms''" "CanonicalHeaderKey ''RateLimit-Reset'' = ''Ratelimit-Reset''"
    by (simp_all add: canonical_eval)
  show ?thesis using assms
    by (auto simp: relayCheckHeaders_def relayedCheckHeaders_def Let_def c header_of_def Header_Set_def)
qed

end
