(* ===== verification/ClientProps.thy ===== *)
theory ClientProps
  imports EndToEnd SampleApp CliBench
begin

text \<open>
  The programs that use a sidecar, together with it and core: the handlers of the sample application
  and the requests of the benchmark give back the slots they were granted.
\<close>

lemma visible_bench_key: "visible (keyPrefix cfg) \<Longrightarrow> visible (bench_key cfg i j)"
  by (simp add: bench_key_def)

lemma release_under_ended_context:
  "snd (release_loop (with_context True http) rs s) = s"
proof (induction rs arbitrary: s)
  case (Cons r rs)
  then show ?case by (auto simp: releaseOne_def split: prod.split) (metis snd_conv)
qed simp

text \<open>A client leaves the ledger as it found it, unless the sidecar counted a failed check.\<close>

definition gives_back :: "'db core sidecar \<Rightarrow> 'db core sidecar \<Rightarrow> bool" where
  "gives_back s s' \<longleftrightarrow>
    upstream_errors (sc_metrics s') ''check_rate_limit'' \<noteq> upstream_errors (sc_metrics s) ''check_rate_limit'' \<or>
    held_slots (sc_upstream s') = held_slots (sc_upstream s)"

lemma release_loop_counts:
  "upstream_errors (sc_metrics (snd (release_loop (http_Do (protectedMux rpc env)) rs s))) ''check_rate_limit'' =
    upstream_errors (sc_metrics s) ''check_rate_limit''"
proof (induction rs arbitrary: s)
  case (Cons r rs)
  have "upstream_errors (sc_metrics (snd (serve_release rpc q u))) ''check_rate_limit'' =
      upstream_errors (sc_metrics u) ''check_rate_limit''" for q u
    by (auto simp: serve_release_def RecordReleaseResult_def RecordUpstreamError_def inc_def Let_def split: sum.split prod.split option.split)
  then have "upstream_errors (sc_metrics (snd (releaseOne (http_Do (protectedMux rpc env)) r u))) ''check_rate_limit'' =
      upstream_errors (sc_metrics u) ''check_rate_limit''" for u
    by (auto simp: releaseOne_def http_Do_def protectedMux_def mux_def release_request_def request_Header_Set_def
        split: prod.split sum.split) (metis snd_conv)+
  then show ?case using Cons.IH by (auto split: prod.split) (metis snd_conv)
qed simp

lemma release_after_check:
  assumes "field (cr_Query req) ''key'' = key" "cr_Path req = ''/check''" "uuids_ok (sc_upstream s)" "uuids_visible (sc_upstream s)" "visible key"
    and "http_Do (protectedMux (core_rpc H st ls secret coreSecret p) env) req s = (x, s1)"
  obtains (refused) err where "x = Inl err" "s1 = s"
    | (answered) w rvs where "x = Inr w" "read_reservations 0 w [] = Some rvs"
      "gives_back s (snd (release_loop (http_Do (protectedMux (core_rpc H st ls secret coreSecret p) env)) rvs s1))"
proof (cases "list_ex (\<lambda>(n, v). \<not> ValidHeaderFieldValue v) (cr_Header req)")
  case True
  then show thesis using assms(6) by (intro refused) (auto simp: http_Do_def)
next
  case False
  let ?rpc = "core_rpc H st ls secret coreSecret p"
  obtain w s' where w: "serve_check ?rpc Sheddable env (as_sent req) s = (w, s')" by fastforce
  obtain rvs where r: "read_reservations 0 (received w) [] = Some rvs"
    "upstream_errors (sc_metrics s') ''check_rate_limit'' \<noteq> upstream_errors (sc_metrics s) ''check_rate_limit'' \<or>
      held_slots (sc_upstream s') = held_slots (sc_upstream s) + mset (map (\<lambda>r. (rv_key r, rv_tok r)) rvs)"
    "rvs = [] \<or> secret = coreSecret \<and>
      (\<forall>r \<in> set rvs. visible (rv_key r) \<and> rv_key r \<noteq> '''' \<and> visible (rv_tok r) \<and> verifyToken H (rv_tok r) (signingKey st))"
    by (rule acquire_slots[OF assms(1) False w assms(3-5)])
  have x: "x = Inr (received w)" "s1 = s'"
    using False w assms(2,6) by (auto simp: http_Do_def protectedMux_def mux_def)
  have "held_slots (sc_upstream (snd (release_loop (http_Do (protectedMux ?rpc env)) rvs s'))) =
      held_slots (sc_upstream s') - mset (map (\<lambda>r. (rv_key r, rv_tok r)) rvs)"
    using r(3) release_loop_held[of rvs H st ls coreSecret p env s'] by auto
  then show thesis using r(1,2) x by (intro answered[of "received w" rvs]) (auto simp: gives_back_def release_loop_counts)
qed



text \<open>If the caller of \<open>/slow-report\<close> has gone when it ends, the ticket stays taken.\<close>

theorem gone_caller_keeps_slots:
  "Acquire http ''demo-user-reports'' [] s = (Some (Inr t), s1) \<Longrightarrow> snd (slow_report http True r s) = s1"
  by (simp add: slow_report_def Ticket_Release_def release_under_ended_context)

end
