(* ===== verification/GoPath.thy ===== *)
theory GoPath
  imports GoStrings
begin

text \<open>\<open>filepath.Clean\<close> and \<open>filepath.Dir\<close> of Go on Unix.\<close>

text \<open>The elements kept so far, the last one first.\<close>

fun clean_elems :: "bool \<Rightarrow> string list \<Rightarrow> string list \<Rightarrow> string list" where
  "clean_elems rooted out [] = out"
| "clean_elems rooted out (x # xs) =
    (if x = '''' \<or> x = ''.'' then clean_elems rooted out xs
     else if x = ''..'' then
       (if out \<noteq> [] \<and> hd out \<noteq> ''..'' then clean_elems rooted (tl out) xs
        else if rooted then clean_elems rooted out xs
        else clean_elems rooted (x # out) xs)
     else clean_elems rooted (x # out) xs)"

fun join_path :: "string list \<Rightarrow> string" where
  "join_path [] = ''''"
| "join_path [x] = x"
| "join_path (x # y # xs) = x @ ''/'' @ join_path (y # xs)"

definition path_Clean :: "string \<Rightarrow> string" where
  "path_Clean path =
    (let rooted = HasPrefix path ''/''; s = join_path (rev (clean_elems rooted [] (Split path CHR ''/'')))
     in if rooted then ''/'' @ s else if s = '''' then ''.'' else s)"

text \<open>What precedes the last slash, the slash included, cleaned.\<close>

definition path_Dir :: "string \<Rightarrow> string" where
  "path_Dir path = path_Clean (rev (dropWhile (\<lambda>c. c \<noteq> CHR ''/'') (rev path)))"

lemma Dir_examples:
  "path_Dir ''/etc/ratecap/ratecap.yaml'' = ''/etc/ratecap''" "path_Dir ''tls.crt'' = ''.''"
  "path_Dir ''./certs//tls.crt'' = ''certs''" "path_Dir ''/a/../../b'' = ''/''" "path_Dir ''../x/..'' = ''../x''"
  by (simp_all add: path_Dir_def path_Clean_def HasPrefix_def)

end
