(* ===== verification/WatcherLife.thy ===== *)
theory WatcherLife
  imports Prelude
begin

text \<open>
  The life of a goroutine that watches files, and of the \<open>stop\<close> function returned beside it:
  \<open>config.Watch\<close>, \<open>criticalroutes.Watch\<close> and the two \<open>tlsconfig.watchCert\<close>.  What the loop loads is in
  \<open>FileWatcher\<close>; here a reload is two steps, so that \<open>stop\<close> may be called in its midst.  Any number of
  goroutines may call \<open>stop\<close>; \<open>sync.Once\<close> lets one of them in and holds the others until it is done.
\<close>

section \<open>The steps\<close>

datatype loop_pc = Selecting | Reloading | Exited

datatype stop_pc = Uncalled | Closing | Awaiting | Held | Back

datatype once = Fresh | Entered | Complete

record watcher_life =
  done_closed :: bool
  fs_open :: bool
  loop :: loop_pc
  once_state :: once
  stops :: "stop_pc list"
  reloads :: nat

definition life_start :: "nat \<Rightarrow> watcher_life" where
  "life_start n = \<lparr>done_closed = False, fs_open = True, loop = Selecting, once_state = Fresh,
     stops = replicate n Uncalled, reloads = 0\<rparr>"

definition set_stop :: "nat \<Rightarrow> stop_pc \<Rightarrow> watcher_life \<Rightarrow> watcher_life" where
  "set_stop i x s = s\<lparr>stops := (stops s)[i := x]\<rparr>"

text \<open>
  \<open>receive\<close> is the case of the \<open>select\<close> that leads to a reload: an event on the file, or the timer of a
  debounced loop; other cases change nothing here.  \<open>awaits\<close>: the stop function waits for the channel
  \<open>stopped\<close> before it returns.
\<close>

inductive life_step :: "bool \<Rightarrow> watcher_life \<Rightarrow> watcher_life \<Rightarrow> bool" for awaits where
  receive: "loop s = Selecting \<Longrightarrow> fs_open s \<Longrightarrow> life_step awaits s (s\<lparr>loop := Reloading\<rparr>)"
| reloaded: "loop s = Reloading \<Longrightarrow> life_step awaits s (s\<lparr>loop := Selecting, reloads := reloads s + 1\<rparr>)"
| see_done: "loop s = Selecting \<Longrightarrow> done_closed s \<Longrightarrow> life_step awaits s (s\<lparr>loop := Exited, fs_open := False\<rparr>)"
| see_closed: "loop s = Selecting \<Longrightarrow> \<not> fs_open s \<Longrightarrow> life_step awaits s (s\<lparr>loop := Exited\<rparr>)"
| enter: "i < length (stops s) \<Longrightarrow> stops s ! i = Uncalled \<Longrightarrow> once_state s = Fresh \<Longrightarrow>
    life_step awaits s (set_stop i Closing s\<lparr>once_state := Entered\<rparr>)"
| hold: "i < length (stops s) \<Longrightarrow> stops s ! i = Uncalled \<Longrightarrow> once_state s \<noteq> Fresh \<Longrightarrow>
    life_step awaits s (set_stop i Held s)"
| close_done: "i < length (stops s) \<Longrightarrow> stops s ! i = Closing \<Longrightarrow> awaits \<Longrightarrow>
    life_step awaits s (set_stop i Awaiting s\<lparr>done_closed := True\<rparr>)"
| close_only: "i < length (stops s) \<Longrightarrow> stops s ! i = Closing \<Longrightarrow> \<not> awaits \<Longrightarrow>
    life_step awaits s (set_stop i Back s\<lparr>done_closed := True, once_state := Complete\<rparr>)"
| stopped: "i < length (stops s) \<Longrightarrow> stops s ! i = Awaiting \<Longrightarrow> loop s = Exited \<Longrightarrow>
    life_step awaits s (set_stop i Back s\<lparr>once_state := Complete\<rparr>)"
| released: "i < length (stops s) \<Longrightarrow> stops s ! i = Held \<Longrightarrow> once_state s = Complete \<Longrightarrow>
    life_step awaits s (set_stop i Back s)"

declare life_step.intros [intro]

inductive_cases life_stepE: "life_step awaits s s'"

text \<open>The four watchers.  The \<open>stop\<close> of core's certificate closes \<open>done\<close> and does not wait.\<close>

definition config_life :: "watcher_life \<Rightarrow> watcher_life \<Rightarrow> bool" where
  "config_life = life_step True"

definition routes_life :: "watcher_life \<Rightarrow> watcher_life \<Rightarrow> bool" where
  "routes_life = life_step True"

definition sidecar_cert_life :: "watcher_life \<Rightarrow> watcher_life \<Rightarrow> bool" where
  "sidecar_cert_life = life_step True"

definition core_cert_life :: "watcher_life \<Rightarrow> watcher_life \<Rightarrow> bool" where
  "core_cert_life = life_step False"

lemma set_stop_simps [simp]:
  "stops (set_stop i x s) = (stops s)[i := x]" "done_closed (set_stop i x s) = done_closed s"
  "fs_open (set_stop i x s) = fs_open s" "loop (set_stop i x s) = loop s" "once_state (set_stop i x s) = once_state s"
  "reloads (set_stop i x s) = reloads s"
  by (simp_all add: set_stop_def)

section \<open>When a stop function waits\<close>

text \<open>One caller at most is inside; \<open>done\<close> is closed once it has passed; it completes after the loop.\<close>

fun inside :: "stop_pc \<Rightarrow> bool" where
  "inside Closing = True"
| "inside Awaiting = True"
| "inside _ = False"

definition life_ok :: "watcher_life \<Rightarrow> bool" where
  "life_ok s \<longleftrightarrow>
    length (filter inside (stops s)) = (if once_state s = Entered then 1 else 0) \<and>
    (once_state s = Fresh \<longrightarrow> list_all (\<lambda>x. x = Uncalled) (stops s)) \<and>
    (Back \<in> set (stops s) \<longrightarrow> once_state s = Complete) \<and>
    (Awaiting \<in> set (stops s) \<longrightarrow> done_closed s) \<and>
    (once_state s = Complete \<longrightarrow> loop s = Exited) \<and>
    (loop s = Exited \<longrightarrow> \<not> fs_open s) \<and> (\<not> fs_open s \<longrightarrow> done_closed s)"

lemma life_ok_start: "life_ok (life_start n)"
  by (simp add: life_ok_def life_start_def list_all_iff)

lemma filter_update_length:
  "i < length xs \<Longrightarrow> length (filter P (xs[i := x])) + (if P (xs ! i) then 1 else 0) =
    length (filter P xs) + (if P x then 1 else (0::nat))"
proof (induction xs arbitrary: i)
  case (Cons a xs)
  then show ?case by (cases i) auto
qed simp

lemma in_update: "y \<in> set (xs[i := x]) \<Longrightarrow> y = x \<or> y \<in> set xs"
  by (meson insertE set_update_subset_insert subsetD)

lemma life_ok_step:
  assumes "life_step True s s'" "life_ok s"
  shows "life_ok s'"
  using assms(1)
proof cases
  case (enter i)
  then have "list_all (\<lambda>x. x = Uncalled) (stops s)" using assms(2) by (simp add: life_ok_def)
  moreover have "length (filter inside ((stops s)[i := Closing])) = length (filter inside (stops s)) + 1"
    using enter filter_update_length[of i "stops s" inside Closing] by simp
  ultimately show ?thesis using assms(2) enter
    by (auto simp: life_ok_def list_all_iff dest!: in_update)
next
  case (hold i)
  then show ?thesis using assms(2) filter_update_length[of i "stops s" inside Held]
    by (auto simp: life_ok_def dest!: in_update)
next
  case (close_done i)
  then have "Closing \<in> set (stops s)" by (metis nth_mem)
  then show ?thesis using assms(2) close_done filter_update_length[of i "stops s" inside Awaiting]
    by (auto simp: life_ok_def list_all_iff dest!: in_update)
next
  case (stopped i)
  then have "Awaiting \<in> set (stops s)" by (metis nth_mem)
  then show ?thesis using assms(2) stopped filter_update_length[of i "stops s" inside Back]
    by (auto simp: life_ok_def list_all_iff dest!: in_update split: if_splits)
next
  case (released i)
  then show ?thesis using assms(2) filter_update_length[of i "stops s" inside Back]
    by (auto simp: life_ok_def dest!: in_update)
qed (use assms(2) in \<open>auto simp: life_ok_def split: if_splits\<close>)

lemma life_ok_reachable: "(life_step True)\<^sup>*\<^sup>* (life_start n) s \<Longrightarrow> life_ok s"
  by (induction rule: rtranclp_induct) (auto intro: life_ok_start life_ok_step)

lemma exited_for_good:
  "(life_step awaits)\<^sup>*\<^sup>* s s' \<Longrightarrow> loop s = Exited \<Longrightarrow> loop s' = Exited \<and> reloads s' = reloads s"
proof (induction rule: rtranclp_induct)
  case (step y z)
  from step.hyps(2) show ?case using step.IH step.prems by cases auto
qed simp

lemma loop_can_exit:
  assumes "done_closed s"
  shows "\<exists>s'. (life_step awaits)\<^sup>*\<^sup>* s s' \<and> loop s' = Exited \<and> stops s' = stops s \<and> once_state s' = once_state s \<and> done_closed s'"
proof -
  have exits: "\<exists>s'. life_step awaits x s' \<and> loop s' = Exited \<and> stops s' = stops x \<and> once_state s' = once_state x \<and> done_closed s'"
    if "loop x = Selecting" "done_closed x" for x
    using see_done[OF that, of awaits] that(2) by (intro exI[of _ "x\<lparr>loop := Exited, fs_open := False\<rparr>"]) simp
  show ?thesis
  proof (cases "loop s")
    case Selecting
    then show ?thesis using exits[of s] assms by blast
  next
    case Reloading
    let ?t = "s\<lparr>loop := Selecting, reloads := reloads s + 1\<rparr>"
    obtain s' where "life_step awaits ?t s'" "loop s' = Exited" "stops s' = stops s" "once_state s' = once_state s" "done_closed s'"
      using exits[of ?t] assms by auto
    moreover have "life_step awaits s ?t" using Reloading by blast
    ultimately show ?thesis by (meson converse_rtranclp_into_rtranclp r_into_rtranclp)
  next
    case Exited
    then show ?thesis using assms by blast
  qed
qed

lemma inside_returns:
  assumes "life_ok s" "j < length (stops s)" "inside (stops s ! j)"
  shows "\<exists>s'. (life_step True)\<^sup>*\<^sup>* s s' \<and> stops s' = (stops s)[j := Back] \<and> once_state s' = Complete"
proof -
  have waits: "\<exists>s'. (life_step True)\<^sup>*\<^sup>* x s' \<and> stops s' = (stops x)[j := Back] \<and> once_state s' = Complete"
    if x: "j < length (stops x)" "stops x ! j = Awaiting" "done_closed x" for x
  proof -
    obtain y where y: "(life_step True)\<^sup>*\<^sup>* x y" "loop y = Exited" "stops y = stops x"
      using loop_can_exit[OF x(3), of True] by blast
    have "life_step True y (set_stop j Back y\<lparr>once_state := Complete\<rparr>)" using x y by (intro stopped) auto
    then show ?thesis using y by (intro exI[of _ "set_stop j Back y\<lparr>once_state := Complete\<rparr>"]) auto
  qed
  show ?thesis
  proof (cases "stops s ! j")
    case Closing
    let ?t = "set_stop j Awaiting s\<lparr>done_closed := True\<rparr>"
    have "life_step True s ?t" using Closing assms(2) by (intro close_done) auto
    then show ?thesis using waits[of ?t] assms(2) by (auto intro: converse_rtranclp_into_rtranclp)
  next
    case Awaiting
    moreover have "Awaiting \<in> set (stops s)" using Awaiting assms(2) by (metis nth_mem)
    ultimately show ?thesis using waits[of s] assms(1,2) by (auto simp: life_ok_def)
  qed (use assms(3) in simp_all)
qed

lemma held_returns:
  assumes "i < length (stops s)" "stops s ! i = Held" "once_state s = Complete"
  shows "\<exists>s'. (life_step True)\<^sup>*\<^sup>* s s' \<and> stops s' ! i = Back"
  using released[OF assms, of True] assms(1) by (intro exI[of _ "set_stop i Back s"]) auto

lemma waiting_stop_is_silent:
  assumes "(life_step True)\<^sup>*\<^sup>* (life_start n) s"
  shows "(if Back \<in> set (stops s)
      then loop s = Exited \<and> \<not> fs_open s \<and> (\<forall>s'. (life_step True)\<^sup>*\<^sup>* s s' \<longrightarrow> reloads s' = reloads s) else True) \<and>
    (\<forall>i < length (stops s). stops s ! i \<noteq> Uncalled \<longrightarrow> (\<exists>s'. (life_step True)\<^sup>*\<^sup>* s s' \<and> stops s' ! i = Back))"
proof (intro conjI allI impI)
  have ok: "life_ok s" by (rule life_ok_reachable[OF assms])
  show "if Back \<in> set (stops s)
      then loop s = Exited \<and> \<not> fs_open s \<and> (\<forall>s'. (life_step True)\<^sup>*\<^sup>* s s' \<longrightarrow> reloads s' = reloads s) else True"
  proof (cases "Back \<in> set (stops s)")
    case True
    then have exited: "loop s = Exited" "\<not> fs_open s" using ok by (simp_all add: life_ok_def)
    then show ?thesis using exited_for_good by (meson True)
  qed simp
  fix i
  assume i: "i < length (stops s)" "stops s ! i \<noteq> Uncalled"
  show "\<exists>s'. (life_step True)\<^sup>*\<^sup>* s s' \<and> stops s' ! i = Back"
  proof (cases "stops s ! i")
    case Held
    show ?thesis
    proof (cases "once_state s = Complete")
      case True
      then show ?thesis using held_returns i Held by blast
    next
      case False
      have "\<not> list_all (\<lambda>x. x = Uncalled) (stops s)" using i by (auto simp: list_all_length)
      then have "filter inside (stops s) \<noteq> []" using ok False by (cases "once_state s") (auto simp: life_ok_def)
      then obtain j where j: "j < length (stops s)" "inside (stops s ! j)"
        by (auto simp: filter_empty_conv in_set_conv_nth)
      obtain t where t: "(life_step True)\<^sup>*\<^sup>* s t" "stops t = (stops s)[j := Back]" "once_state t = Complete"
        using inside_returns[OF ok j] by blast
      have "stops t ! i = Held" using t(2) i Held j by (cases "i = j") auto
      then obtain s' where "(life_step True)\<^sup>*\<^sup>* t s'" "stops s' ! i = Back"
        using held_returns[of i t] t(2,3) i(1) by auto
      then show ?thesis using t(1) by (meson rtranclp_trans)
    qed
  next
    case Back
    then show ?thesis by blast
  next
    case Closing
    then obtain t where "(life_step True)\<^sup>*\<^sup>* s t" "stops t = (stops s)[i := Back]" using inside_returns[OF ok i(1)] by auto
    then show ?thesis using i(1) by (intro exI[of _ t]) simp
  next
    case Awaiting
    then obtain t where "(life_step True)\<^sup>*\<^sup>* s t" "stops t = (stops s)[i := Back]" using inside_returns[OF ok i(1)] by auto
    then show ?thesis using i(1) by (intro exI[of _ t]) simp
  qed (use i(2) in simp)
qed

text \<open>
  C21: Where \<open>stop\<close> waits for the goroutine (the configuration, the critical routes and the certificate
  of a sidecar), once any call of it has returned the goroutine has exited, its file watcher is
  closed, and nothing is ever reloaded again, whatever is called concurrently and whatever events
  were on their way.  And every call can return: from any state there are steps to its return.
\<close>

theorem stopped_watcher_is_silent:
  assumes "w \<in> {config_life, routes_life, sidecar_cert_life}" "w\<^sup>*\<^sup>* (life_start n) s"
  shows "(if Back \<in> set (stops s)
      then loop s = Exited \<and> \<not> fs_open s \<and> (\<forall>s'. w\<^sup>*\<^sup>* s s' \<longrightarrow> reloads s' = reloads s) else True) \<and>
    (\<forall>i < length (stops s). stops s ! i \<noteq> Uncalled \<longrightarrow> (\<exists>s'. w\<^sup>*\<^sup>* s s' \<and> stops s' ! i = Back))"
proof -
  have w: "w = life_step True" using assms(1) by (auto simp: config_life_def routes_life_def sidecar_cert_life_def)
  show ?thesis using waiting_stop_is_silent[of n s] assms(2) unfolding w by blast
qed

theorem stopped_watcher_is_silent_witness:
  "\<exists>s. sidecar_cert_life\<^sup>*\<^sup>* (life_start 2) s \<and> stops s = [Back, Held] \<and> reloads s = 1 \<and> loop s = Exited \<and> \<not> fs_open s"
proof -
  let ?s0 = "life_start 2"
  define s1 where "s1 = ?s0\<lparr>loop := Reloading\<rparr>"
  define s2 where "s2 = set_stop 0 Closing s1\<lparr>once_state := Entered\<rparr>"
  define s3 where "s3 = set_stop 1 Held s2"
  define s4 where "s4 = set_stop 0 Awaiting s3\<lparr>done_closed := True\<rparr>"
  define s5 where "s5 = s4\<lparr>loop := Selecting, reloads := reloads s4 + 1\<rparr>"
  define s6 where "s6 = s5\<lparr>loop := Exited, fs_open := False\<rparr>"
  define s7 where "s7 = set_stop 0 Back s6\<lparr>once_state := Complete\<rparr>"
  note defs = s1_def s2_def s3_def s4_def s5_def s6_def s7_def life_start_def
  have run: "(life_step True)\<^sup>*\<^sup>* ?s0 s7"
  proof -
    have 1: "life_step True ?s0 s1" unfolding s1_def by (intro receive) (simp_all add: defs)
    have 2: "life_step True s1 s2" unfolding s2_def by (intro enter) (simp_all add: defs)
    have 3: "life_step True s2 s3" unfolding s3_def by (intro hold) (simp_all add: defs)
    have 4: "life_step True s3 s4" unfolding s4_def by (intro close_done) (simp_all add: defs)
    have 5: "life_step True s4 s5" unfolding s5_def by (intro reloaded) (simp_all add: defs)
    have 6: "life_step True s5 s6" unfolding s6_def by (intro see_done) (simp_all add: defs)
    have 7: "life_step True s6 s7" unfolding s7_def by (intro stopped) (simp_all add: defs)
    show ?thesis
      by (rule converse_rtranclp_into_rtranclp, rule 1, rule converse_rtranclp_into_rtranclp, rule 2,
          rule converse_rtranclp_into_rtranclp, rule 3, rule converse_rtranclp_into_rtranclp, rule 4,
          rule converse_rtranclp_into_rtranclp, rule 5, rule converse_rtranclp_into_rtranclp, rule 6,
          rule r_into_rtranclp, rule 7)
  qed
  moreover have s7: "stops s7 = [Back, Held]" "reloads s7 = 1" by (simp_all add: defs numeral_2_eq_2)
  moreover have "loop s7 = Exited \<and> \<not> fs_open s7"
    using stopped_watcher_is_silent[of sidecar_cert_life 2 s7] run s7(1) by (auto simp: sidecar_cert_life_def split: if_split_asm)
  ultimately show ?thesis unfolding sidecar_cert_life_def by blast
qed

text \<open>Where it does not wait (the certificate of core), a reload may follow the return of \<open>stop\<close>.\<close>

theorem core_certificate_reloads_after_stop:
  "\<exists>s s'. core_cert_life\<^sup>*\<^sup>* (life_start 1) s \<and> stops s = [Back] \<and> core_cert_life\<^sup>*\<^sup>* s s' \<and> reloads s' = reloads s + 1"
proof -
  define s1 where "s1 = set_stop 0 Closing (life_start 1)\<lparr>once_state := Entered\<rparr>"
  define s2 where "s2 = set_stop 0 Back s1\<lparr>done_closed := True, once_state := Complete\<rparr>"
  define s3 where "s3 = s2\<lparr>loop := Reloading\<rparr>"
  define s4 where "s4 = s3\<lparr>loop := Selecting, reloads := reloads s3 + 1\<rparr>"
  note defs = s1_def s2_def s3_def s4_def life_start_def
  have "life_step False (life_start 1) s1" unfolding s1_def by (intro enter) (simp_all add: defs)
  moreover have "life_step False s1 s2" unfolding s2_def by (intro close_only) (simp_all add: defs)
  moreover have "life_step False s2 s3" unfolding s3_def by (intro receive) (simp_all add: defs)
  moreover have "life_step False s3 s4" unfolding s4_def by (intro reloaded) (simp_all add: defs)
  moreover have "stops s2 = [Back]" "reloads s4 = reloads s2 + 1" by (simp_all add: defs)
  ultimately show ?thesis
    unfolding core_cert_life_def by (meson converse_rtranclp_into_rtranclp r_into_rtranclp)
qed

end
