(* ===== verification/Certificates.thy ===== *)
theory Certificates
  imports SidecarAdmin CoreMain GoPath WatcherLife
begin

text \<open>
  The packages \<open>tlsconfig\<close> of core and of the sidecar, and how the watchers of certificates,
  configuration and critical routes are set up.  \<open>tls.LoadX509KeyPair\<close>, the reading of the CA file,
  \<open>AppendCertsFromPEM\<close> and \<open>fsnotify\<close> are arguments: what they answer is what a run finds.
\<close>

section \<open>Setting up a watcher\<close>

text \<open>What a set-up does to the world, in order.\<close>

datatype setup_effect =
    LoadFile
  | NewWatcher
  | AddDir string
  | CloseWatcher
  | GoLoop
  | CallStop

text \<open>\<open>watcher.Add\<close> on one directory after the other; the first error closes the watcher.\<close>

fun add_dirs :: "(string \<Rightarrow> go_error option) \<Rightarrow> string list \<Rightarrow> setup_effect list \<times> go_error option" where
  "add_dirs add [] = ([], None)"
| "add_dirs add (dir # dirs) =
    (case add dir of
       Some err \<Rightarrow> ([AddDir dir, CloseWatcher], Some err)
     | None \<Rightarrow> (let (es, r) = add_dirs add dirs in (AddDir dir # es, r)))"

definition start_watcher ::
  "go_error option \<Rightarrow> (string \<Rightarrow> go_error option) \<Rightarrow> string list \<Rightarrow> setup_effect list \<times> go_error option" where
  "start_watcher new add dirs =
    (case new of
       Some err \<Rightarrow> ([], Some err)
     | None \<Rightarrow>
       (case add_dirs add dirs of
          (es, Some err) \<Rightarrow> (NewWatcher # es, Some err)
        | (es, None) \<Rightarrow> (NewWatcher # es @ [GoLoop], None)))"

text \<open>\<open>config.Watch\<close>: the file has been loaded by \<open>main\<close> before.\<close>

definition Watch_config_setup ::
  "go_error option \<Rightarrow> (string \<Rightarrow> go_error option) \<Rightarrow> string \<Rightarrow> setup_effect list \<times> go_error option" where
  "Watch_config_setup new add path = start_watcher new add [path_Dir path]"

text \<open>\<open>criticalroutes.Watch\<close>.\<close>

definition Watch_routes_setup ::
  "go_error + 'r \<Rightarrow> go_error option \<Rightarrow> (string \<Rightarrow> go_error option) \<Rightarrow> string \<Rightarrow> setup_effect list \<times> (go_error + 'r)" where
  "Watch_routes_setup first new add path =
    (case first of
       Inl err \<Rightarrow> ([LoadFile], Inl err)
     | Inr routes \<Rightarrow>
       (case start_watcher new add [path_Dir path] of
          (es, Some err) \<Rightarrow> (LoadFile # es, Inl err)
        | (es, None) \<Rightarrow> (LoadFile # es, Inr routes)))"

text \<open>\<open>watchCert\<close>: the directories are the keys of a map, in either order.\<close>

definition cert_dirs :: "bool \<Rightarrow> string \<Rightarrow> string \<Rightarrow> string list" where
  "cert_dirs key_first certPath keyPath =
    (let c = path_Dir certPath; k = path_Dir keyPath in if c = k then [c] else if key_first then [k, c] else [c, k])"

definition watchCert_setup ::
  "go_error + 'x \<Rightarrow> go_error option \<Rightarrow> (string \<Rightarrow> go_error option) \<Rightarrow> bool \<Rightarrow> string \<Rightarrow> string \<Rightarrow>
   setup_effect list \<times> (go_error + 'x)" where
  "watchCert_setup first new add key_first certPath keyPath =
    (case first of
       Inl err \<Rightarrow> ([LoadFile], Inl err)
     | Inr cert \<Rightarrow>
       (case start_watcher new add (cert_dirs key_first certPath keyPath) of
          (es, Some err) \<Rightarrow> (LoadFile # es, Inl err)
        | (es, None) \<Rightarrow> (LoadFile # es, Inr cert)))"

section \<open>TLS configurations\<close>

datatype client_auth = NoClientCert | VerifyClientCertIfGiven | RequireAndVerifyClientCert

text \<open>\<open>tls.Config\<close>: the certificate a callback reads, and the authorities.\<close>

record ('x, 'p) tls_config =
  tc_GetCertificate :: "'x option"
  tc_GetClientCertificate :: "'x option"
  tc_ClientCAs :: "'p list"
  tc_RootCAs :: "'p list"
  tc_ClientAuth :: client_auth

text \<open>\<open>reloadableCert\<close>'s callbacks, on the current value.\<close>

definition GetCertificate :: "'x \<Rightarrow> go_error + 'x" where
  "GetCertificate current = Inr current"

definition GetClientCertificate :: "'x \<Rightarrow> go_error + 'x" where
  "GetClientCertificate current = Inr current"

text \<open>
  The part of \<open>Load\<close> the two packages share: the watched pair, then the CA pool; an error after the
  watcher runs stops it.  \<open>AppendCertsFromPEM\<close> gives the certificates it finds.
\<close>

definition load_pair_and_pool ::
  "string \<Rightarrow> setup_effect list \<times> (go_error + 'x) \<Rightarrow> (string \<Rightarrow> go_error + string) \<Rightarrow> (string \<Rightarrow> 'p list) \<Rightarrow> string \<Rightarrow>
   setup_effect list \<times> (go_error + 'x \<times> 'p list)" where
  "load_pair_and_pool side watched ReadFile AppendCertsFromPEM caPath =
    (case watched of
       (es, Inl err) \<Rightarrow> (es, Inl (''loading '' @ side @ '' cert/key: '' @ err))
     | (es, Inr cert) \<Rightarrow>
       (case ReadFile caPath of
          Inl err \<Rightarrow> (es @ [CallStop], Inl (''reading CA cert: '' @ err))
        | Inr caData \<Rightarrow>
          (let pool = AppendCertsFromPEM caData
           in if pool = [] then (es @ [CallStop], Inl (''no valid certificates found in CA file '' @ caPath))
              else (es, Inr (cert, pool)))))"

definition core_tls_Load ::
  "setup_effect list \<times> (go_error + 'x) \<Rightarrow> (string \<Rightarrow> go_error + string) \<Rightarrow> (string \<Rightarrow> 'p list) \<Rightarrow> string \<Rightarrow>
   setup_effect list \<times> (go_error + ('x, 'p) tls_config)" where
  "core_tls_Load watched ReadFile AppendCertsFromPEM caPath =
    (case load_pair_and_pool ''server'' watched ReadFile AppendCertsFromPEM caPath of
       (es, Inl err) \<Rightarrow> (es, Inl err)
     | (es, Inr (cert, pool)) \<Rightarrow>
       (es, Inr \<lparr>tc_GetCertificate = Some cert, tc_GetClientCertificate = None, tc_ClientCAs = pool,
         tc_RootCAs = [], tc_ClientAuth = RequireAndVerifyClientCert\<rparr>))"

definition sidecar_tls_Load ::
  "setup_effect list \<times> (go_error + 'x) \<Rightarrow> (string \<Rightarrow> go_error + string) \<Rightarrow> (string \<Rightarrow> 'p list) \<Rightarrow> string \<Rightarrow>
   setup_effect list \<times> (go_error + ('x, 'p) tls_config)" where
  "sidecar_tls_Load watched ReadFile AppendCertsFromPEM caPath =
    (case load_pair_and_pool ''client'' watched ReadFile AppendCertsFromPEM caPath of
       (es, Inl err) \<Rightarrow> (es, Inl err)
     | (es, Inr (cert, pool)) \<Rightarrow>
       (es, Inr \<lparr>tc_GetCertificate = None, tc_GetClientCertificate = Some cert, tc_ClientCAs = [],
         tc_RootCAs = pool, tc_ClientAuth = NoClientCert\<rparr>))"

text \<open>The second listener of core in permissive mode asks for a certificate and does without.\<close>

definition permissive_config :: "('x, 'p) tls_config \<Rightarrow> ('x, 'p) tls_config" where
  "permissive_config conf = conf\<lparr>tc_ClientAuth := VerifyClientCertIfGiven\<rparr>"

section \<open>No watcher is left behind\<close>

text \<open>The watchers and the loops a set-up leaves: \<open>stop\<close> makes the loop close its watcher and return.\<close>

fun left_open :: "setup_effect list \<Rightarrow> int" where
  "left_open [] = 0"
| "left_open (e # es) =
    (case e of NewWatcher \<Rightarrow> 1 | CloseWatcher \<Rightarrow> -1 | CallStop \<Rightarrow> -1 | _ \<Rightarrow> 0) + left_open es"

fun left_running :: "setup_effect list \<Rightarrow> int" where
  "left_running [] = 0"
| "left_running (e # es) = (case e of GoLoop \<Rightarrow> 1 | CallStop \<Rightarrow> -1 | _ \<Rightarrow> 0) + left_running es"

definition leaves :: "int \<Rightarrow> setup_effect list \<Rightarrow> bool" where
  "leaves n es \<longleftrightarrow> left_open es = n \<and> left_running es = n"

lemma left_append:
  "left_open (xs @ ys) = left_open xs + left_open ys" "left_running (xs @ ys) = left_running xs + left_running ys"
  by (induction xs) auto

lemma add_dirs_leaves:
  "add_dirs add dirs = (es, r) \<Longrightarrow> left_open es = (if r = None then 0 else -1) \<and> left_running es = 0"
proof (induction dirs arbitrary: es r)
  case (Cons d dirs)
  then show ?case
    by (cases "add d"; cases "add_dirs add dirs") (auto split: if_splits)
qed auto

lemma start_watcher_leaves:
  "start_watcher new add dirs = (es, r) \<Longrightarrow> leaves (if r = None then 1 else 0) es"
  using add_dirs_leaves[of add dirs]
  by (cases "add_dirs add dirs")
    (auto simp: start_watcher_def leaves_def left_append split: option.splits)

lemma leaves_LoadFile [simp]: "leaves n (LoadFile # es) = leaves n es"
  by (simp add: leaves_def)

lemma watchCert_setup_leaves:
  "watchCert_setup first new add key_first certPath keyPath = (es, r) \<Longrightarrow> leaves (if isl r then 0 else 1) es"
  using start_watcher_leaves[of new add "cert_dirs key_first certPath keyPath"]
  by (cases "start_watcher new add (cert_dirs key_first certPath keyPath)")
    (auto simp: watchCert_setup_def leaves_def split: sum.splits option.splits)

lemma Watch_routes_setup_leaves:
  "Watch_routes_setup first new add path = (es, r) \<Longrightarrow> leaves (if isl r then 0 else 1) es"
  using start_watcher_leaves[of new add "[path_Dir path]"]
  by (cases "start_watcher new add [path_Dir path]")
    (auto simp: Watch_routes_setup_def leaves_def split: sum.splits option.splits)

lemma load_pair_and_pool_leaves:
  assumes "load_pair_and_pool side watched ReadFile Append caPath = (es, r)"
    "leaves (if isl (snd watched) then 0 else 1) (fst watched)"
  shows "leaves (if isl r then 0 else 1) es"
  using assms
  by (auto simp: load_pair_and_pool_def leaves_def left_append Let_def split: sum.splits prod.splits if_splits)

text \<open>
  Loading the certificates of either service leaves nothing running behind an error: whatever fails,
  the pair, the watcher, a directory, the CA file or its content, every file watcher that was opened
  has been closed or its goroutine told to stop.  A load that succeeds leaves exactly one watcher and
  one goroutine, presents the pair that was read, in the role of the service, and verifies against a
  pool that is not empty; core requires a certificate of its client.
\<close>

theorem failed_load_leaves_no_watcher:
  "(case core_tls_Load (watchCert_setup first new add key_first certPath keyPath) ReadFile Append caPath of
      (es, Inl err) \<Rightarrow> leaves 0 es
    | (es, Inr conf) \<Rightarrow> leaves 1 es \<and> (\<exists>cert caData. first = Inr cert \<and> ReadFile caPath = Inr caData \<and> Append caData \<noteq> [] \<and>
        conf = \<lparr>tc_GetCertificate = Some cert, tc_GetClientCertificate = None, tc_ClientCAs = Append caData, tc_RootCAs = [],
          tc_ClientAuth = RequireAndVerifyClientCert\<rparr>)) \<and>
   (case sidecar_tls_Load (watchCert_setup first new add key_first certPath keyPath) ReadFile Append caPath of
      (es, Inl err) \<Rightarrow> leaves 0 es
    | (es, Inr conf) \<Rightarrow> leaves 1 es \<and> (\<exists>cert caData. first = Inr cert \<and> ReadFile caPath = Inr caData \<and> Append caData \<noteq> [] \<and>
        conf = \<lparr>tc_GetCertificate = None, tc_GetClientCertificate = Some cert, tc_ClientCAs = [], tc_RootCAs = Append caData,
          tc_ClientAuth = NoClientCert\<rparr>))"
proof -
  obtain es r where w: "watchCert_setup first new add key_first certPath keyPath = (es, r)" by fastforce
  have loaded: "leaves (if isl x then 0 else 1) fs"
    and ok: "\<And>cert pool. x = Inr (cert, pool) \<Longrightarrow>
      first = Inr cert \<and> (\<exists>caData. ReadFile caPath = Inr caData \<and> Append caData = pool \<and> pool \<noteq> [])"
    if "load_pair_and_pool side (es, r) ReadFile Append caPath = (fs, x)" for side fs x
  proof -
    show "leaves (if isl x then 0 else 1) fs"
      using load_pair_and_pool_leaves[OF that] watchCert_setup_leaves[OF w] by simp
    show "first = Inr cert \<and> (\<exists>caData. ReadFile caPath = Inr caData \<and> Append caData = pool \<and> pool \<noteq> [])"
      if "x = Inr (cert, pool)" for cert pool
      using that \<open>load_pair_and_pool side (es, r) ReadFile Append caPath = (fs, x)\<close> w
      by (auto simp: load_pair_and_pool_def watchCert_setup_def Let_def split: sum.splits if_splits prod.splits option.splits)
  qed
  obtain fs x where x: "load_pair_and_pool ''server'' (es, r) ReadFile Append caPath = (fs, x)" by fastforce
  obtain gs y where y: "load_pair_and_pool ''client'' (es, r) ReadFile Append caPath = (gs, y)" by fastforce
  note fx = loaded[OF x] ok[OF x] and fy = loaded[OF y] ok[OF y]
  show ?thesis unfolding w core_tls_Load_def sidecar_tls_Load_def x y
  proof (intro conjI)
    show "case case (fs, x) of (es, Inl err) \<Rightarrow> (es, Inl err)
        | (es, Inr (cert, pool)) \<Rightarrow> (es, Inr \<lparr>tc_GetCertificate = Some cert, tc_GetClientCertificate = None,
            tc_ClientCAs = pool, tc_RootCAs = [], tc_ClientAuth = RequireAndVerifyClientCert\<rparr>)
      of (es, Inl err) \<Rightarrow> leaves 0 es
      | (es, Inr conf) \<Rightarrow> leaves 1 es \<and> (\<exists>cert caData. first = Inr cert \<and> ReadFile caPath = Inr caData \<and> Append caData \<noteq> [] \<and>
          conf = \<lparr>tc_GetCertificate = Some cert, tc_GetClientCertificate = None, tc_ClientCAs = Append caData, tc_RootCAs = [],
            tc_ClientAuth = RequireAndVerifyClientCert\<rparr>)"
      using fx by (cases x) (auto split: prod.split)
    show "case case (gs, y) of (es, Inl err) \<Rightarrow> (es, Inl err)
        | (es, Inr (cert, pool)) \<Rightarrow> (es, Inr \<lparr>tc_GetCertificate = None, tc_GetClientCertificate = Some cert,
            tc_ClientCAs = [], tc_RootCAs = pool, tc_ClientAuth = NoClientCert\<rparr>)
      of (es, Inl err) \<Rightarrow> leaves 0 es
      | (es, Inr conf) \<Rightarrow> leaves 1 es \<and> (\<exists>cert caData. first = Inr cert \<and> ReadFile caPath = Inr caData \<and> Append caData \<noteq> [] \<and>
          conf = \<lparr>tc_GetCertificate = None, tc_GetClientCertificate = Some cert, tc_ClientCAs = [], tc_RootCAs = Append caData,
            tc_ClientAuth = NoClientCert\<rparr>)"
      using fy by (cases y) (auto split: prod.split)
  qed
qed

end
