(* ===== verification/CertProps.thy ===== *)
theory CertProps
  imports Certificates ConfigProps
begin

text \<open>
  Properties of the transport of core: which clients its listeners admit in each TLS mode; and what the
  watchers of files do not see.
\<close>

section \<open>Who may connect\<close>

text \<open>How strict a listener is: each admits fewer peers than the ones before it.\<close>

fun strictness :: "security \<Rightarrow> nat" where
  "strictness Plaintext = 0"
| "strictness OptionalClientCert = 1"
| "strictness MutualTLS = 2"

instantiation security :: linorder
begin

definition less_eq_security :: "security \<Rightarrow> security \<Rightarrow> bool" where
  "less_eq_security a b \<longleftrightarrow> strictness a \<le> strictness b"

definition less_security :: "security \<Rightarrow> security \<Rightarrow> bool" where
  "less_security a b \<longleftrightarrow> strictness a < strictness b"

instance
proof
  show "x = y" if "x \<le> y" "y \<le> x" for x y :: security
    using that by (cases x; cases y) (simp_all add: less_eq_security_def)
qed (auto simp: less_eq_security_def less_security_def)

end

text \<open>
  \<open>crypto/tls\<close> on the certificate a client presents, if any: \<open>verify\<close> is the verification against the
  pool.  A listener without TLS looks at no certificate.
\<close>

definition handshake :: "('p list \<Rightarrow> 'c \<Rightarrow> bool) \<Rightarrow> ('x, 'p) tls_config \<Rightarrow> 'c option \<Rightarrow> bool" where
  "handshake verify conf presented =
    (case tc_ClientAuth conf of
       NoClientCert \<Rightarrow> True
     | VerifyClientCertIfGiven \<Rightarrow> (case presented of None \<Rightarrow> True | Some c \<Rightarrow> verify (tc_ClientCAs conf) c)
     | RequireAndVerifyClientCert \<Rightarrow> (case presented of None \<Rightarrow> False | Some c \<Rightarrow> verify (tc_ClientCAs conf) c))"

text \<open>The transport credentials of a listener of core, from the configuration \<open>Load\<close> made.\<close>

fun listener_config :: "security \<Rightarrow> ('x, 'p) tls_config \<Rightarrow> ('x, 'p) tls_config option" where
  "listener_config Plaintext conf = None"
| "listener_config OptionalClientCert conf = Some (permissive_config conf)"
| "listener_config MutualTLS conf = Some conf"

definition admits :: "('p list \<Rightarrow> 'c \<Rightarrow> bool) \<Rightarrow> security \<Rightarrow> ('x, 'p) tls_config \<Rightarrow> 'c option \<Rightarrow> bool" where
  "admits verify sec conf presented =
    (case listener_config sec conf of None \<Rightarrow> True | Some c \<Rightarrow> handshake verify c presented)"

lemma stricter_admits_fewer:
  "sec \<le> sec' \<Longrightarrow> tc_ClientAuth conf = RequireAndVerifyClientCert \<Longrightarrow> admits verify sec' conf p \<Longrightarrow> admits verify sec conf p"
  by (cases sec; cases sec')
    (auto simp: admits_def handshake_def permissive_config_def less_eq_security_def split: option.splits)

text \<open>
  C19: Where core is configured with certificates and its TLS mode is strict or not set, every gRPC
  listener refuses a client without a certificate and one whose certificate the CA does not verify.
  In permissive mode a client without a certificate reaches every listener, a wrong certificate is
  refused where TLS is spoken.  A less strict listener admits whatever a stricter one admits.
\<close>

theorem who_reaches_core:
  assumes "core_main load tls_load getenv = Inr cs" "(addr, sec) \<in> set (cs_listeners cs)"
    "core_tls_Load watched ReadFile Append (getenv ''RATECAP_TLS_CA_PATH'') = (es, Inr conf)"
    "getenv ''RATECAP_TLS_CERT_PATH'' \<noteq> ''''"
  shows "(if resolveTLSMode (getenv ''RATECAP_TLS_MODE'') = Inr ''permissive''
     then admits verify sec conf None \<and> (sec \<noteq> Plaintext \<longrightarrow> (admits verify sec conf (Some c) \<longleftrightarrow> verify (tc_ClientCAs conf) c))
     else \<not> admits verify sec conf None \<and> (admits verify sec conf (Some c) \<longleftrightarrow> verify (tc_ClientCAs conf) c)) \<and>
    (\<forall>sec' \<le> sec. \<forall>p. admits verify sec conf p \<longrightarrow> admits verify sec' conf p)"
proof -
  have auth: "tc_ClientAuth conf = RequireAndVerifyClientCert"
    using assms(3) by (auto simp: core_tls_Load_def split: prod.splits sum.splits)
  then have weaker: "\<forall>sec' \<le> sec. \<forall>p. admits verify sec conf p \<longrightarrow> admits verify sec' conf p"
    using stricter_admits_fewer by blast
  obtain tlsMode where m: "resolveTLSMode (getenv ''RATECAP_TLS_MODE'') = Inr tlsMode"
      "cs_listeners cs = core_listeners getenv tlsMode"
    using core_main_starts[OF assms(1)] by metis
  show ?thesis
  proof (cases "tlsMode = ''permissive''")
    case True
    then have "sec = Plaintext \<or> sec = OptionalClientCert"
      using assms(2) m(2) by (auto simp: core_listeners_def Let_def)
    then show ?thesis using weaker m(1) True by (auto simp: admits_def handshake_def permissive_config_def)
  next
    case False
    then have "sec = MutualTLS" using assms(2,4) m(2) by (auto simp: core_listeners_def Let_def)
    then show ?thesis using weaker m(1) False auth by (simp add: admits_def handshake_def)
  qed
qed

definition certified_getenv :: "string \<Rightarrow> string \<Rightarrow> string" where
  "certified_getenv mode v =
    (if v = ''RATECAP_SHARED_SECRET'' then ''s'' else if v = ''RATECAP_CONCURRENCY_SIGNING_KEY'' then ''k''
     else if v = ''RATECAP_TLS_MODE'' then mode
     else if v \<in> {''RATECAP_TLS_CERT_PATH'', ''RATECAP_TLS_KEY_PATH'', ''RATECAP_TLS_CA_PATH''} then ''/etc/x.pem'' else '''')"

lemma core_main_certified:
  assumes "Validate cfg = None" "mode \<in> {'''', ''permissive'', ''strict''}"
  shows "\<exists>cs. core_main (\<lambda>p. Inr cfg) (\<lambda>c k a. None) (certified_getenv mode) = Inr cs \<and>
    cs_listeners cs = core_listeners (certified_getenv mode) (if mode = '''' then ''off'' else mode)"
  using assms by (auto simp: core_main_def Let_def certified_getenv_def resolveTLSMode_def EnvVarsPartiallySet_iff)

definition demo_pool :: "setup_effect list \<times> (go_error + (string, string) tls_config)" where
  "demo_pool = core_tls_Load (watchCert_setup (Inr ''cert'') None (\<lambda>_. None) False ''/c/tls.crt'' ''/c/tls.key'')
     (\<lambda>_. Inr ''pem'') (\<lambda>d. [d]) ''/etc/x.pem''"

theorem who_reaches_core_witness:
  "\<exists>cs conf. core_main (\<lambda>p. Inr demo_cfg) (\<lambda>c k a. None) (certified_getenv ''strict'') = Inr cs \<and>
    demo_pool = ([LoadFile, NewWatcher, AddDir ''/c'', GoLoop], Inr conf) \<and>
    \<not> admits (\<lambda>pool c. c \<in> set pool) MutualTLS conf None \<and> admits (\<lambda>pool c. c \<in> set pool) MutualTLS conf (Some ''pem'')"
proof -
  obtain cs where cs: "core_main (\<lambda>p. Inr demo_cfg) (\<lambda>c k a. None) (certified_getenv ''strict'') = Inr cs"
      "cs_listeners cs = core_listeners (certified_getenv ''strict'') ''strict''"
    using core_main_certified[OF demo_cfg_valid, of "''strict''"] by auto
  have addr: "('':9090'', MutualTLS) \<in> set (cs_listeners cs)"
    by (simp add: cs(2) core_listeners_def certified_getenv_def or_default_def)
  have dir: "path_Dir ''/c/tls.crt'' = ''/c''" "path_Dir ''/c/tls.key'' = ''/c''"
    by (simp_all add: path_Dir_def path_Clean_def HasPrefix_def)
  obtain conf :: "(string, string) tls_config" where
    d: "demo_pool = ([LoadFile, NewWatcher, AddDir ''/c'', GoLoop], Inr conf)" and pool: "tc_ClientCAs conf = [''pem'']"
    by (simp add: demo_pool_def watchCert_setup_def start_watcher_def cert_dirs_def core_tls_Load_def load_pair_and_pool_def dir)
  have load: "core_tls_Load (watchCert_setup (Inr ''cert'') None (\<lambda>_. None) False ''/c/tls.crt'' ''/c/tls.key'')
      (\<lambda>_. Inr ''pem'') (\<lambda>d. [d]) (certified_getenv ''strict'' ''RATECAP_TLS_CA_PATH'') =
    ([LoadFile, NewWatcher, AddDir ''/c'', GoLoop], Inr conf)"
    using d by (simp add: demo_pool_def certified_getenv_def)
  have "\<not> admits (\<lambda>pool c. c \<in> set pool) MutualTLS conf None \<and>
      admits (\<lambda>pool c. c \<in> set pool) MutualTLS conf (Some ''pem'')"
    using who_reaches_core[OF cs(1) addr load, of "\<lambda>pool c. c \<in> set pool" "''pem''"] pool
    by (simp add: certified_getenv_def resolveTLSMode_def)
  then show ?thesis using cs(1) d by blast
qed

section \<open>Events under other names\<close>

text \<open>
  A volume whose files are symbolic links is updated by renaming the directory they lead to: the
  events have that directory's name, none has the name of the file, and nothing is loaded again.
\<close>

lemma foreign_events_pend_nothing:
  "\<forall>t n ops. FsEvent t n ops \<in> set es \<longrightarrow> n \<noteq> path \<Longrightarrow> pending path es None = None"
proof (induction es)
  case (Cons e es)
  then show ?case by (cases e) (auto simp: relevant_def)
qed simp

theorem foreign_events_reload_nothing:
  assumes "watch_run path upd es (watch_start t0 c) = Some w" "\<forall>t n ops. FsEvent t n ops \<in> set es \<longrightarrow> n \<noteq> path"
  shows "wt_value w = c"
proof -
  have "loads es = []" using assms
  proof (induction es arbitrary: w rule: rev_induct)
    case (snoc e es)
    obtain w1 where w1: "watch_run path upd es (watch_start t0 c) = Some w1" "watch_step path upd e w1 = Some w"
      using snoc.prems(1) by (auto simp: watch_run_append split: option.splits)
    have "loads es = []" using snoc.IH[OF w1(1)] snoc.prems(2) by auto
    moreover have "pending path es None = None"
      using snoc.prems(2) by (intro foreign_events_pend_nothing) auto
    moreover have "timer_ok None w1" using timer_ok_run[OF w1(1) timer_ok_start] calculation(2) by simp
    ultimately show ?case using w1(2) by (cases e) (auto simp: loads_append timer_ok_def split: if_splits)
  qed simp
  then show ?thesis using watch_run_value[OF assms(1)] by (simp add: watch_start_def)
qed

theorem foreign_events_reload_no_certificate:
  "\<forall>n r. CertFsEvent n r \<in> set es \<longrightarrow> n \<noteq> certPath \<and> n \<noteq> keyPath \<Longrightarrow> watchCert_loop certPath keyPath es current = current"
  by (induction certPath keyPath es current rule: watchCert_loop.induct) auto

end
