(* ===== verification/NetAddr.thy ===== *)
theory NetAddr
  imports GoStrings
begin

text \<open>
  What the services use of Go's package \<open>net\<close>: \<open>SplitHostPort\<close>, \<open>ParseIP\<close> and \<open>IP.IsLoopback\<close>.  An address
  is the list of its sixteen bytes, an IPv4 address in the form mapped into IPv6.
\<close>

section \<open>Hosts and ports\<close>

definition before_last :: "string \<Rightarrow> char \<Rightarrow> string" where
  "before_last s sep = rev (tl (dropWhile (\<lambda>c. c \<noteq> sep) (rev s)))"

lemma before_last_append: "sep \<notin> set v \<Longrightarrow> before_last (u @ sep # v) sep = u"
proof -
  assume "sep \<notin> set v"
  then have "dropWhile (\<lambda>c. c \<noteq> sep) (rev v @ sep # rev u) = sep # rev u"
    by (subst dropWhile_append2) auto
  then show ?thesis by (simp add: before_last_def)
qed

text \<open>\<open>None\<close> is an error: a missing port, too many colons or misplaced brackets.\<close>

definition SplitHostPort :: "string \<Rightarrow> (string \<times> string) option" where
  "SplitHostPort hostport =
    (case after_last hostport CHR '':'' of
       None \<Rightarrow> None
     | Some port \<Rightarrow>
       if hd hostport = CHR ''['' then
         (case Cut (tl hostport) CHR '']'' of
            (host, rest, found) \<Rightarrow>
              if \<not> found \<or> rest \<noteq> CHR '':'' # port then None
              else if CHR ''['' \<in> set (tl hostport) \<or> CHR '']'' \<in> set rest then None
              else Some (host, port))
       else if CHR '':'' \<in> set (before_last hostport CHR '':'') then None
       else if CHR ''['' \<in> set hostport \<or> CHR '']'' \<in> set hostport then None
       else Some (before_last hostport CHR '':'', port))"

lemma SplitHostPort_plain:
  assumes "CHR '':'' \<notin> set h" "CHR '':'' \<notin> set p" "CHR ''['' \<notin> set (h @ p)" "CHR '']'' \<notin> set (h @ p)"
  shows "SplitHostPort (h @ CHR '':'' # p) = Some (h, p)"
proof -
  have "hd (h @ CHR '':'' # p) \<noteq> CHR ''[''" using assms(3) by (cases h) auto
  then show ?thesis using assms after_last_append[OF assms(2)] before_last_append[OF assms(2), of h]
    by (simp add: SplitHostPort_def)
qed

lemma SplitHostPort_bracketed:
  assumes "CHR '':'' \<notin> set p" "CHR ''['' \<notin> set (h @ p)" "CHR '']'' \<notin> set (h @ p)"
  shows "SplitHostPort (CHR ''['' # h @ CHR '']'' # CHR '':'' # p) = Some (h, p)"
proof -
  have "after_last (CHR ''['' # h @ CHR '']'' # CHR '':'' # p) CHR '':'' = Some p"
    using after_last_append[OF assms(1), of "CHR ''['' # h @ [CHR '']'']"] by simp
  then show ?thesis using assms Cut_append[of "CHR '']''" h "CHR '':'' # p"] by (simp add: SplitHostPort_def)
qed

lemma after_last_Some:
  assumes "after_last s sep = Some v"
  obtains u where "s = u @ sep # v" "sep \<notin> set v"
proof -
  have "sep \<in> set s" using assms after_last_None[of s sep] by auto
  then obtain u v' where "s = u @ sep # v'" "sep \<notin> set v'" by (meson split_list_last)
  then show thesis using assms after_last_append[of sep v' u] that by simp
qed

section \<open>IPv4\<close>

text \<open>
  The fields so far, the value of the current one and its number of digits: it has none at the start
  and right after a dot.
\<close>

fun parseIPv4Fields :: "string \<Rightarrow> nat \<Rightarrow> nat \<Rightarrow> nat list \<Rightarrow> nat list option" where
  "parseIPv4Fields [] val digLen fields = (if length fields < 3 then None else Some (fields @ [val]))"
| "parseIPv4Fields (c # cs) val digLen fields =
    (case digit_value c of
       Some d \<Rightarrow>
         if digLen = 1 \<and> val = 0 then None
         else if val * 10 + d > 255 then None
         else parseIPv4Fields cs (val * 10 + d) (digLen + 1) fields
     | None \<Rightarrow>
         if c \<noteq> CHR ''.'' then None
         else if digLen = 0 \<or> cs = [] then None
         else if length fields = 3 then None
         else parseIPv4Fields cs 0 0 (fields @ [val]))"

lemma parseIPv4Fields_chars:
  "parseIPv4Fields s val n fs = Some r \<Longrightarrow> c \<in> set s \<Longrightarrow> c = CHR ''.'' \<or> digit_value c \<noteq> None"
  by (induction s val n fs rule: parseIPv4Fields.induct) (auto split: option.splits if_splits)

section \<open>IPv6\<close>

definition hex_value :: "char \<Rightarrow> nat option" where
  "hex_value c =
    (let n = of_char c :: nat
     in if 48 \<le> n \<and> n \<le> 57 then Some (n - 48)
        else if 97 \<le> n \<and> n \<le> 102 then Some (n - 97 + 10)
        else if 65 \<le> n \<and> n \<le> 70 then Some (n - 65 + 10) else None)"

text \<open>A group of at most four digits: how many they are, its value, and what follows.\<close>

fun hex_group :: "string \<Rightarrow> nat \<Rightarrow> nat \<Rightarrow> (nat \<times> nat \<times> string) option" where
  "hex_group [] off acc = Some (off, acc, [])"
| "hex_group (c # cs) off acc =
    (case hex_value c of
       None \<Rightarrow> Some (off, acc, c # cs)
     | Some d \<Rightarrow> if off > 3 then None else hex_group cs (off + 1) (acc * 16 + d))"

text \<open>
  The loop over the groups, \<open>n\<close> of which still fit: the bytes, the place of the ellipsis, and what is
  left of the string.
\<close>

fun hex_groups :: "nat \<Rightarrow> string \<Rightarrow> nat list \<Rightarrow> nat option \<Rightarrow> (nat list \<times> nat option \<times> string) option" where
  "hex_groups 0 s ip e = Some (ip, e, s)"
| "hex_groups (Suc n) s ip e =
    (case hex_group s 0 0 of
       None \<Rightarrow> None
     | Some (off, acc, rest) \<Rightarrow>
       if off = 0 then None
       else if rest \<noteq> [] \<and> hd rest = CHR ''.'' then
         (if e = None \<and> length ip \<noteq> 12 then None
          else if length ip + 4 > 16 then None
          else (case parseIPv4Fields s 0 0 [] of None \<Rightarrow> None | Some fields \<Rightarrow> Some (ip @ fields, e, [])))
       else
         (let ip = ip @ [acc div 256, acc mod 256] in
          case rest of
            [] \<Rightarrow> Some (ip, e, [])
          | c # s \<Rightarrow>
            if c \<noteq> CHR '':'' then None
            else if s = [] then None
            else if hd s = CHR '':'' then
              (if e \<noteq> None then None
               else if tl s = [] then Some (ip, Some (length ip), [])
               else hex_groups n (tl s) ip (Some (length ip)))
            else hex_groups n s ip e))"

text \<open>A string with a zone is no address for \<open>ParseIP\<close>.\<close>

definition parseIPv6 :: "string \<Rightarrow> nat list option" where
  "parseIPv6 s =
    (if CHR ''%'' \<in> set s then None
     else
       (let leading = HasPrefix s ''::''; rest = (if leading then drop 2 s else s) in
        if leading \<and> rest = [] then Some (replicate 16 0)
        else (case hex_groups 8 rest [] (if leading then Some 0 else None) of
          None \<Rightarrow> None
        | Some (ip, e, left) \<Rightarrow>
          if left \<noteq> [] then None
          else if length ip < 16 then
            (case e of None \<Rightarrow> None
             | Some k \<Rightarrow> Some (take k ip @ replicate (16 - length ip) 0 @ drop k ip))
          else if e \<noteq> None then None else Some ip)))"

section \<open>Addresses\<close>

definition v4_prefix :: "nat list" where
  "v4_prefix = replicate 10 0 @ [255, 255]"

definition ParseIP :: "string \<Rightarrow> nat list option" where
  "ParseIP s =
    (case find (\<lambda>c. c = CHR ''.'' \<or> c = CHR '':'' \<or> c = CHR ''%'') s of
       None \<Rightarrow> None
     | Some c \<Rightarrow>
       if c = CHR ''.'' then map_option (\<lambda>fields. v4_prefix @ fields) (parseIPv4Fields s 0 0 [])
       else if c = CHR '':'' then parseIPv6 s
       else None)"

definition To4 :: "nat list \<Rightarrow> nat list option" where
  "To4 ip = (if take 12 ip = v4_prefix then Some (drop 12 ip) else None)"

definition IsLoopback :: "nat list \<Rightarrow> bool" where
  "IsLoopback ip =
    (case To4 ip of Some ip4 \<Rightarrow> ip4 ! 0 = 127 | None \<Rightarrow> ip = replicate 15 0 @ [1])"

section \<open>What an address is made of\<close>

definition addr_char :: "char \<Rightarrow> bool" where
  "addr_char c \<longleftrightarrow> hex_value c \<noteq> None \<or> c = CHR ''.'' \<or> c = CHR '':''"

lemma digit_is_hex: "digit_value c = Some d \<Longrightarrow> hex_value c = Some d"
  by (simp add: digit_value_def hex_value_def Let_def split: if_splits)

lemma digit_value_bound: "digit_value c = Some d \<Longrightarrow> d < 10"
  by (auto simp: digit_value_def Let_def split: if_splits)

lemma hex_value_bound: "hex_value c = Some d \<Longrightarrow> d < 16"
  by (auto simp: hex_value_def Let_def split: if_splits)

lemma parseIPv4Fields_addr_char:
  "parseIPv4Fields s val n fs = Some r \<Longrightarrow> list_all addr_char s"
  unfolding list_all_iff by (auto simp: addr_char_def dest!: parseIPv4Fields_chars dest: digit_is_hex)

lemma parseIPv4Fields_shape:
  "parseIPv4Fields s val n fs = Some r \<Longrightarrow> length fs \<le> 3 \<Longrightarrow> val < 256 \<Longrightarrow> list_all (\<lambda>b. b < 256) fs \<Longrightarrow>
    length r = 4 \<and> list_all (\<lambda>b. b < 256) r"
  by (induction s val n fs rule: parseIPv4Fields.induct) (auto split: option.splits if_splits)

lemma hex_group_shape:
  "hex_group s off acc = Some (off', acc', rest) \<Longrightarrow> off \<le> 4 \<Longrightarrow> acc < 16 ^ off \<Longrightarrow>
    off' \<le> 4 \<and> acc' < 16 ^ off' \<and> (\<exists>u. s = u @ rest \<and> list_all addr_char u)"
proof (induction s off acc rule: hex_group.induct)
  case (2 c cs off acc)
  show ?case
  proof (cases "hex_value c")
    case (Some d)
    then have d: "d < 16" "addr_char c" by (auto dest: hex_value_bound simp: addr_char_def)
    have run: "\<not> off > 3" "hex_group cs (off + 1) (acc * 16 + d) = Some (off', acc', rest)"
      using 2(2) Some by (auto split: if_splits)
    have "off + 1 \<le> 4" "acc * 16 + d < 16 ^ (off + 1)" using run(1) 2(4) d by simp_all
    then obtain u where "off' \<le> 4" "acc' < 16 ^ off'" "cs = u @ rest" "list_all addr_char u"
      using 2(1)[OF Some run] by blast
    then show ?thesis using d by (intro conjI exI[of _ "c # u"]) simp_all
  qed (use 2 in auto)
qed auto

lemma group_bound: "off \<le> 4 \<Longrightarrow> acc < 16 ^ off \<Longrightarrow> acc div 256 < (256 :: nat)"
proof -
  assume "off \<le> 4" "acc < 16 ^ off"
  moreover have "(16 :: nat) ^ off \<le> 16 ^ 4" using \<open>off \<le> 4\<close> by (intro power_increasing) simp_all
  ultimately show ?thesis by (simp add: div_less_iff_less_mult)
qed

text \<open>One turn of the loop.\<close>

lemma hex_groups_turn:
  assumes "hex_groups (Suc n) s ip e = Some r"
  obtains (embedded) fields where "parseIPv4Fields s 0 0 [] = Some fields" "length ip + 4 \<le> 16" "r = (ip @ fields, e, [])"
  | (ends) off acc where "hex_group s 0 0 = Some (off, acc, [])" "r = (ip @ [acc div 256, acc mod 256], e, [])"
  | (more) off acc t where "hex_group s 0 0 = Some (off, acc, CHR '':'' # t)"
      "hex_groups n t (ip @ [acc div 256, acc mod 256]) e = Some r"
  | (elided) off acc where "hex_group s 0 0 = Some (off, acc, ''::'')"
      "r = (ip @ [acc div 256, acc mod 256], Some (length ip + 2), [])"
  | (ellipsis) off acc t where "hex_group s 0 0 = Some (off, acc, ''::'' @ t)"
      "hex_groups n t (ip @ [acc div 256, acc mod 256]) (Some (length ip + 2)) = Some r"
proof -
  obtain off acc rest where g: "hex_group s 0 0 = Some (off, acc, rest)"
    using assms by (cases "hex_group s 0 0") auto
  have off: "off \<noteq> 0" using assms g by (auto split: if_splits)
  show thesis
  proof (cases "rest \<noteq> [] \<and> hd rest = CHR ''.''")
    case True
    then show ?thesis using assms g off embedded by (auto split: if_splits option.splits)
  next
    case False
    show ?thesis
    proof (cases rest)
      case Nil
      then show ?thesis using assms g off ends by auto
    next
      case (Cons c t)
      then have c: "c = CHR '':''" "t \<noteq> []" using assms g off False by (auto simp: Let_def split: if_splits)
      show ?thesis
      proof (cases "hd t = CHR '':''")
        case True
        then obtain t' where "t = CHR '':'' # t'" using c(2) by (cases t) auto
        then show ?thesis using assms g off Cons c elided ellipsis by (auto simp: Let_def split: if_splits)
      next
        case False
        then show ?thesis using assms g off Cons c more by (auto simp: Let_def split: if_splits)
      qed
    qed
  qed
qed

lemma addr_char_colon: "addr_char CHR '':''"
  by (simp add: addr_char_def)

lemma hex_group_u:
  assumes "hex_group s 0 0 = Some (off, acc, rest)"
  obtains u where "s = u @ rest" "list_all addr_char u" "acc div 256 < 256"
  using hex_group_shape[OF assms] group_bound by auto

definition groups_ok :: "nat list \<Rightarrow> nat option \<Rightarrow> bool" where
  "groups_ok ip e \<longleftrightarrow> list_all (\<lambda>b. b < 256) ip \<and> (\<forall>k. e = Some k \<longrightarrow> k \<le> length ip)"

lemma groups_ok_append:
  "groups_ok ip e \<Longrightarrow> acc div 256 < 256 \<Longrightarrow> groups_ok (ip @ [acc div 256, acc mod 256]) e"
  "groups_ok ip e \<Longrightarrow> acc div 256 < 256 \<Longrightarrow> groups_ok (ip @ [acc div 256, acc mod 256]) (Some (length ip + 2))"
  by (auto simp: groups_ok_def)

lemma hex_groups_shape:
  "hex_groups n s ip e = Some (ip', e', left) \<Longrightarrow> length ip + 2 * n \<le> 16 \<Longrightarrow> groups_ok ip e \<Longrightarrow>
    length ip' \<le> 16 \<and> groups_ok ip' e' \<and> (\<exists>u. s = u @ left \<and> list_all addr_char u)"
proof (induction n arbitrary: s ip e)
  case (Suc n)
  note ih = Suc.IH and ok = groups_ok_append[OF Suc.prems(3)]
  have len: "length (ip @ [a, b]) + 2 * n \<le> 16" for a b :: nat using Suc.prems(2) by simp
  from Suc.prems(1) show ?case
  proof (cases rule: hex_groups_turn)
    case (embedded fields)
    then show ?thesis
      using parseIPv4Fields_shape[OF embedded(1)] parseIPv4Fields_addr_char[OF embedded(1)] Suc.prems(3)
      by (auto simp: groups_ok_def)
  next
    case (ends off acc)
    then show ?thesis using hex_group_u[OF ends(1)] ok len by auto
  next
    case (more off acc t)
    obtain u where u: "s = u @ CHR '':'' # t" "list_all addr_char u" "acc div 256 < 256"
      by (rule hex_group_u[OF more(1)])
    obtain v where "length ip' \<le> 16" "groups_ok ip' e'" "t = v @ left" "list_all addr_char v"
      using ih[OF more(2) len ok(1)[OF u(3)]] by blast
    then show ?thesis using u by (intro conjI exI[of _ "u @ CHR '':'' # v"]) (simp_all add: addr_char_colon)
  next
    case (elided off acc)
    obtain u where u: "s = u @ ''::''" "list_all addr_char u" "acc div 256 < 256"
      by (rule hex_group_u[OF elided(1)])
    then show ?thesis using elided(2) ok(2)[OF u(3)] len by (simp add: addr_char_colon)
  next
    case (ellipsis off acc t)
    obtain u where u: "s = u @ ''::'' @ t" "list_all addr_char u" "acc div 256 < 256"
      by (rule hex_group_u[OF ellipsis(1)])
    obtain v where "length ip' \<le> 16" "groups_ok ip' e'" "t = v @ left" "list_all addr_char v"
      using ih[OF ellipsis(2) len ok(2)[OF u(3)]] by blast
    then show ?thesis using u by (intro conjI exI[of _ "u @ ''::'' @ v"]) (simp_all add: addr_char_colon)
  qed
qed auto

lemma parseIPv6_shape:
  assumes "parseIPv6 s = Some ip"
  shows "length ip = 16 \<and> list_all (\<lambda>b. b < 256) ip \<and> list_all addr_char s"
proof (cases "s = ''::''")
  case True
  then show ?thesis using assms by (auto simp: parseIPv6_def HasPrefix_def addr_char_def list_all_iff)
next
  case False
  define leading where "leading = HasPrefix s ''::''"
  define rest where "rest = (if leading then drop 2 s else s)"
  have "''::'' @ drop 2 s = s" if "take 2 s = ''::''"
    using append_take_drop_id[of 2 s] unfolding that .
  then have s: "s = (if leading then ''::'' @ rest else rest)"
    by (simp add: rest_def leading_def HasPrefix_def numeral_2_eq_2)
  then have "\<not> (leading \<and> rest = [])" using False by (cases leading) simp_all
  then have run: "(case hex_groups 8 rest [] (if leading then Some 0 else None) of None \<Rightarrow> None
      | Some (ip, e, left) \<Rightarrow>
          if left \<noteq> [] then None
          else if length ip < 16 then
            (case e of None \<Rightarrow> None | Some k \<Rightarrow> Some (take k ip @ replicate (16 - length ip) 0 @ drop k ip))
          else if e \<noteq> None then None else Some ip) = Some ip"
    using assms unfolding parseIPv6_def Let_def leading_def[symmetric] rest_def[symmetric] by (simp split: if_split_asm)
  obtain ip1 e1 where g: "hex_groups 8 rest [] (if leading then Some 0 else None) = Some (ip1, e1, [])"
    using run by (simp split: option.split_asm prod.split_asm if_split_asm)
  have ip: "ip = (if length ip1 < 16 then take (the e1) ip1 @ replicate (16 - length ip1) 0 @ drop (the e1) ip1 else ip1)"
    and e: "length ip1 < 16 \<longrightarrow> e1 \<noteq> None"
    using run unfolding g by (simp_all split: option.split_asm if_split_asm)
  have "length ip1 \<le> 16" "groups_ok ip1 e1" "list_all addr_char rest"
    using hex_groups_shape[OF g] by (auto simp: groups_ok_def)
  moreover have "list_all addr_char (''::'' @ rest)" using calculation(3) by (simp add: addr_char_colon)
  moreover have "list_all addr_char s" using calculation(3,4) s by (cases leading) simp_all
  ultimately show ?thesis using ip e by (auto simp: groups_ok_def list_all_iff dest: in_set_takeD in_set_dropD)
qed

lemma ParseIP_shape:
  assumes "ParseIP s = Some ip"
  shows "length ip = 16 \<and> list_all (\<lambda>b. b < 256) ip \<and> list_all addr_char s"
  using assms parseIPv4Fields_shape[of s 0 0 "[]"] parseIPv4Fields_addr_char[of s 0 0 "[]"] parseIPv6_shape[of s ip]
  by (auto simp: ParseIP_def v4_prefix_def split: option.splits if_splits) (simp_all add: list_all_iff)

section \<open>Dotted quads\<close>

definition quad :: "nat \<Rightarrow> nat \<Rightarrow> nat \<Rightarrow> nat \<Rightarrow> string" where
  "quad a b c d = digits a @ ''.'' @ digits b @ ''.'' @ digits c @ ''.'' @ digits d"

lemma digits_byte:
  assumes "n < 256"
  obtains (one) "digits n = [digit_char n]" "n < 10"
  | (two) "digits n = [digit_char (n div 10), digit_char (n mod 10)]" "10 \<le> n" "n < 100"
  | (three) "digits n = [digit_char (n div 100), digit_char (n div 10 mod 10), digit_char (n mod 10)]" "100 \<le> n"
proof (cases "n < 10")
  case True
  then show ?thesis using digits.simps[of n] one by simp
next
  case ten: False
  show ?thesis
  proof (cases "n < 100")
    case True
    then have "digits (n div 10) = [digit_char (n div 10)]" using digits.simps[of "n div 10"] by simp
    then show ?thesis using digits.simps[of n] ten True two by simp
  next
    case False
    have "digits (n div 100) = [digit_char (n div 100)]" using digits.simps[of "n div 100"] assms by simp
    then have "digits (n div 10) = [digit_char (n div 100), digit_char (n div 10 mod 10)]"
      using digits.simps[of "n div 10"] False by (simp add: div_mult2_eq[symmetric])
    then show ?thesis using digits.simps[of n] ten False three by simp
  qed
qed

lemma parseIPv4Fields_digits:
  assumes "n < 256"
  shows "\<exists>k > 0. parseIPv4Fields (digits n @ cs) 0 0 fs = parseIPv4Fields cs n k fs"
  using assms
proof (cases rule: digits_byte)
  case one
  then show ?thesis using assms by (intro exI[of _ 1]) simp
next
  case two
  have "n div 10 < 10" "n div 10 \<noteq> 0" "n div 10 \<le> 255" using two(2,3) assms by auto
  then show ?thesis using two assms by (intro exI[of _ 2]) (simp add: numeral_2_eq_2)
next
  case three
  have "n div 100 * 10 + n div 10 mod 10 = n div 10" using div_mult_mod_eq[of "n div 10" 10] by (simp add: div_mult2_eq[symmetric])
  moreover have "n div 10 * 10 + n mod 10 = n" by simp
  moreover have "n div 100 < 10" "n div 100 \<noteq> 0" "n div 10 \<le> 255" using three(2) assms by auto
  ultimately show ?thesis using three assms by (intro exI[of _ 3]) (simp add: numeral_3_eq_3)
qed

lemma digit_value_dot: "digit_value CHR ''.'' = None"
  by (simp add: digit_value_def)

lemma parseIPv4Fields_dot:
  assumes "n < 256" "length fs \<noteq> 3" "cs \<noteq> []"
  shows "parseIPv4Fields (digits n @ CHR ''.'' # cs) 0 0 fs = parseIPv4Fields cs 0 0 (fs @ [n])"
proof -
  obtain k where "k > 0" "parseIPv4Fields (digits n @ CHR ''.'' # cs) 0 0 fs = parseIPv4Fields (CHR ''.'' # cs) n k fs"
    using parseIPv4Fields_digits[OF assms(1)] by blast
  then show ?thesis using assms by (simp add: digit_value_dot)
qed

lemma parseIPv4Fields_quad:
  assumes "a < 256" "b < 256" "c < 256" "d < 256"
  shows "parseIPv4Fields (quad a b c d) 0 0 [] = Some [a, b, c, d]"
proof -
  obtain k where "parseIPv4Fields (digits d @ []) 0 0 [a, b, c] = parseIPv4Fields [] d k [a, b, c]"
    using parseIPv4Fields_digits[OF assms(4)] by blast
  then show ?thesis using assms by (simp add: quad_def parseIPv4Fields_dot)
qed

lemma find_past: "\<forall>x \<in> set xs. \<not> P x \<Longrightarrow> P y \<Longrightarrow> find P (xs @ y # ys) = Some y"
  by (induction xs) auto

lemma digits_no_punct: "c \<in> set (digits n) \<Longrightarrow> digit_value c \<noteq> None"
  by (auto dest!: digits_all)

lemma quad_chars: "c \<in> set (quad a b c' d) \<Longrightarrow> c = CHR ''.'' \<or> digit_value c \<noteq> None"
  by (auto simp: quad_def dest: digits_no_punct)

lemma ParseIP_quad:
  assumes "a < 256" "b < 256" "c < 256" "d < 256"
  shows "ParseIP (quad a b c d) = Some (v4_prefix @ [a, b, c, d])"
proof -
  let ?P = "\<lambda>c. c = CHR ''.'' \<or> c = CHR '':'' \<or> c = CHR ''%''"
  have "\<not> ?P x" if "x \<in> set (digits a)" for x
    using digits_no_punct[OF that] by (auto simp: digit_value_def)
  then have "find ?P (digits a @ CHR ''.'' # s) = Some CHR ''.''" for s by (simp add: find_past)
  then show ?thesis using parseIPv4Fields_quad[OF assms] by (simp add: ParseIP_def quad_def)
qed

lemma IsLoopback_quad: "IsLoopback (v4_prefix @ [a, b, c, d]) \<longleftrightarrow> a = 127"
  by (simp add: IsLoopback_def To4_def v4_prefix_def)

text \<open>Nothing else is an IPv4 address: a number with a leading zero is none.\<close>

definition dotted :: "nat list \<Rightarrow> string" where
  "dotted fs = concat (map (\<lambda>f. digits f @ ''.'') fs)"

lemma digit_char_value: "digit_value c = Some d \<Longrightarrow> digit_char d = c"
  by (auto simp: digit_value_def digit_char_def Let_def split: if_splits)

lemma digits_snoc: "n \<noteq> 0 \<Longrightarrow> d < 10 \<Longrightarrow> digits (n * 10 + d) = digits n @ [digit_char d]"
  by (subst digits.simps) simp

lemma digits_less_10: "d < 10 \<Longrightarrow> digits d = [digit_char d]"
  by (subst digits.simps) simp

lemma parseIPv4Fields_unique:
  "parseIPv4Fields s val k fs = Some r \<Longrightarrow> (k = 0 \<longrightarrow> val = 0) \<Longrightarrow> (val = 0 \<longrightarrow> k \<le> 1) \<Longrightarrow> (k = 0 \<longrightarrow> s \<noteq> [] \<or> fs = []) \<Longrightarrow>
    dotted fs @ (if k = 0 then [] else digits val) @ s @ ''.'' = dotted r"
proof (induction s val k fs rule: parseIPv4Fields.induct)
  case (1 val k fs)
  then show ?case by (auto simp: dotted_def split: if_splits)
next
  case (2 c cs val k fs)
  show ?case
  proof (cases "digit_value c")
    case None
    then have c: "c = CHR ''.''" "k \<noteq> 0" "cs \<noteq> []" "parseIPv4Fields cs 0 0 (fs @ [val]) = Some r" "length fs \<noteq> 3"
      using 2(3) by (auto split: if_splits)
    then have "dotted (fs @ [val]) @ cs @ ''.'' = dotted r" using 2(1)[OF None] by simp
    then show ?thesis using c(1,2) by (simp add: dotted_def)
  next
    case (Some d)
    have d: "d < 10" "digit_char d = c" using Some by (auto dest: digit_value_bound digit_char_value)
    have run: "\<not> (k = 1 \<and> val = 0)" "\<not> val * 10 + d > 255" "parseIPv4Fields cs (val * 10 + d) (k + 1) fs = Some r"
      using 2(3) Some by (auto split: if_splits)
    have k: "val = 0 \<longrightarrow> k = 0" using run(1) 2(5) by auto
    have "dotted fs @ digits (val * 10 + d) @ cs @ ''.'' = dotted r" using 2(2)[OF Some run] k by simp
    moreover have "digits (val * 10 + d) = (if k = 0 then [] else digits val) @ [c]"
      using k 2(4) d digits_snoc[of val d] digits_less_10[of d] by auto
    ultimately show ?thesis by simp
  qed
qed

lemma parseIPv4Fields_quad_only:
  assumes "parseIPv4Fields s 0 0 [] = Some r"
  obtains a b c d where "r = [a, b, c, d]" "s = quad a b c d" "a < 256" "b < 256" "c < 256" "d < 256"
proof -
  obtain a b c d where r: "r = [a, b, c, d]" "a < 256" "b < 256" "c < 256" "d < 256"
    using parseIPv4Fields_shape[OF assms] by (auto simp: numeral_eq_Suc length_Suc_conv)
  have "s @ ''.'' = dotted r" using parseIPv4Fields_unique[OF assms] by (simp add: dotted_def)
  then have "s @ ''.'' = quad a b c d @ ''.''" unfolding r(1) by (simp add: dotted_def quad_def)
  then show thesis using that r by simp
qed

lemma ParseIP_without_colon:
  assumes "CHR '':'' \<notin> set s"
  shows "ParseIP s = Some ip \<longleftrightarrow>
    (\<exists>a b c d. s = quad a b c d \<and> ip = v4_prefix @ [a, b, c, d] \<and> a < 256 \<and> b < 256 \<and> c < 256 \<and> d < 256)"
proof
  assume "ParseIP s = Some ip"
  moreover have "find P s \<noteq> Some CHR '':''" for P using assms by (auto simp: find_Some_iff)
  ultimately obtain r where "parseIPv4Fields s 0 0 [] = Some r" "ip = v4_prefix @ r"
    by (auto simp: ParseIP_def split: option.splits if_splits)
  then show "\<exists>a b c d. s = quad a b c d \<and> ip = v4_prefix @ [a, b, c, d] \<and> a < 256 \<and> b < 256 \<and> c < 256 \<and> d < 256"
    using parseIPv4Fields_quad_only[of s r] by metis
qed (auto simp: ParseIP_quad)

end
