(* ===== verification/Tracing.thy ===== *)
theory Tracing
  imports NetAddr
begin

text \<open>
  \<open>otelinit.Init\<close> of both services (the two files differ in a comment): the tracer provider, with an
  exporter where \<open>RATECAP_OTEL_EXPORTER_ENDPOINT\<close> is set, and the transport of its spans.  The merge of
  resources and the making of the exporter are the library's: their errors are arguments.
\<close>

section \<open>Set-up\<close>

definition isLoopbackEndpoint :: "string \<Rightarrow> bool" where
  "isLoopbackEndpoint endpoint =
    (let host = (case SplitHostPort endpoint of Some (host, _) \<Rightarrow> host | None \<Rightarrow> endpoint)
     in if host = ''localhost'' then True
        else (case ParseIP host of None \<Rightarrow> False | Some ip \<Rightarrow> IsLoopback ip))"

datatype span_transport = WithInsecure | WithTLS nat   \<comment> \<open>the least version of TLS\<close>

definition VersionTLS12 :: nat where "VersionTLS12 = 0x0303"

record exporter_options =
  ex_endpoint :: string
  ex_transport :: span_transport

record 'r tracer_provider =
  tp_resource :: 'r
  tp_exporter :: "exporter_options option"

text \<open>What \<open>otel.SetTracerProvider\<close> and \<open>otel.SetTextMapPropagator\<close> set.\<close>

record 'r otel_globals =
  tracerProvider :: "'r tracer_provider option"
  propagator :: "string option"

definition otel_Init ::
  "(string \<Rightarrow> go_error + 'r) \<Rightarrow> (exporter_options \<Rightarrow> go_error option) \<Rightarrow> (string \<Rightarrow> string) \<Rightarrow> string \<Rightarrow>
   'r otel_globals \<Rightarrow> (go_error + 'r tracer_provider) \<times> 'r otel_globals" where
  "otel_Init merge new_exporter getenv serviceName g =
    (case merge serviceName of
       Inl err \<Rightarrow> (Inl err, g)
     | Inr res \<Rightarrow>
       (let endpoint = getenv ''RATECAP_OTEL_EXPORTER_ENDPOINT'';
            exporterOpts = \<lparr>ex_endpoint = endpoint,
              ex_transport = (if isLoopbackEndpoint endpoint then WithInsecure else WithTLS VersionTLS12)\<rparr>
        in case (if endpoint \<noteq> '''' then new_exporter exporterOpts else None) of
             Some err \<Rightarrow> (Inl err, g)
           | None \<Rightarrow>
             (let tp = \<lparr>tp_resource = res, tp_exporter = (if endpoint \<noteq> '''' then Some exporterOpts else None)\<rparr>
              in (Inr tp, g\<lparr>tracerProvider := Some tp, propagator := Some ''tracecontext''\<rparr>))))"

text \<open>The two services.\<close>

definition core_otel_Init ::
  "(string \<Rightarrow> go_error + 'r) \<Rightarrow> (exporter_options \<Rightarrow> go_error option) \<Rightarrow> (string \<Rightarrow> string) \<Rightarrow> 'r otel_globals \<Rightarrow>
   (go_error + 'r tracer_provider) \<times> 'r otel_globals" where
  "core_otel_Init merge new_exporter getenv = otel_Init merge new_exporter getenv ''ratecap-core''"

definition sidecar_otel_Init ::
  "(string \<Rightarrow> go_error + 'r) \<Rightarrow> (exporter_options \<Rightarrow> go_error option) \<Rightarrow> (string \<Rightarrow> string) \<Rightarrow> 'r otel_globals \<Rightarrow>
   (go_error + 'r tracer_provider) \<times> 'r otel_globals" where
  "sidecar_otel_Init merge new_exporter getenv = otel_Init merge new_exporter getenv ''ratecap-sidecar''"

section \<open>Which spans leave in the clear\<close>

text \<open>
  The host of an endpoint: what stands before the port, between the brackets if there are any, and all
  of the endpoint if no port can be split off.  The hosts of the machine itself: its name, the IPv4
  addresses of the network 127 in decimal without leading zeros, and the ways to write the IPv6
  address \<open>::1\<close> or such an IPv4 address as an IPv6 address.
\<close>

definition host_of :: "string \<Rightarrow> string \<Rightarrow> bool" where
  "host_of endpoint host \<longleftrightarrow>
    (\<exists>port. CHR '':'' \<notin> set port \<and> {CHR ''['', CHR '']''} \<inter> set (host @ port) = {} \<and>
      (endpoint = host @ '':'' @ port \<and> CHR '':'' \<notin> set host \<or>
       endpoint = ''['' @ host @ '']:'' @ port)) \<or>
    endpoint = host \<and> SplitHostPort endpoint = None"

definition this_machine :: "string \<Rightarrow> bool" where
  "this_machine host \<longleftrightarrow> host = ''localhost'' \<or> (\<exists>b < 256. \<exists>c < 256. \<exists>d < 256. host = quad 127 b c d) \<or>
    CHR '':'' \<in> set host \<and> (\<exists>ip. ParseIP host = Some ip \<and>
      (ip = replicate 15 0 @ [1] \<or> (\<exists>b < 256. \<exists>c < 256. \<exists>d < 256. ip = v4_prefix @ [127, b, c, d])))"

lemma IsLoopback_shape:
  assumes "ParseIP s = Some ip"
  shows "IsLoopback ip \<longleftrightarrow> ip = replicate 15 0 @ [1] \<or> (\<exists>b < 256. \<exists>c < 256. \<exists>d < 256. ip = v4_prefix @ [127, b, c, d])"
proof (cases "take 12 ip = v4_prefix")
  case True
  have "length ip = 16" "\<forall>b \<in> set ip. b < 256" using ParseIP_shape[OF assms] by (auto simp: list_all_iff)
  then have "length (drop 12 ip) = Suc (Suc (Suc (Suc 0)))" by simp
  then obtain a b c d where "drop 12 ip = [a, b, c, d]" by (auto simp only: length_Suc_conv length_0_conv)
  then have ip: "ip = v4_prefix @ [a, b, c, d]" using True by (metis append_take_drop_id)
  then have "b < 256 \<and> c < 256 \<and> d < 256" using \<open>\<forall>b \<in> set ip. b < 256\<close> by simp
  moreover have "ip \<noteq> replicate 15 0 @ [1]" unfolding ip by (simp add: v4_prefix_def numeral_eq_Suc)
  ultimately show ?thesis using IsLoopback_quad[of a b c d] unfolding ip by auto
next
  case False
  then have "ip \<noteq> v4_prefix @ [127, b, c, d]" for b c d by (auto simp: v4_prefix_def)
  then show ?thesis using False by (auto simp: IsLoopback_def To4_def)
qed

lemma isLoopbackEndpoint_iff:
  assumes "host_of endpoint host"
  shows "isLoopbackEndpoint endpoint \<longleftrightarrow> this_machine host"
proof -
  have "(case SplitHostPort endpoint of Some (h, _) \<Rightarrow> h | None \<Rightarrow> endpoint) = host"
    using assms SplitHostPort_plain[of host] SplitHostPort_bracketed[of _ host] by (auto simp: host_of_def)
  then have "isLoopbackEndpoint endpoint \<longleftrightarrow> host = ''localhost'' \<or> (\<exists>ip. ParseIP host = Some ip \<and> IsLoopback ip)"
    by (simp add: isLoopbackEndpoint_def Let_def split: option.split)
  also have "(\<exists>ip. ParseIP host = Some ip \<and> IsLoopback ip) \<longleftrightarrow> (\<exists>b < 256. \<exists>c < 256. \<exists>d < 256. host = quad 127 b c d)"
    if "CHR '':'' \<notin> set host"
    unfolding ParseIP_without_colon[OF that] by (force simp: IsLoopback_quad)
  moreover have "host \<noteq> quad 127 b c d" if "CHR '':'' \<in> set host" for b c d
    using that quad_chars[of "CHR '':''" 127 b c d] by (auto simp: digit_value_def)
  ultimately show ?thesis using IsLoopback_shape[of host] unfolding this_machine_def by (cases "CHR '':'' \<in> set host") auto
qed

lemma host_of_total: "\<exists>host. host_of endpoint host"
proof (cases "SplitHostPort endpoint")
  case (Some hp)
  then obtain port where "after_last endpoint CHR '':'' = Some port" by (auto simp: SplitHostPort_def split: option.splits)
  then obtain u where e: "endpoint = u @ CHR '':'' # port" "CHR '':'' \<notin> set port" by (rule after_last_Some)
  show ?thesis
  proof (cases "hd endpoint = CHR ''[''")
    case True
    obtain host rest found where c: "Cut (tl endpoint) CHR '']'' = (host, rest, found)" by (metis prod_cases3)
    then have ok: "found" "rest = CHR '':'' # port" "CHR ''['' \<notin> set (tl endpoint)" "CHR '']'' \<notin> set rest"
      using Some True after_last_append[OF e(2), of u] unfolding SplitHostPort_def e(1)
      by (auto split: if_splits)
    then have "tl endpoint = host @ CHR '']'' # CHR '':'' # port" "CHR '']'' \<notin> set host"
      using c Cut_found[of "tl endpoint" "CHR '']''" host rest] by auto
    moreover have "endpoint = CHR ''['' # tl endpoint" using True e(1) hd_Cons_tl[of endpoint] by force
    ultimately have "host_of endpoint host" using ok e(2)
      by (auto simp: host_of_def intro!: exI[of _ port])
    then show ?thesis by blast
  next
    case False
    then have "CHR '':'' \<notin> set u" "CHR ''['' \<notin> set endpoint" "CHR '']'' \<notin> set endpoint"
      using Some after_last_append[OF e(2), of u] before_last_append[OF e(2), of u]
      unfolding SplitHostPort_def e(1) by (auto split: if_splits)
    then have "host_of endpoint u" using e by (auto simp: host_of_def intro!: exI[of _ port])
    then show ?thesis by blast
  qed
qed (auto simp: host_of_def)

text \<open>
  C20: Whatever endpoint the exporter is given, as \<open>host:port\<close>, as \<open>[host]:port\<close> or without a port, spans
  leave a process in the clear exactly if its host is this machine: \<open>localhost\<close>, an IPv4 address of the
  network 127, written in decimal without leading zeros, or a form of the IPv6 address \<open>::1\<close> or of such
  an IPv4 address mapped into IPv6.  Any other name or address gets TLS of version 1.2 or later.
  Where the set-up fails the global tracer and propagator are as they were; where it succeeds they
  are those of the provider it returns.
\<close>

theorem spans_in_the_clear_stay_local:
  assumes "getenv ''RATECAP_OTEL_EXPORTER_ENDPOINT'' = endpoint" "endpoint \<noteq> ''''" "host_of endpoint host"
    "Init = core_otel_Init \<and> serviceName = ''ratecap-core'' \<or> Init = sidecar_otel_Init \<and> serviceName = ''ratecap-sidecar''"
  shows "case Init merge new_exporter getenv g of
      (Inl err, g') \<Rightarrow> g' = g
    | (Inr tp, g') \<Rightarrow>
        tracerProvider g' = Some tp \<and> propagator g' = Some ''tracecontext'' \<and> merge serviceName = Inr (tp_resource tp) \<and>
        tp_exporter tp = Some \<lparr>ex_endpoint = endpoint,
          ex_transport = (if this_machine host then WithInsecure else WithTLS VersionTLS12)\<rparr>"
proof -
  have "Init merge new_exporter getenv g = otel_Init merge new_exporter getenv serviceName g"
    using assms(4) by (auto simp: core_otel_Init_def sidecar_otel_Init_def)
  then show ?thesis using assms(2)
    unfolding otel_Init_def Let_def assms(1) isLoopbackEndpoint_iff[OF assms(3)] by (simp split: sum.split option.split)
qed

theorem spans_in_the_clear_stay_local_witness:
  "\<exists>tp g'. core_otel_Init (\<lambda>n. Inr n) (\<lambda>_. None) (\<lambda>_. ''127.0.0.9:4317'')
      \<lparr>tracerProvider = None, propagator = None\<rparr> = (Inr tp, g') \<and>
    tp_exporter tp = Some \<lparr>ex_endpoint = ''127.0.0.9:4317'', ex_transport = WithInsecure\<rparr>"
proof -
  have q: "''127.0.0.9'' = quad 127 0 0 9"
    by code_simp
  have "\<exists>b < 256. \<exists>c < 256. \<exists>d < 256. ''127.0.0.9'' = quad 127 b c d"
    unfolding q by (rule exI[of _ 0], simp, rule exI[of _ 0], simp, rule exI[of _ 9], simp)
  then have local: "this_machine ''127.0.0.9''" by (simp add: this_machine_def)
  have "host_of ''127.0.0.9:4317'' ''127.0.0.9''"
    by (auto simp: host_of_def intro!: exI[of _ "''4317''"])
  moreover obtain tp g' where run: "core_otel_Init (\<lambda>n. Inr n) (\<lambda>_. None) (\<lambda>_. ''127.0.0.9:4317'')
      \<lparr>tracerProvider = None, propagator = None\<rparr> = (Inr tp, g')"
    by (simp add: core_otel_Init_def otel_Init_def Let_def)
  ultimately show ?thesis
    using spans_in_the_clear_stay_local[where getenv = "\<lambda>_. ''127.0.0.9:4317''" and host = "''127.0.0.9''"
        and merge = "\<lambda>n. Inr n" and new_exporter = "\<lambda>_. None" and serviceName = "''ratecap-core''" and Init = core_otel_Init
        and g = "\<lparr>tracerProvider = None, propagator = None\<rparr>", OF refl] run local by simp
qed

text \<open>With no endpoint there is no exporter; an IPv6 loopback and a socket of the file system.\<close>

theorem no_endpoint_no_export:
  "getenv ''RATECAP_OTEL_EXPORTER_ENDPOINT'' = '''' \<Longrightarrow>
    otel_Init merge new_exporter getenv serviceName g = (Inr tp, g') \<Longrightarrow> tp_exporter tp = None"
  by (auto simp: otel_Init_def Let_def split: sum.splits)

lemmas hex_groups_turns = hex_groups.simps(2)[of 7, simplified] hex_groups.simps(2)[of 6, simplified]

lemmas endpoint_simps = isLoopbackEndpoint_def SplitHostPort_def before_last_def ParseIP_def parseIPv6_def HasPrefix_def
  hex_groups_turns hex_value_def digit_value_def IsLoopback_def To4_def v4_prefix_def

lemma loopback_examples:
  "isLoopbackEndpoint ''[::1]:4317''" "isLoopbackEndpoint ''::1''"
  "\<not> isLoopbackEndpoint ''[::2]:4317''" "\<not> isLoopbackEndpoint ''[::1]''" "\<not> isLoopbackEndpoint ''127.0.0.01:4317''"
  by (simp_all add: endpoint_simps) (simp_all add: numeral_eq_Suc)

theorem unix_socket_gets_tls: "\<not> isLoopbackEndpoint ''unix:///run/otel.sock''"
  by (simp add: endpoint_simps)

end
