(* ===== verification/Boot.thy ===== *)
theory Boot
  imports GoStrings
begin

text \<open>
  The start-up of a service as a trace: what \<open>main\<close> does to the world, in order, until a
  \<open>log.Fatalf\<close> (\<open>Inl\<close>) or its return.  What the operating system and the libraries answer to each
  step is an argument of the definitions that build on this.
\<close>

datatype service =
    Rpc          \<comment> \<open>the rate limiting service on a gRPC listener\<close>
  | Health
  | Metrics
  | Pprof
  | Http         \<comment> \<open>the routes of a sidecar\<close>

datatype boot_effect =
    InitTracing
  | SetConfigVersion
  | WatchFile string
  | LoadTLS
  | DialCore string
  | Listen string
  | SetServing
  | GoHealthLoop
  | Serve service string
  | RunDeferred string

type_synonym 'a boot = "boot_effect list \<times> (go_error + 'a)"

definition boot_bind :: "'a boot \<Rightarrow> ('a \<Rightarrow> 'b boot) \<Rightarrow> 'b boot" where
  "boot_bind m f =
    (case m of
       (es, Inl err) \<Rightarrow> (es, Inl err)
     | (es, Inr a) \<Rightarrow> (case f a of (fs, r) \<Rightarrow> (es @ fs, r)))"

text \<open>A step that may fail, and one that does not.\<close>

definition attempt :: "boot_effect \<Rightarrow> string \<Rightarrow> go_error option \<Rightarrow> unit boot" where
  "attempt e msg outcome = (case outcome of Some err \<Rightarrow> ([], Inl (msg @ err)) | None \<Rightarrow> ([e], Inr ()))"

definition perform :: "boot_effect list \<Rightarrow> unit boot" where
  "perform es = (es, Inr ())"

definition fatal :: "string \<Rightarrow> 'a boot" where
  "fatal msg = ([], Inl msg)"

definition yields :: "'a \<Rightarrow> 'a boot" where
  "yields a = ([], Inr a)"

text \<open>The error of a callee under the message of its caller.\<close>

definition explain :: "string \<Rightarrow> 'a boot \<Rightarrow> 'a boot" where
  "explain msg m = (case m of (es, Inl err) \<Rightarrow> (es, Inl (msg @ err)) | (es, Inr a) \<Rightarrow> (es, Inr a))"

section \<open>The effects of a run\<close>

text \<open>\<open>emits P m\<close>: every effect of the run is one that \<open>P\<close> allows.\<close>

definition emits :: "(boot_effect \<Rightarrow> bool) \<Rightarrow> 'a boot \<Rightarrow> bool" where
  "emits P m \<longleftrightarrow> list_all P (fst m)"

lemma emits_simps [simp]:
  "emits P (perform es) = list_all P es" "emits P (fatal msg)" "emits P (yields a)"
  "emits P (attempt e msg r) = (r = None \<longrightarrow> P e)"
  "emits P (explain msg m) = emits P m"
  by (auto simp: emits_def perform_def fatal_def yields_def attempt_def explain_def split: option.split prod.split sum.split)

lemma emits_bind [simp]:
  "emits P (boot_bind m f) \<longleftrightarrow> emits P m \<and> (\<forall>es a. m = (es, Inr a) \<longrightarrow> emits P (f a))"
  by (cases m) (auto simp: emits_def boot_bind_def split: sum.split prod.split)

lemma boot_bind_Inr:
  assumes "boot_bind m f = (es, Inr b)"
  obtains xs a ys where "m = (xs, Inr a)" "f a = (ys, Inr b)" "es = xs @ ys"
  using assms by (cases m) (auto simp: boot_bind_def split: sum.splits prod.splits)

lemma boot_simps:
  "(perform es = (fs, Inr u)) = (fs = es)" "(fatal msg = (fs, Inr a)) = False"
  "(yields a = (fs, Inr b)) = (fs = [] \<and> b = a)" "(attempt e msg r = (fs, Inr u)) = (r = None \<and> fs = [e])"
  "(explain msg m = (fs, Inr a)) = (m = (fs, Inr a))"
  by (auto simp: perform_def fatal_def yields_def attempt_def explain_def split: option.split prod.split sum.split)

text \<open>The services a run has started, with their addresses.\<close>

definition served :: "boot_effect list \<Rightarrow> (service \<times> string) list" where
  "served es = List.map_filter (\<lambda>e. case e of Serve s a \<Rightarrow> Some (s, a) | _ \<Rightarrow> None) es"

lemma served_simps [simp]:
  "served [] = []" "served (Serve s a # es) = (s, a) # served es"
  "served (InitTracing # es) = served es" "served (SetConfigVersion # es) = served es"
  "served (WatchFile p # es) = served es" "served (LoadTLS # es) = served es" "served (DialCore p # es) = served es"
  "served (Listen p # es) = served es" "served (SetServing # es) = served es" "served (GoHealthLoop # es) = served es"
  "served (RunDeferred d # es) = served es" "served (xs @ ys) = served xs @ served ys"
  by (simp_all add: served_def map_filter_simps) (simp add: map_filter_def)

lemma in_served: "(s, a) \<in> set (served es) \<longleftrightarrow> Serve s a \<in> set es"
proof (induction es)
  case (Cons e es)
  then show ?case by (cases e) auto
qed simp

section \<open>The profiler\<close>

datatype pprof_handler = Index | Cmdline | Profile | Symbol | Trace | Named string

text \<open>The patterns of \<open>newPprofMux\<close>: exact paths, and the subtree that ends in a slash.\<close>

definition newPprofMux :: "(string \<times> pprof_handler) list" where
  "newPprofMux =
    [(''/debug/pprof/'', Index), (''/debug/pprof/cmdline'', Cmdline), (''/debug/pprof/profile'', Profile),
     (''/debug/pprof/symbol'', Symbol), (''/debug/pprof/trace'', Trace)] @
    map (\<lambda>name. (''/debug/pprof/'' @ name, Named name))
      [''goroutine'', ''heap'', ''allocs'', ''block'', ''mutex'', ''threadcreate'']"

definition pprof_route :: "string \<Rightarrow> pprof_handler option" where
  "pprof_route path =
    (case map_of newPprofMux path of
       Some h \<Rightarrow> Some h
     | None \<Rightarrow> if HasPrefix path ''/debug/pprof/'' then Some Index else None)"

lemma pprof_routes: "pprof_route path \<noteq> None \<Longrightarrow> HasPrefix path ''/debug/pprof/''"
  by (auto simp: pprof_route_def newPprofMux_def HasPrefix_def split: if_splits)

text \<open>\<open>startPprofServer\<close> and \<open>maybeStartPprofServer\<close>, with the answer of \<open>net.Listen\<close>.\<close>

definition startPprofServer :: "(string \<Rightarrow> go_error option) \<Rightarrow> string \<Rightarrow> unit boot" where
  "startPprofServer listen addr =
    boot_bind (attempt (Listen addr) '''' (listen addr)) (\<lambda>_. perform [Serve Pprof addr])"

definition boot_maybePprof :: "(string \<Rightarrow> go_error option) \<Rightarrow> bool \<Rightarrow> string \<Rightarrow> unit boot" where
  "boot_maybePprof listen enabled addr =
    (if \<not> enabled then yields () else startPprofServer listen addr)"

end
