(* ===== verification/CoreBoot.thy ===== *)
theory CoreBoot
  imports Boot CoreMain
begin

text \<open>
  \<open>main\<close> of \<open>services/core/main.go\<close> as a trace of effects.  \<open>CoreMain.core_main\<close> is the specification: what a
  start-up that passes its checks has decided.
\<close>

section \<open>The steps of main\<close>

record core_env =
  ce_getenv :: "string \<Rightarrow> string"
  ce_tracing :: "go_error option"
  ce_load :: "string \<Rightarrow> go_error + config"
  ce_watch :: "string \<Rightarrow> go_error option"
  ce_listen :: "string \<Rightarrow> go_error option"
  ce_tls :: "string \<Rightarrow> string \<Rightarrow> string \<Rightarrow> go_error option"
  ce_background :: "(service \<times> go_error option) list"   \<comment> \<open>the background servers that return before, in order\<close>
  ce_served :: "go_error option"   \<comment> \<open>what the last \<open>Serve\<close> returns, when it returns\<close>

record core_settings =
  st_redis :: redis_options
  st_sharedSecret :: string
  st_signingKey :: string
  st_tlsMode :: string

text \<open>Load the configuration, validate it, publish its version.\<close>

definition core_config :: "core_env \<Rightarrow> config boot" where
  "core_config env =
    (case ce_load env (or_default (ce_getenv env ''RATECAP_CONFIG_PATH'') ''/etc/ratecap/ratecap.yaml'') of
       Inl err \<Rightarrow> fatal (''failed to load config: '' @ err)
     | Inr cfg \<Rightarrow>
       (case Validate cfg of
          Some err \<Rightarrow> fatal (''invalid config: '' @ err)
        | None \<Rightarrow> boot_bind (perform [SetConfigVersion]) (\<lambda>_. yields cfg)))"

text \<open>The secrets, the TLS variables and the mode.\<close>

definition core_settings_checks :: "core_env \<Rightarrow> core_settings boot" where
  "core_settings_checks env =
    (let getenv = ce_getenv env;
         redisAddr = or_default (getenv ''RATECAP_REDIS_ADDR'') ''localhost:6379'';
         sharedSecret = getenv ''RATECAP_SHARED_SECRET'';
         concurrencySigningKey = getenv ''RATECAP_CONCURRENCY_SIGNING_KEY'';
         tlsCertPath = getenv ''RATECAP_TLS_CERT_PATH''; tlsKeyPath = getenv ''RATECAP_TLS_KEY_PATH'';
         tlsCAPath = getenv ''RATECAP_TLS_CA_PATH''
     in if sharedSecret = '''' then fatal (''RATECAP_SHARED_SECRET must be set'' @ em_dash @
          ''ratecap-core refuses to start without gRPC authentication configured'')
        else if concurrencySigningKey = '''' then fatal (''RATECAP_CONCURRENCY_SIGNING_KEY must be set'' @ em_dash @
          ''ratecap-core refuses to start without Tier 2 concurrency-token signing configured'')
        else if EnvVarsPartiallySet tlsCertPath tlsKeyPath tlsCAPath then
          fatal ''RATECAP_TLS_CERT_PATH, RATECAP_TLS_KEY_PATH, and RATECAP_TLS_CA_PATH must be set together or not at all''
        else (case resolveTLSMode (getenv ''RATECAP_TLS_MODE'') of
          Inl err \<Rightarrow> fatal err
        | Inr tlsMode \<Rightarrow>
          if (tlsMode = ''permissive'' \<or> tlsMode = ''strict'') \<and> tlsCertPath = '''' then
            fatal (''RATECAP_TLS_MODE='' @ tlsMode @
              '' requires RATECAP_TLS_CERT_PATH/RATECAP_TLS_KEY_PATH/RATECAP_TLS_CA_PATH to be set'')
          else yields \<lparr>
            st_redis = newRedisClient redisAddr (getenv ''RATECAP_REDIS_SENTINEL_ADDRS'')
              (or_default (getenv ''RATECAP_REDIS_SENTINEL_MASTER_NAME'') ''mymaster''),
            st_sharedSecret = sharedSecret, st_signingKey = concurrencySigningKey, st_tlsMode = tlsMode\<rparr>))"

definition core_load_tls :: "core_env \<Rightarrow> string \<Rightarrow> unit boot" where
  "core_load_tls env msg =
    attempt LoadTLS msg (ce_tls env (ce_getenv env ''RATECAP_TLS_CERT_PATH'') (ce_getenv env ''RATECAP_TLS_KEY_PATH'')
      (ce_getenv env ''RATECAP_TLS_CA_PATH''))"

text \<open>The main listener: its port is bound before its certificate is loaded.\<close>

definition core_main_listener :: "core_env \<Rightarrow> string \<Rightarrow> string boot" where
  "core_main_listener env tlsMode =
    (let listenAddr = or_default (ce_getenv env ''RATECAP_GRPC_ADDR'') '':9090'' in
     boot_bind (attempt (Listen listenAddr) (''failed to listen on '' @ listenAddr @ '': '') (ce_listen env listenAddr)) (\<lambda>_.
     boot_bind (if ce_getenv env ''RATECAP_TLS_CERT_PATH'' \<noteq> '''' \<and> tlsMode \<noteq> ''permissive''
                then core_load_tls env ''failed to load TLS config: '' else yields ()) (\<lambda>_.
     yields listenAddr)))"

text \<open>The second listener, in permissive mode; a goroutine serves it.\<close>

definition core_permissive_listener :: "core_env \<Rightarrow> string \<Rightarrow> unit boot" where
  "core_permissive_listener env tlsMode =
    (if tlsMode = ''permissive'' then
       (let tlsAddr = or_default (ce_getenv env ''RATECAP_GRPC_TLS_ADDR'') '':9443'' in
        boot_bind (attempt (Listen tlsAddr) (''failed to listen on '' @ tlsAddr @ '': '') (ce_listen env tlsAddr)) (\<lambda>_.
        boot_bind (core_load_tls env ''failed to load TLS config for permissive listener: '') (\<lambda>_.
        perform [Serve Rpc tlsAddr])))
     else yields ())"

text \<open>The health service reports that it serves before the first ping.\<close>

definition core_health :: "core_env \<Rightarrow> unit boot" where
  "core_health env =
    (let healthAddr = or_default (ce_getenv env ''RATECAP_HEALTH_ADDR'') '':9091'' in
     boot_bind (attempt (Listen healthAddr) (''failed to listen on '' @ healthAddr @ '': '') (ce_listen env healthAddr)) (\<lambda>_.
     perform [SetServing, GoHealthLoop, Serve Health healthAddr]))"

text \<open>What a return of \<open>main\<close> runs, the last deferred function first.\<close>

definition core_deferred :: "core_env \<Rightarrow> string list" where
  "core_deferred env =
    [''close(stopHealthLoop)''] @ (if ce_getenv env ''RATECAP_TLS_CERT_PATH'' \<noteq> '''' then [''stopCertWatch''] else []) @
    [''stopWatch'', ''otelShutdown'']"

text \<open>A background server that returns: what its goroutine makes of the error, \<open>Some\<close> being fatal.\<close>

definition ErrServerClosed :: go_error where "ErrServerClosed = ''http: Server closed''"

fun background_return :: "service \<Rightarrow> go_error option \<Rightarrow> go_error option" where
  "background_return s None = None"
| "background_return Rpc (Some err) = Some (''permissive-mode TLS grpc server failed: '' @ err)"
| "background_return Health (Some err) = Some (''health grpc server failed: '' @ err)"
| "background_return Metrics (Some err) = (if err = ErrServerClosed then None else Some (''metrics http server failed: '' @ err))"
| "background_return Pprof (Some err) = None"
| "background_return Http (Some err) = None"

fun background_fatal :: "(service \<times> go_error option) list \<Rightarrow> go_error option" where
  "background_fatal [] = None"
| "background_fatal ((s, r) # rs) =
    (case background_return s r of Some msg \<Rightarrow> Some msg | None \<Rightarrow> background_fatal rs)"

text \<open>The metrics listener belongs to a goroutine; the gRPC server is served last, and in the foreground.\<close>

definition core_serve :: "core_env \<Rightarrow> string \<Rightarrow> unit boot" where
  "core_serve env listenAddr =
    boot_bind (perform [Serve Metrics (or_default (ce_getenv env ''RATECAP_METRICS_ADDR'') '':9092''), Serve Rpc listenAddr]) (\<lambda>_.
    (case background_fatal (ce_background env) of
       Some msg \<Rightarrow> fatal msg
     | None \<Rightarrow>
       (case ce_served env of
          Some err \<Rightarrow> fatal (''grpc server failed: '' @ err)
        | None \<Rightarrow> perform (map RunDeferred (core_deferred env)))))"

text \<open>Everything up to the last step, and \<open>main\<close>.\<close>

definition core_prepare :: "core_env \<Rightarrow> string boot" where
  "core_prepare env =
    boot_bind (attempt InitTracing ''failed to initialize OpenTelemetry: '' (ce_tracing env)) (\<lambda>_.
    boot_bind (core_config env) (\<lambda>cfg.
    boot_bind (core_settings_checks env) (\<lambda>st.
    (let configPath = or_default (ce_getenv env ''RATECAP_CONFIG_PATH'') ''/etc/ratecap/ratecap.yaml'' in
    boot_bind (attempt (WatchFile configPath) ''failed to start config watcher: '' (ce_watch env configPath)) (\<lambda>_.
    boot_bind (core_main_listener env (st_tlsMode st)) (\<lambda>listenAddr.
    boot_bind (core_permissive_listener env (st_tlsMode st)) (\<lambda>_.
    boot_bind (core_health env) (\<lambda>_.
    boot_bind (explain ''failed to start pprof server: ''
      (boot_maybePprof (ce_listen env) (resolvePprofEnabled (ce_getenv env ''RATECAP_PPROF_ENABLED'')) ''127.0.0.1:6060'')) (\<lambda>_.
    yields listenAddr)))))))))"

definition core_boot :: "core_env \<Rightarrow> unit boot" where
  "core_boot env = boot_bind (core_prepare env) (core_serve env)"

section \<open>A run against the specification\<close>

definition start_of :: "core_env \<Rightarrow> config \<Rightarrow> core_settings \<Rightarrow> core_start" where
  "start_of env cfg st =
    \<lparr>cs_config = cfg, cs_redis = st_redis st, cs_sharedSecret = st_sharedSecret st, cs_signingKey = st_signingKey st,
     cs_listeners = core_listeners (ce_getenv env) (st_tlsMode st),
     cs_health = or_default (ce_getenv env ''RATECAP_HEALTH_ADDR'') '':9091'',
     cs_metrics = or_default (ce_getenv env ''RATECAP_METRICS_ADDR'') '':9092'',
     cs_pprof = (if resolvePprofEnabled (ce_getenv env ''RATECAP_PPROF_ENABLED'') then Some ''127.0.0.1:6060'' else None)\<rparr>"

definition tls_loaded :: "core_env \<Rightarrow> core_settings \<Rightarrow> bool" where
  "tls_loaded env st \<longleftrightarrow>
    ((ce_getenv env ''RATECAP_TLS_CERT_PATH'' \<noteq> '''' \<and> st_tlsMode st \<noteq> ''permissive'') \<or> st_tlsMode st = ''permissive'' \<longrightarrow>
     ce_tls env (ce_getenv env ''RATECAP_TLS_CERT_PATH'') (ce_getenv env ''RATECAP_TLS_KEY_PATH'')
       (ce_getenv env ''RATECAP_TLS_CA_PATH'') = None)"

lemma core_config_Inr:
  "core_config env = (es, Inr cfg) \<longleftrightarrow>
    ce_load env (or_default (ce_getenv env ''RATECAP_CONFIG_PATH'') ''/etc/ratecap/ratecap.yaml'') = Inr cfg \<and>
    Validate cfg = None \<and> es = [SetConfigVersion]"
  by (auto simp: core_config_def boot_bind_def perform_def yields_def fatal_def split: sum.splits option.splits)

lemma core_main_of_parts:
  assumes "core_config env = (es, Inr cfg)" "core_settings_checks env = (fs, Inr st)" "tls_loaded env st"
  shows "core_main (ce_load env) (ce_tls env) (ce_getenv env) = Inr (start_of env cfg st)"
  using assms
  by (cases "st_tlsMode st = ''permissive''"; simp add: core_config_Inr core_settings_checks_def core_main_def start_of_def tls_loaded_def Let_def boot_simps
      split: if_split_asm sum.split_asm; blast)

lemma parts_of_core_main:
  assumes "core_main (ce_load env) (ce_tls env) (ce_getenv env) = Inr cs"
  obtains cfg st where "core_config env = ([SetConfigVersion], Inr cfg)" "core_settings_checks env = ([], Inr st)"
    "tls_loaded env st" "cs = start_of env cfg st"
proof -
  obtain cfg where load: "ce_load env (or_default (ce_getenv env ''RATECAP_CONFIG_PATH'') ''/etc/ratecap/ratecap.yaml'') = Inr cfg"
      and cfg: "Validate cfg = None"
    using assms by (simp add: core_main_def Let_def split: sum.split_asm option.split_asm)
  obtain tlsMode where mode: "resolveTLSMode (ce_getenv env ''RATECAP_TLS_MODE'') = Inr tlsMode"
    using assms load cfg by (simp add: core_main_def Let_def split: if_split_asm sum.split_asm)
  obtain st where st: "core_settings_checks env = ([], Inr st)"
    using assms load cfg mode by (simp add: core_main_def core_settings_checks_def Let_def boot_simps split: if_split_asm)
  have mode_st: "st_tlsMode st = tlsMode"
    using st mode by (auto simp: core_settings_checks_def Let_def boot_simps split: if_split_asm)
  have "tls_loaded env st"
    using assms load cfg mode mode_st by (simp add: core_main_def tls_loaded_def Let_def split: if_split_asm option.split_asm)
  moreover have "core_config env = ([SetConfigVersion], Inr cfg)" using load cfg by (simp add: core_config_Inr)
  ultimately show thesis using that st core_main_of_parts[of env _ cfg _ st] assms by simp
qed

text \<open>What the specification allows to be served.\<close>

definition allowed :: "core_start \<Rightarrow> service \<times> string \<Rightarrow> bool" where
  "allowed cs sa =
    (case sa of
       (Rpc, a) \<Rightarrow> a \<in> fst ` set (cs_listeners cs)
     | (Health, a) \<Rightarrow> a = cs_health cs
     | (Metrics, a) \<Rightarrow> a = cs_metrics cs
     | (Pprof, a) \<Rightarrow> cs_pprof cs = Some a
     | (Http, a) \<Rightarrow> False)"

definition effect_ok :: "core_env \<Rightarrow> boot_effect \<Rightarrow> bool" where
  "effect_ok env e =
    (case e of
       Serve s a \<Rightarrow> (\<exists>cs. core_main (ce_load env) (ce_tls env) (ce_getenv env) = Inr cs \<and> allowed cs (s, a))
     | RunDeferred d \<Rightarrow> ce_served env = None
     | _ \<Rightarrow> True)"

lemma effect_ok_plain [simp]:
  "effect_ok env InitTracing" "effect_ok env SetConfigVersion" "effect_ok env (WatchFile p)" "effect_ok env LoadTLS"
  "effect_ok env (Listen a)" "effect_ok env SetServing" "effect_ok env GoHealthLoop" "effect_ok env (DialCore a)"
  by (simp_all add: effect_ok_def)

text \<open>Each step adds what it serves.\<close>

lemma core_main_listener_Inr:
  "core_main_listener env tlsMode = (es, Inr addr) \<Longrightarrow>
    addr = or_default (ce_getenv env ''RATECAP_GRPC_ADDR'') '':9090'' \<and> served es = [] \<and>
    (ce_getenv env ''RATECAP_TLS_CERT_PATH'' \<noteq> '''' \<and> tlsMode \<noteq> ''permissive'' \<longrightarrow>
      ce_tls env (ce_getenv env ''RATECAP_TLS_CERT_PATH'') (ce_getenv env ''RATECAP_TLS_KEY_PATH'')
        (ce_getenv env ''RATECAP_TLS_CA_PATH'') = None)"
  by (auto simp: core_main_listener_def core_load_tls_def Let_def boot_simps elim!: boot_bind_Inr split: if_split_asm)

lemma core_permissive_listener_Inr:
  "core_permissive_listener env tlsMode = (es, Inr u) \<Longrightarrow>
    served es = (if tlsMode = ''permissive'' then [(Rpc, or_default (ce_getenv env ''RATECAP_GRPC_TLS_ADDR'') '':9443'')] else []) \<and>
    (tlsMode = ''permissive'' \<longrightarrow>
      ce_tls env (ce_getenv env ''RATECAP_TLS_CERT_PATH'') (ce_getenv env ''RATECAP_TLS_KEY_PATH'')
        (ce_getenv env ''RATECAP_TLS_CA_PATH'') = None)"
  by (auto simp: core_permissive_listener_def core_load_tls_def Let_def boot_simps elim!: boot_bind_Inr split: if_split_asm)

lemma tls_loaded_after_listeners:
  assumes "core_main_listener env (st_tlsMode st) = (es, Inr addr)" "core_permissive_listener env (st_tlsMode st) = (fs, Inr u)"
  shows "tls_loaded env st"
  using core_main_listener_Inr[OF assms(1)] core_permissive_listener_Inr[OF assms(2)] by (auto simp: tls_loaded_def)

lemma emits_quiet:
  "emits (effect_ok env) (core_config env)" "emits (effect_ok env) (core_settings_checks env)"
  "emits (effect_ok env) (core_main_listener env tlsMode)" "emits (effect_ok env) (core_load_tls env msg)"
  by (auto simp: core_config_def core_settings_checks_def core_main_listener_def core_load_tls_def Let_def
      split: sum.split option.split)

lemma emits_permissive:
  assumes "core_config env = (es, Inr cfg)" "core_settings_checks env = (fs, Inr st)"
  shows "emits (effect_ok env) (core_permissive_listener env (st_tlsMode st))"
proof -
  have "effect_ok env (Serve Rpc (or_default (ce_getenv env ''RATECAP_GRPC_TLS_ADDR'') '':9443''))"
    if "st_tlsMode st = ''permissive''" "core_load_tls env msg = (gs, Inr u)" for msg gs u
  proof -
    have "tls_loaded env st" using that by (simp add: core_load_tls_def tls_loaded_def boot_simps)
    from core_main_of_parts[OF assms this] that(1) show ?thesis
      by (simp add: effect_ok_def allowed_def start_of_def core_listeners_def Let_def)
  qed
  then show ?thesis by (auto simp: core_permissive_listener_def Let_def emits_quiet)
qed

lemma emits_rest:
  assumes "core_main (ce_load env) (ce_tls env) (ce_getenv env) = Inr cs"
  shows "emits (effect_ok env) (core_health env)"
    "emits (effect_ok env) (boot_maybePprof (ce_listen env) (resolvePprofEnabled (ce_getenv env ''RATECAP_PPROF_ENABLED'')) ''127.0.0.1:6060'')"
    "emits (effect_ok env) (core_serve env (or_default (ce_getenv env ''RATECAP_GRPC_ADDR'') '':9090''))"
proof -
  obtain cfg st where "cs = start_of env cfg st" using parts_of_core_main[OF assms] by metis
  then have ok: "allowed cs sa \<Longrightarrow> case sa of (s, a) \<Rightarrow> effect_ok env (Serve s a)" for sa
    using assms by (auto simp: effect_ok_def split: prod.split)
  have "allowed cs (Health, or_default (ce_getenv env ''RATECAP_HEALTH_ADDR'') '':9091'')"
    "allowed cs (Metrics, or_default (ce_getenv env ''RATECAP_METRICS_ADDR'') '':9092'')"
    "allowed cs (Rpc, or_default (ce_getenv env ''RATECAP_GRPC_ADDR'') '':9090'')"
    "resolvePprofEnabled (ce_getenv env ''RATECAP_PPROF_ENABLED'') \<Longrightarrow> allowed cs (Pprof, ''127.0.0.1:6060'')"
    using \<open>cs = start_of env cfg st\<close> by (auto simp: allowed_def start_of_def core_listeners_def Let_def)
  note allowed = this[THEN ok, simplified]
  show "emits (effect_ok env) (core_health env)" using allowed(1) by (simp add: core_health_def Let_def)
  show "emits (effect_ok env) (boot_maybePprof (ce_listen env) (resolvePprofEnabled (ce_getenv env ''RATECAP_PPROF_ENABLED'')) ''127.0.0.1:6060'')"
    using allowed(4) by (simp add: boot_maybePprof_def startPprofServer_def)
  show "emits (effect_ok env) (core_serve env (or_default (ce_getenv env ''RATECAP_GRPC_ADDR'') '':9090''))"
    using allowed(2,3) by (simp add: core_serve_def effect_ok_def list_all_iff split: option.split)
qed

lemma core_boot_effects: "emits (effect_ok env) (core_boot env)"
proof -
  have rest: "\<exists>cs. core_main (ce_load env) (ce_tls env) (ce_getenv env) = Inr cs"
    if "core_config env = (es, Inr cfg)" "core_settings_checks env = (fs, Inr st)"
      "core_main_listener env (st_tlsMode st) = (gs, Inr addr)" "core_permissive_listener env (st_tlsMode st) = (hs, Inr u)"
    for es cfg fs st gs addr hs u
    using core_main_of_parts[OF that(1,2) tls_loaded_after_listeners[OF that(3,4)]] by blast
  have "emits (effect_ok env) (core_prepare env)"
    unfolding core_prepare_def Let_def emits_bind
    using rest emits_rest(1,2) emits_permissive emits_quiet(1-3) by (simp add: emits_quiet) metis
  moreover have "emits (effect_ok env) (core_serve env addr)" if prep: "core_prepare env = (es, Inr addr)" for es addr
  proof -
    obtain es cfg fs st gs hs u where
      "core_config env = (es, Inr cfg)" "core_settings_checks env = (fs, Inr st)"
      "core_main_listener env (st_tlsMode st) = (gs, Inr addr)" "core_permissive_listener env (st_tlsMode st) = (hs, Inr u)"
      using prep unfolding core_prepare_def Let_def by (auto elim!: boot_bind_Inr simp: boot_simps)
    then show ?thesis using rest emits_rest(3) core_main_listener_Inr by metis
  qed
  ultimately show ?thesis by (simp add: core_boot_def)
qed

text \<open>And when nothing fails, everything the specification lists is served, the main listener last.\<close>

lemma core_boot_runs:
  assumes "core_main (ce_load env) (ce_tls env) (ce_getenv env) = Inr cs" "ce_tracing env = None"
    "\<And>p. ce_watch env p = None" "\<And>a. ce_listen env a = None"
  shows "served (fst (core_boot env)) =
    map (\<lambda>l. (Rpc, fst l)) (tl (cs_listeners cs)) @ [(Health, cs_health cs)] @
    (case cs_pprof cs of None \<Rightarrow> [] | Some a \<Rightarrow> [(Pprof, a)]) @
    [(Metrics, cs_metrics cs), (Rpc, fst (hd (cs_listeners cs)))]"
proof -
  obtain cfg st where p: "core_config env = ([SetConfigVersion], Inr cfg)" "core_settings_checks env = ([], Inr st)"
    "tls_loaded env st" "cs = start_of env cfg st"
    using parts_of_core_main[OF assms(1)] by metis
  have deferred: "served (map RunDeferred xs) = []" for xs by (induction xs) simp_all
  have m: "core_main_listener env (st_tlsMode st) =
    ([Listen (or_default (ce_getenv env ''RATECAP_GRPC_ADDR'') '':9090'')] @
       (if ce_getenv env ''RATECAP_TLS_CERT_PATH'' \<noteq> '''' \<and> st_tlsMode st \<noteq> ''permissive'' then [LoadTLS] else []),
     Inr (or_default (ce_getenv env ''RATECAP_GRPC_ADDR'') '':9090''))"
    using p(3) assms(4)
    by (simp add: core_main_listener_def core_load_tls_def tls_loaded_def attempt_def yields_def boot_bind_def Let_def)
  have s: "core_permissive_listener env (st_tlsMode st) =
    ((if st_tlsMode st = ''permissive'' then
       (let a = or_default (ce_getenv env ''RATECAP_GRPC_TLS_ADDR'') '':9443'' in [Listen a, LoadTLS, Serve Rpc a]) else []), Inr ())"
    using p(3) assms(4)
    by (simp add: core_permissive_listener_def core_load_tls_def tls_loaded_def attempt_def yields_def perform_def boot_bind_def Let_def)
  show ?thesis unfolding p(4)
    by (simp add: core_boot_def core_prepare_def p m s Let_def assms attempt_def boot_bind_def core_health_def perform_def yields_def
        boot_maybePprof_def startPprofServer_def explain_def core_serve_def start_of_def core_listeners_def fatal_def deferred
        split: option.split)
qed

text \<open>
  C16: However the start-up of core goes, whatever fails on the way, a service is only ever started after
  the configuration was loaded and validated, the secrets were found and the certificates the mode
  asks for were loaded, and only on an address and in a role that these decide: the profiler on the
  loopback address and only if it was asked for, the gRPC service on the listeners of the mode.  And
  whenever the checks pass and neither the tracer, a file watcher nor a listener fails, all of them
  are started, the main gRPC listener last: a start-up that starts nothing is excluded.
\<close>

theorem core_serves_what_was_checked:
  "(\<forall>(s, a) \<in> set (served (fst (core_boot env))).
      \<exists>cs. core_main (ce_load env) (ce_tls env) (ce_getenv env) = Inr cs \<and> allowed cs (s, a) \<and>
        Validate (cs_config cs) = None \<and> cs_sharedSecret cs \<noteq> '''' \<and> cs_signingKey cs \<noteq> '''' \<and>
        cs_pprof cs \<in> {None, Some ''127.0.0.1:6060''}) \<and>
   (\<forall>cs. core_main (ce_load env) (ce_tls env) (ce_getenv env) = Inr cs \<longrightarrow>
      ce_tracing env = None \<longrightarrow> (\<forall>p. ce_watch env p = None) \<longrightarrow> (\<forall>a. ce_listen env a = None) \<longrightarrow>
      served (fst (core_boot env)) =
        map (\<lambda>l. (Rpc, fst l)) (tl (cs_listeners cs)) @ [(Health, cs_health cs)] @
        (case cs_pprof cs of None \<Rightarrow> [] | Some a \<Rightarrow> [(Pprof, a)]) @
        [(Metrics, cs_metrics cs), (Rpc, fst (hd (cs_listeners cs)))])"
proof (intro conjI)
  show "\<forall>(s, a) \<in> set (served (fst (core_boot env))).
      \<exists>cs. core_main (ce_load env) (ce_tls env) (ce_getenv env) = Inr cs \<and> allowed cs (s, a) \<and>
        Validate (cs_config cs) = None \<and> cs_sharedSecret cs \<noteq> '''' \<and> cs_signingKey cs \<noteq> '''' \<and>
        cs_pprof cs \<in> {None, Some ''127.0.0.1:6060''}"
  proof clarify
    fix s a
    assume "(s, a) \<in> set (served (fst (core_boot env)))"
    then have "effect_ok env (Serve s a)"
      using core_boot_effects[of env] by (simp add: in_served emits_def list_all_iff)
    then obtain cs where cs: "core_main (ce_load env) (ce_tls env) (ce_getenv env) = Inr cs" "allowed cs (s, a)"
      by (auto simp: effect_ok_def)
    have "Validate (cs_config cs) = None \<and> cs_sharedSecret cs \<noteq> '''' \<and> cs_signingKey cs \<noteq> '''' \<and>
        cs_pprof cs \<in> {None, Some ''127.0.0.1:6060''}"
      by (rule core_main_starts[OF cs(1)]) simp
    then show "\<exists>cs. core_main (ce_load env) (ce_tls env) (ce_getenv env) = Inr cs \<and> allowed cs (s, a) \<and>
        Validate (cs_config cs) = None \<and> cs_sharedSecret cs \<noteq> '''' \<and> cs_signingKey cs \<noteq> '''' \<and>
        cs_pprof cs \<in> {None, Some ''127.0.0.1:6060''}"
      using cs by blast
  qed
qed (simp add: core_boot_runs)

definition demo_core_env :: core_env where
  "demo_core_env = \<lparr>ce_getenv = (\<lambda>v. if v = ''RATECAP_SHARED_SECRET'' then ''s''
       else if v = ''RATECAP_CONCURRENCY_SIGNING_KEY'' then ''k'' else ''''), ce_tracing = None,
     ce_load = (\<lambda>_. Inr demo_cfg), ce_watch = (\<lambda>_. None), ce_listen = (\<lambda>_. None), ce_tls = (\<lambda>_ _ _. None),
     ce_background = [], ce_served = None\<rparr>"

theorem core_serves_what_was_checked_witness:
  "served (fst (core_boot demo_core_env)) = [(Health, '':9091''), (Metrics, '':9092''), (Rpc, '':9090'')]"
proof -
  obtain cs where cs: "core_main (ce_load demo_core_env) (ce_tls demo_core_env) (ce_getenv demo_core_env) = Inr cs"
    "cs_listeners cs = [('':9090'', Plaintext)]" "cs_health cs = '':9091''" "cs_metrics cs = '':9092''" "cs_pprof cs = None"
    by (simp add: demo_core_env_def core_main_def Let_def demo_cfg_valid EnvVarsPartiallySet_iff resolveTLSMode_def
        core_listeners_def or_default_def resolvePprofEnabled_def)
  have ok: "ce_tracing demo_core_env = None \<and> (\<forall>p. ce_watch demo_core_env p = None) \<and> (\<forall>a. ce_listen demo_core_env a = None)"
    by (simp add: demo_core_env_def)
  from conjunct2[OF core_serves_what_was_checked[of demo_core_env]] show ?thesis using cs ok by auto
qed

text \<open>The deferred functions run only if the last \<open>Serve\<close> returns without an error.\<close>

theorem core_deferred_needs_clean_return:
  "RunDeferred d \<in> set (fst (core_boot env)) \<Longrightarrow> ce_served env = None"
  using core_boot_effects[of env] by (auto simp: emits_def list_all_iff effect_ok_def)

text \<open>A profiler that fails does not end the process; any other background server ends it.\<close>

lemma background_irrelevant:
  "core_prepare (env\<lparr>ce_background := b\<rparr>) = core_prepare env"
proof -
  have "core_config (env\<lparr>ce_background := b\<rparr>) = core_config env" by (simp add: core_config_def)
  moreover have "core_settings_checks (env\<lparr>ce_background := b\<rparr>) = core_settings_checks env" by (simp add: core_settings_checks_def)
  moreover have "core_load_tls (env\<lparr>ce_background := b\<rparr>) = core_load_tls env" by (intro ext) (simp add: core_load_tls_def)
  moreover have "core_main_listener (env\<lparr>ce_background := b\<rparr>) = core_main_listener env"
    by (intro ext) (simp add: core_main_listener_def calculation(3))
  moreover have "core_permissive_listener (env\<lparr>ce_background := b\<rparr>) = core_permissive_listener env"
    by (intro ext) (simp add: core_permissive_listener_def calculation(3))
  moreover have "core_health (env\<lparr>ce_background := b\<rparr>) = core_health env" by (simp add: core_health_def)
  ultimately show ?thesis by (simp add: core_prepare_def)
qed

theorem profiler_failure_is_survived:
  "core_boot (env\<lparr>ce_background := xs @ (Pprof, r) # ys\<rparr>) = core_boot (env\<lparr>ce_background := xs @ ys\<rparr>)"
proof -
  have p: "background_return Pprof r = None" by (cases r) simp_all
  have "background_fatal (xs @ (Pprof, r) # ys) = background_fatal (xs @ ys)"
    by (induction xs) (auto simp: p split: option.split)
  then have "core_serve (env\<lparr>ce_background := xs @ (Pprof, r) # ys\<rparr>) = core_serve (env\<lparr>ce_background := xs @ ys\<rparr>)"
    by (intro ext) (simp add: core_serve_def core_deferred_def cong: option.case_cong)
  then show ?thesis by (simp only: core_boot_def background_irrelevant)
qed

end
