(* ===== verification/SidecarBoot.thy ===== *)
theory SidecarBoot
  imports Boot SidecarMain
begin

text \<open>
  \<open>main\<close> of \<open>services/sidecar/main.go\<close> as a trace of effects; \<open>SidecarMain.sidecar_main\<close> is the
  specification.
\<close>

record sidecar_env =
  se_getenv :: "string \<Rightarrow> string"
  se_tracing :: "go_error option"
  se_tls :: "string \<Rightarrow> string \<Rightarrow> string \<Rightarrow> go_error option"
  se_dial :: "string \<Rightarrow> go_error option"
  se_routes :: "string \<Rightarrow> go_error + string set"
  se_listen :: "string \<Rightarrow> go_error option"
  se_served :: go_error   \<comment> \<open>\<open>ListenAndServe\<close> returns an error always, when it returns\<close>

definition sidecar_transport :: "sidecar_env \<Rightarrow> unit boot" where
  "sidecar_transport env =
    (let tlsCertPath = se_getenv env ''RATECAP_TLS_CERT_PATH''; tlsKeyPath = se_getenv env ''RATECAP_TLS_KEY_PATH'';
         tlsCAPath = se_getenv env ''RATECAP_TLS_CA_PATH''
     in if se_getenv env ''RATECAP_SHARED_SECRET'' = '''' then fatal (''RATECAP_SHARED_SECRET must be set'' @ em_dash @
          ''ratecap-sidecar refuses to start without gRPC authentication configured'')
        else if EnvVarsPartiallySet tlsCertPath tlsKeyPath tlsCAPath then
          fatal ''RATECAP_TLS_CERT_PATH, RATECAP_TLS_KEY_PATH, and RATECAP_TLS_CA_PATH must be set together or not at all''
        else if tlsCertPath \<noteq> '''' then attempt LoadTLS ''failed to load TLS config: '' (se_tls env tlsCertPath tlsKeyPath tlsCAPath)
        else yields ())"

definition sidecar_dial :: "sidecar_env \<Rightarrow> string boot" where
  "sidecar_dial env =
    (let coreAddr = or_default (se_getenv env ''RATECAP_CORE_ADDR'') ''localhost:9090'' in
     boot_bind (attempt (DialCore coreAddr) (''failed to connect to ratecap-core at '' @ coreAddr @ '': '') (se_dial env coreAddr)) (\<lambda>_.
     yields coreAddr))"

definition sidecar_routes :: "sidecar_env \<Rightarrow> string set option boot" where
  "sidecar_routes env =
    (let criticalRoutesPath = se_getenv env ''RATECAP_CRITICAL_ROUTES_PATH'' in
     if criticalRoutesPath = '''' then yields None
     else (case se_routes env criticalRoutesPath of
       Inl err \<Rightarrow> fatal (''failed to load critical routes from '' @ criticalRoutesPath @ '': '' @ err)
     | Inr rs \<Rightarrow> boot_bind (perform [WatchFile criticalRoutesPath]) (\<lambda>_. yields (Some rs))))"

text \<open>The server is in the foreground; its bind error is an error of \<open>ListenAndServe\<close> as well.\<close>

definition sidecar_serve :: "sidecar_env \<Rightarrow> unit boot" where
  "sidecar_serve env =
    (let listenAddr = or_default (se_getenv env ''RATECAP_SIDECAR_ADDR'') '':8080'' in
     boot_bind (attempt (Listen listenAddr) ''sidecar http server failed: '' (se_listen env listenAddr)) (\<lambda>_.
     boot_bind (perform [Serve Http listenAddr]) (\<lambda>_.
     fatal (''sidecar http server failed: '' @ se_served env))))"

definition sidecar_prepare :: "(string \<Rightarrow> dbl option) \<Rightarrow> int \<Rightarrow> sidecar_env \<Rightarrow> sidecar_start boot" where
  "sidecar_prepare ParseFloat now env =
    (let getenv = se_getenv env in
    boot_bind (attempt InitTracing ''failed to initialize OpenTelemetry: '' (se_tracing env)) (\<lambda>_.
    boot_bind (sidecar_transport env) (\<lambda>_.
    boot_bind (sidecar_dial env) (\<lambda>coreAddr.
    boot_bind (sidecar_routes env) (\<lambda>criticalRoutes.
    boot_bind (explain ''failed to start pprof server: ''
      (boot_maybePprof (se_listen env) (sidecar_resolvePprofEnabled (getenv ''RATECAP_PPROF_ENABLED'')) ''127.0.0.1:6061'')) (\<lambda>_.
    yields \<lparr>sm_coreAddr = coreAddr, sm_sharedSecret = getenv ''RATECAP_SHARED_SECRET'',
      sm_adminSecret = getenv ''RATECAP_ADMIN_SECRET'', sm_mTLS = (getenv ''RATECAP_TLS_CERT_PATH'' \<noteq> ''''),
      sm_shedder = NewShedderWithRamp (resolveMaxInflight (getenv ''RATECAP_MAX_INFLIGHT_REQUESTS'') 500)
        (resolveRampStartPct (getenv ''RATECAP_SHED_RAMP_START_PCT'') 100),
      sm_cache = NewCache, sm_routes = criticalRoutes,
      sm_pprof = maybeStartPprofServer (sidecar_resolvePprofEnabled (getenv ''RATECAP_PPROF_ENABLED'')) ''127.0.0.1:6061'',
      sm_throttle = th_New (resolveMaxRPS ParseFloat (getenv ''RATECAP_SIDECAR_MAX_RPS'') (Fin 1000)) now,
      sm_listenAddr = or_default (getenv ''RATECAP_SIDECAR_ADDR'') '':8080''\<rparr>))))))"

definition sidecar_boot :: "(string \<Rightarrow> dbl option) \<Rightarrow> int \<Rightarrow> sidecar_env \<Rightarrow> unit boot" where
  "sidecar_boot ParseFloat now env = boot_bind (sidecar_prepare ParseFloat now env) (\<lambda>_. sidecar_serve env)"

section \<open>A run against the specification\<close>

definition sidecar_allowed :: "sidecar_start \<Rightarrow> service \<times> string \<Rightarrow> bool" where
  "sidecar_allowed st sa \<longleftrightarrow> sa = (Http, sm_listenAddr st) \<or> (fst sa = Pprof \<and> sm_pprof st = Some (snd sa))"

lemma sidecar_routes_Inr:
  "sidecar_routes env = (es, Inr rs) \<Longrightarrow> served es = [] \<and>
    (let p = se_getenv env ''RATECAP_CRITICAL_ROUTES_PATH'' in
     (if p = '''' then Inr None
      else (case se_routes env p of Inl err \<Rightarrow> Inl err | Inr rs \<Rightarrow> Inr (Some rs))) = Inr rs)"
  by (auto simp: sidecar_routes_def boot_simps Let_def elim!: boot_bind_Inr split: if_split_asm sum.split_asm)

lemma sidecar_transport_Inr:
  "sidecar_transport env = (es, Inr u) \<Longrightarrow> served es = [] \<and> se_getenv env ''RATECAP_SHARED_SECRET'' \<noteq> '''' \<and>
    \<not> EnvVarsPartiallySet (se_getenv env ''RATECAP_TLS_CERT_PATH'') (se_getenv env ''RATECAP_TLS_KEY_PATH'')
        (se_getenv env ''RATECAP_TLS_CA_PATH'') \<and>
    (if se_getenv env ''RATECAP_TLS_CERT_PATH'' \<noteq> '''' then se_tls env (se_getenv env ''RATECAP_TLS_CERT_PATH'')
       (se_getenv env ''RATECAP_TLS_KEY_PATH'') (se_getenv env ''RATECAP_TLS_CA_PATH'') else None) = None"
  by (auto simp: sidecar_transport_def boot_simps Let_def split: if_split_asm)

lemma sidecar_dial_Inr:
  "sidecar_dial env = (es, Inr a) \<Longrightarrow> served es = [] \<and> a = or_default (se_getenv env ''RATECAP_CORE_ADDR'') ''localhost:9090'' \<and>
    se_dial env a = None"
  by (auto simp: sidecar_dial_def boot_simps Let_def elim!: boot_bind_Inr)

lemma boot_maybePprof_Inr:
  "boot_maybePprof listen enabled addr = (es, Inr u) \<Longrightarrow> served es = (if enabled then [(Pprof, addr)] else [])"
  by (auto simp: boot_maybePprof_def startPprofServer_def boot_simps elim!: boot_bind_Inr split: if_split_asm)

definition sidecar_start_of :: "(string \<Rightarrow> dbl option) \<Rightarrow> int \<Rightarrow> sidecar_env \<Rightarrow> string set option \<Rightarrow> sidecar_start" where
  "sidecar_start_of ParseFloat now env rs =
    (let getenv = se_getenv env in
     \<lparr>sm_coreAddr = or_default (getenv ''RATECAP_CORE_ADDR'') ''localhost:9090'', sm_sharedSecret = getenv ''RATECAP_SHARED_SECRET'',
      sm_adminSecret = getenv ''RATECAP_ADMIN_SECRET'', sm_mTLS = (getenv ''RATECAP_TLS_CERT_PATH'' \<noteq> ''''),
      sm_shedder = NewShedderWithRamp (resolveMaxInflight (getenv ''RATECAP_MAX_INFLIGHT_REQUESTS'') 500)
        (resolveRampStartPct (getenv ''RATECAP_SHED_RAMP_START_PCT'') 100),
      sm_cache = NewCache, sm_routes = rs,
      sm_pprof = maybeStartPprofServer (sidecar_resolvePprofEnabled (getenv ''RATECAP_PPROF_ENABLED'')) ''127.0.0.1:6061'',
      sm_throttle = th_New (resolveMaxRPS ParseFloat (getenv ''RATECAP_SIDECAR_MAX_RPS'') (Fin 1000)) now,
      sm_listenAddr = or_default (getenv ''RATECAP_SIDECAR_ADDR'') '':8080''\<rparr>)"

lemma sidecar_main_of_parts:
  assumes "sidecar_transport env = (xs, Inr u)" "sidecar_dial env = (ys, Inr addr)" "sidecar_routes env = (zs, Inr rs)"
  shows "sidecar_main (se_tls env) (se_dial env) (se_routes env) ParseFloat (se_getenv env) now =
    Inr (sidecar_start_of ParseFloat now env rs)"
  using sidecar_transport_Inr[OF assms(1)] sidecar_dial_Inr[OF assms(2)] sidecar_routes_Inr[OF assms(3)]
  unfolding sidecar_main_def sidecar_start_of_def Let_def by (elim conjE) (simp split: if_split_asm sum.split_asm)

definition sidecar_effect_ok :: "(string \<Rightarrow> dbl option) \<Rightarrow> int \<Rightarrow> sidecar_env \<Rightarrow> boot_effect \<Rightarrow> bool" where
  "sidecar_effect_ok ParseFloat now env e =
    (case e of
       Serve s a \<Rightarrow> (\<exists>st. sidecar_main (se_tls env) (se_dial env) (se_routes env) ParseFloat (se_getenv env) now = Inr st \<and>
         sidecar_allowed st (s, a))
     | RunDeferred d \<Rightarrow> False
     | _ \<Rightarrow> True)"

lemma sidecar_effect_ok_plain [simp]:
  "sidecar_effect_ok ParseFloat now env InitTracing" "sidecar_effect_ok ParseFloat now env (WatchFile p)"
  "sidecar_effect_ok ParseFloat now env LoadTLS" "sidecar_effect_ok ParseFloat now env (Listen a)"
  "sidecar_effect_ok ParseFloat now env (DialCore a)"
  by (simp_all add: sidecar_effect_ok_def)

lemma sidecar_emits_quiet:
  "emits (sidecar_effect_ok ParseFloat now env) (sidecar_transport env)"
  "emits (sidecar_effect_ok ParseFloat now env) (sidecar_dial env)"
  "emits (sidecar_effect_ok ParseFloat now env) (sidecar_routes env)"
  by (auto simp: sidecar_transport_def sidecar_dial_def sidecar_routes_def Let_def split: sum.split)

lemma sidecar_emits_rest:
  assumes "sidecar_transport env = (xs, Inr u)" "sidecar_dial env = (ys, Inr addr)" "sidecar_routes env = (zs, Inr rs)"
  shows "emits (sidecar_effect_ok ParseFloat now env)
      (boot_maybePprof (se_listen env) (sidecar_resolvePprofEnabled (se_getenv env ''RATECAP_PPROF_ENABLED'')) ''127.0.0.1:6061'')"
    "emits (sidecar_effect_ok ParseFloat now env) (sidecar_serve env)"
  using sidecar_main_of_parts[OF assms, of ParseFloat now]
  by (auto simp: boot_maybePprof_def startPprofServer_def sidecar_serve_def sidecar_effect_ok_def sidecar_allowed_def
      sidecar_start_of_def maybeStartPprofServer_def Let_def)

lemma sidecar_boot_effects: "emits (sidecar_effect_ok ParseFloat now env) (sidecar_boot ParseFloat now env)"
proof -
  have "emits (sidecar_effect_ok ParseFloat now env) (sidecar_prepare ParseFloat now env)"
    unfolding sidecar_prepare_def Let_def emits_bind
    using sidecar_emits_rest(1) by (simp add: sidecar_emits_quiet)
  moreover have "emits (sidecar_effect_ok ParseFloat now env) (sidecar_serve env)"
    if prep: "sidecar_prepare ParseFloat now env = (es, Inr st)" for es st
    using prep sidecar_emits_rest(2) unfolding sidecar_prepare_def Let_def by (auto elim!: boot_bind_Inr)
  ultimately show ?thesis by (simp add: sidecar_boot_def)
qed

lemma sidecar_boot_runs:
  assumes "sidecar_main (se_tls env) (se_dial env) (se_routes env) ParseFloat (se_getenv env) now = Inr st"
    "se_tracing env = None" "\<And>a. se_listen env a = None"
  shows "served (fst (sidecar_boot ParseFloat now env)) =
    (case sm_pprof st of None \<Rightarrow> [] | Some a \<Rightarrow> [(Pprof, a)]) @ [(Http, sm_listenAddr st)]"
proof -
  have t: "sidecar_transport env = ((if se_getenv env ''RATECAP_TLS_CERT_PATH'' \<noteq> '''' then [LoadTLS] else []), Inr ())"
    using assms(1) by (auto simp: sidecar_main_def sidecar_transport_def attempt_def yields_def Let_def
        split: if_split_asm option.split_asm)
  have d: "sidecar_dial env = ([DialCore (or_default (se_getenv env ''RATECAP_CORE_ADDR'') ''localhost:9090'')],
      Inr (or_default (se_getenv env ''RATECAP_CORE_ADDR'') ''localhost:9090''))"
    using assms(1) by (auto simp: sidecar_main_def sidecar_dial_def attempt_def yields_def boot_bind_def Let_def
        split: if_split_asm option.split_asm)
  obtain rs where r: "sidecar_routes env =
      ((if se_getenv env ''RATECAP_CRITICAL_ROUTES_PATH'' = '''' then [] else [WatchFile (se_getenv env ''RATECAP_CRITICAL_ROUTES_PATH'')]), Inr rs)"
    using assms(1) by (auto simp: sidecar_main_def sidecar_routes_def perform_def yields_def boot_bind_def Let_def
        split: if_split_asm option.split_asm sum.split_asm)
  have "st = sidecar_start_of ParseFloat now env rs" using sidecar_main_of_parts[OF t d r] assms(1) by simp
  then show ?thesis
    by (simp add: sidecar_boot_def sidecar_prepare_def t d r Let_def assms(2,3) attempt_def boot_bind_def perform_def yields_def
        boot_maybePprof_def startPprofServer_def explain_def sidecar_serve_def sidecar_start_of_def maybeStartPprofServer_def fatal_def)
qed

text \<open>
  C40: A sidecar starts a service only after its secret was found, its certificates loaded where they are
  configured, its connection made and its critical routes read, on the addresses these decide.  Its
  \<open>main\<close> never returns: it ends in a fatal error, so that no deferred function ever runs, neither the
  flush of the spans nor the stopping of a watcher.  If nothing fails it serves its routes, last.
\<close>

theorem sidecar_never_returns:
  assumes "sidecar_boot ParseFloat now env = (es, r)"
  shows "isl r \<and> (\<forall>d. RunDeferred d \<notin> set es) \<and>
    (\<forall>s a. (s, a) \<in> set (served es) \<longrightarrow>
      (\<exists>st. sidecar_main (se_tls env) (se_dial env) (se_routes env) ParseFloat (se_getenv env) now = Inr st \<and> sidecar_allowed st (s, a))) \<and>
    (se_tracing env = None \<and> (\<forall>a. se_listen env a = None) \<longrightarrow>
      (\<forall>st. sidecar_main (se_tls env) (se_dial env) (se_routes env) ParseFloat (se_getenv env) now = Inr st \<longrightarrow>
        served es = (case sm_pprof st of None \<Rightarrow> [] | Some a \<Rightarrow> [(Pprof, a)]) @ [(Http, sm_listenAddr st)]))"
proof (intro conjI)
  have ok: "list_all (sidecar_effect_ok ParseFloat now env) es"
    using sidecar_boot_effects[of ParseFloat now env] assms by (simp add: emits_def)
  show "\<forall>d. RunDeferred d \<notin> set es" using ok by (auto simp: list_all_iff sidecar_effect_ok_def)
  show "\<forall>s a. (s, a) \<in> set (served es) \<longrightarrow>
      (\<exists>st. sidecar_main (se_tls env) (se_dial env) (se_routes env) ParseFloat (se_getenv env) now = Inr st \<and> sidecar_allowed st (s, a))"
    using ok by (auto simp: list_all_iff sidecar_effect_ok_def in_served)
  show "se_tracing env = None \<and> (\<forall>a. se_listen env a = None) \<longrightarrow>
      (\<forall>st. sidecar_main (se_tls env) (se_dial env) (se_routes env) ParseFloat (se_getenv env) now = Inr st \<longrightarrow>
        served es = (case sm_pprof st of None \<Rightarrow> [] | Some a \<Rightarrow> [(Pprof, a)]) @ [(Http, sm_listenAddr st)])"
    using sidecar_boot_runs[of env ParseFloat now] assms by auto
  show "isl r" using assms
    by (cases r) (auto simp: sidecar_boot_def sidecar_serve_def Let_def boot_simps elim!: boot_bind_Inr)
qed

definition demo_sidecar_env :: sidecar_env where
  "demo_sidecar_env = \<lparr>se_getenv = (\<lambda>v. if v = ''RATECAP_SHARED_SECRET'' then ''s'' else ''''), se_tracing = None,
     se_tls = (\<lambda>_ _ _. None), se_dial = (\<lambda>_. None), se_routes = (\<lambda>_. Inr {}), se_listen = (\<lambda>_. None),
     se_served = ''closed''\<rparr>"

theorem sidecar_never_returns_witness:
  "\<exists>es err. sidecar_boot (\<lambda>_. None) 0 demo_sidecar_env = (es, Inl err) \<and> served es = [(Http, '':8080'')]"
proof -
  obtain es r where b: "sidecar_boot (\<lambda>_. None) 0 demo_sidecar_env = (es, r)" by fastforce
  obtain st where st: "sidecar_main (se_tls demo_sidecar_env) (se_dial demo_sidecar_env) (se_routes demo_sidecar_env)
      (\<lambda>_. None) (se_getenv demo_sidecar_env) 0 = Inr st" "sm_pprof st = None" "sm_listenAddr st = '':8080''"
    by (simp add: demo_sidecar_env_def sidecar_main_def EnvVarsPartiallySet_iff Let_def or_default_def
        maybeStartPprofServer_def sidecar_resolvePprofEnabled_def)
  have "se_tracing demo_sidecar_env = None \<and> (\<forall>a. se_listen demo_sidecar_env a = None)" by (simp add: demo_sidecar_env_def)
  then show ?thesis using sidecar_never_returns[OF b] st b by (cases r) auto
qed

end
