(* ===== verification/SidecarRecords.thy ===== *)
theory SidecarRecords
  imports SidecarProps
begin

text \<open>
  What a sidecar records of its decisions: the counter, the log and the histogram of latencies tell the
  same story.  And the gauge of requests in flight, which its goroutines set from a value read before.
\<close>

section \<open>Counter, log and histogram\<close>

definition records_agree :: "'u sidecar \<Rightarrow> bool" where
  "records_agree s \<longleftrightarrow>
    (\<forall>t a. decisions (sc_metrics s) (t, a) = length (filter (\<lambda>e. log_tier e = t \<and> log_action e = a) (sc_log s))) \<and>
    (\<forall>t. length (latencies (sc_metrics s) t) = length (filter (\<lambda>e. log_tier e = t) (sc_log s)))"

named_theorems sidecar_record

lemma metric_fields [sidecar_record]:
  "decisions (RecordDecision t a m) = inc (decisions m) (t, a)" "latencies (RecordDecision t a m) = latencies m"
  "decisions (RecordShadowWouldReject t m) = decisions m" "latencies (RecordShadowWouldReject t m) = latencies m"
  "decisions (SetWorkerInFlight v m) = decisions m" "latencies (SetWorkerInFlight v m) = latencies m"
  "decisions (RecordUpstreamError e m) = decisions m" "latencies (RecordUpstreamError e m) = latencies m"
  "decisions (RecordReleaseResult x m) = decisions m" "latencies (RecordReleaseResult x m) = latencies m"
  "decisions (RecordDecisionLatency t d m) = decisions m"
  "latencies (RecordDecisionLatency t d m) = (latencies m)(t := latencies m t @ [d])"
  by (simp_all add: RecordDecision_def RecordShadowWouldReject_def SetWorkerInFlight_def RecordUpstreamError_def
      RecordReleaseResult_def RecordDecisionLatency_def)

lemma decision_log_log [sidecar_record]:
  "sc_log (decision_log t k a p l s) = sc_log s @ [\<lparr>log_tier = t, log_key = k, log_action = a,
     log_priority = priorityLabel p, log_latency_ms = l sdiv 1000000\<rparr>]"
  by (simp add: decision_log_def)

text \<open>A decision: counted, logged and timed, with other metrics touched on the way.\<close>

definition decided :: "string \<Rightarrow> string \<Rightarrow> string \<Rightarrow> Priority \<Rightarrow> int \<Rightarrow> int \<Rightarrow> (sidecar_metrics \<Rightarrow> sidecar_metrics) \<Rightarrow>
    'u sidecar \<Rightarrow> 'u sidecar" where
  "decided t k a p l l' f s = upd_metrics (RecordDecisionLatency t l') (decision_log t k a p l (upd_metrics f s))"

lemma decided_agree:
  assumes "records_agree s" "\<And>m. decisions (f m) = inc (decisions m) (t, a)" "\<And>m. latencies (f m) = latencies m"
  shows "records_agree (decided t k a p l l' f s)"
  using assms unfolding records_agree_def decided_def by (auto simp: sidecar_record inc_def)

lemma decided_log:
  "sc_log (decided t k a p l l' f s) = sc_log s @ [\<lparr>log_tier = t, log_key = k, log_action = a,
     log_priority = priorityLabel p, log_latency_ms = l sdiv 1000000\<rparr>]"
  by (simp add: decided_def sidecar_record)

text \<open>What leaves the records alone.\<close>

definition same_records :: "'u sidecar \<Rightarrow> 'u sidecar \<Rightarrow> bool" where
  "same_records s s' \<longleftrightarrow> sc_log s' = sc_log s \<and> decisions (sc_metrics s') = decisions (sc_metrics s) \<and>
    latencies (sc_metrics s') = latencies (sc_metrics s)"

lemma same_records_agree: "same_records s s' \<Longrightarrow> records_agree s' = records_agree s"
  by (simp add: same_records_def records_agree_def)

text \<open>The entry a decision leaves.\<close>

definition entry_for :: "http_request \<Rightarrow> Priority \<Rightarrow> string \<Rightarrow> log_entry \<Rightarrow> bool" where
  "entry_for r p t e \<longleftrightarrow> log_tier e = t \<and> log_key e = rq_Query r ''key'' \<and> log_priority e = priorityLabel p"

definition adds :: "http_request \<Rightarrow> Priority \<Rightarrow> string list \<Rightarrow> 'u sidecar \<Rightarrow> 'u sidecar \<Rightarrow> bool" where
  "adds r p ts s s' \<longleftrightarrow> (records_agree s \<longrightarrow> records_agree s') \<and>
    (\<exists>es. sc_log s' = sc_log s @ es \<and> list_all2 (entry_for r p) ts es)"

lemma adds_same: "same_records s s' \<Longrightarrow> adds r p [] s s'"
  using same_records_agree[of s s'] by (simp add: adds_def same_records_def)

lemma adds_trans: "adds r p ts s s' \<Longrightarrow> adds r p us s' s'' \<Longrightarrow> adds r p (ts @ us) s s''"
  unfolding adds_def by (metis append_assoc list_all2_appendI)

lemma adds_decided:
  "k = rq_Query r ''key'' \<Longrightarrow> (\<And>m. decisions (f m) = inc (decisions m) (t, a)) \<Longrightarrow> (\<And>m. latencies (f m) = latencies m) \<Longrightarrow>
    adds r p [t] s (decided t k a p l l' f s)"
  using decided_agree[of s f t a k p l l'] by (simp add: adds_def decided_log entry_for_def)

text \<open>The tiers a request to \<open>/check\<close> records, in order.\<close>

definition over_capacity :: "Priority \<Rightarrow> check_env \<Rightarrow> http_request \<Rightarrow> 'u sidecar \<Rightarrow> bool" where
  "over_capacity dp env r s \<longleftrightarrow> check_priority dp r s \<noteq> Critical \<and> \<not> fst (Allow (sc_shedder s) (random_draw env))"

definition recorded_tiers :: "'u rpc_client \<Rightarrow> Priority \<Rightarrow> check_env \<Rightarrow> http_request \<Rightarrow> 'u sidecar \<Rightarrow> string list" where
  "recorded_tiers rpc dp env r s =
    (if rq_Method r \<noteq> ''GET'' \<or> rq_Query r ''key'' = '''' then []
     else if cached_denial (rq_Query r ''key'') (t_query env) s then [''negative_cache'']
     else (if over_capacity dp env r s then [''worker_shedder''] else []) @
       (if over_capacity dp env r s \<and> sc_shadow_env s \<noteq> ''true'' then []
        else (case fst (rpc_Check rpc (core_question dp r s) (sc_upstream s)) of
          Inl err \<Rightarrow> [] | Inr resp \<Rightarrow> [crs_Tier resp])))"

lemma upstream_adds:
  assumes "p = check_priority dp r s0" "sc_upstream s = u" "k = rq_Query r ''key''"
  shows "adds r p (case fst (rpc_Check rpc (core_question dp r s0) u) of Inl err \<Rightarrow> [] | Inr resp \<Rightarrow> [crs_Tier resp])
    s (snd (serve_upstream rpc env r k p s))"
proof -
  have q: "\<lparr>crq_Key = k, crq_Cost = int32 (resolveCost (rq_Query r ''cost'')),
      crq_SkipReservations = (rq_Query r ''skip_reservations'' = ''true''),
      crq_Priority = (if p = Critical then CRITICAL else SHEDDABLE)\<rparr> = core_question dp r s0"
    using assms by (simp add: core_question_def)
  obtain x u' where x: "rpc_Check rpc (core_question dp r s0) u = (x, u')" by fastforce
  show ?thesis
  proof (cases x)
    case (Inl err)
    then have "same_records s (snd (serve_upstream rpc env r k p s))"
      using x assms(2) q by (simp add: serve_upstream_def Let_def same_records_def sidecar_record)
    then show ?thesis using x Inl adds_same by simp
  next
    case (Inr resp)
    let ?s1 = "s\<lparr>sc_upstream := u'\<rparr>"
    let ?d = "decided (crs_Tier resp) k (actionLabel (crs_Action resp)) p (t_core_log env - t_start env)
      (t_core_observe env - t_start env) (RecordDecision (crs_Tier resp) (actionLabel (crs_Action resp))) ?s1"
    have "same_records s ?s1" by (simp add: same_records_def)
    moreover have "adds r p [crs_Tier resp] ?s1 ?d" using assms(3) by (intro adds_decided) (simp_all add: sidecar_record)
    moreover have "same_records ?d (snd (serve_upstream rpc env r k p s))"
      using x assms(2) q Inr
      by (auto simp: serve_upstream_def Let_def same_records_def sidecar_record decided_def)
    ultimately have "adds r p ([] @ [crs_Tier resp] @ []) s (snd (serve_upstream rpc env r k p s))"
      by (intro adds_trans[OF adds_same] adds_trans[OF _ adds_same])
    then show ?thesis using x Inr by simp
  qed
qed

lemma shed_adds:
  assumes serve: "\<And>x. sc_upstream x = sc_upstream s \<Longrightarrow> adds r p us x (snd (serve x))" and k: "k = rq_Query r ''key''"
  shows "adds r p
    ((if p \<noteq> Critical \<and> \<not> fst (Allow (sc_shedder s) (random_draw env)) then [''worker_shedder''] else []) @
     (if p \<noteq> Critical \<and> \<not> fst (Allow (sc_shedder s) (random_draw env)) \<and> sc_shadow_env s \<noteq> ''true'' then [] else us))
    s (snd (serve_shed env k p serve s))"
proof (cases "p = Critical")
  case True
  then show ?thesis using serve[of s] by (simp add: serve_shed_def)
next
  case p: False
  obtain b sh where a: "Allow (sc_shedder s) (random_draw env) = (b, sh)" by fastforce
  show ?thesis
  proof (cases b)
    case True
    let ?s1 = "upd_metrics (SetWorkerInFlight (InFlight sh)) (s\<lparr>sc_shedder := sh\<rparr>)"
    have "adds r p ([] @ us @ []) s (snd (serve_shed env k p serve s))"
    proof (rule adds_trans[OF adds_same adds_trans[OF serve adds_same]])
      show "same_records s ?s1" by (simp add: same_records_def sidecar_record)
      show "same_records (snd (serve ?s1)) (snd (serve_shed env k p serve s))"
        using p True a by (auto simp: serve_shed_def Let_def same_records_def sidecar_record split: prod.split)
    qed simp
    then show ?thesis using p True a by simp
  next
    case b: False
    let ?d = "\<lambda>f. decided ''worker_shedder'' k ''reject_503'' p (t_local_log env - t_start env) (t_local_observe env - t_start env) f
      (s\<lparr>sc_shedder := sh\<rparr>)"
    have d: "adds r p [''worker_shedder''] s (?d f)"
      if "\<And>m. decisions (f m) = inc (decisions m) (''worker_shedder'', ''reject_503'')" "\<And>m. latencies (f m) = latencies m" for f
      using adds_trans[OF adds_same[of s "s\<lparr>sc_shedder := sh\<rparr>"] adds_decided[OF k that, where p = p]]
      by (simp add: same_records_def)
    show ?thesis
    proof (cases "sc_shadow_env s = ''true''")
      case True
      let ?f = "\<lambda>m. SetWorkerInFlight (InFlight sh) (RecordShadowWouldReject ''worker_shedder'' (RecordDecision ''worker_shedder'' ''reject_503'' m))"
      have "snd (serve_shed env k p serve s) = snd (serve (?d ?f))"
        using p b a True by (simp add: serve_shed_def GlobalOverrideEnabled_def Let_def decided_def)
      moreover have "adds r p ([''worker_shedder''] @ us) s (snd (serve (?d ?f)))"
        by (intro adds_trans[OF d serve]) (simp_all add: sidecar_record decided_def)
      ultimately show ?thesis using p b a True by simp
    next
      case False
      let ?f = "\<lambda>m. SetWorkerInFlight (InFlight sh) (RecordDecision ''worker_shedder'' ''reject_503'' m)"
      have "snd (serve_shed env k p serve s) = ?d ?f"
        using p b a False by (simp add: serve_shed_def GlobalOverrideEnabled_def Let_def decided_def)
      moreover have "adds r p [''worker_shedder''] s (?d ?f)" by (intro d) (simp_all add: sidecar_record)
      ultimately show ?thesis using p b a False by simp
    qed
  qed
qed

lemma denied_adds:
  "k = rq_Query r ''key'' \<Longrightarrow> adds r p [''negative_cache''] s (snd (serve_denied env k p remaining s))"
  using adds_decided[of k r "RecordDecision ''negative_cache'' ''reject_429''" "''negative_cache''" "''reject_429''" p s
      "t_local_log env - t_start env" "t_local_observe env - t_start env"]
  by (simp add: serve_denied_def decided_def Let_def sidecar_record)

text \<open>
  C23: A sidecar counts, logs and times each of its decisions exactly once.  If the counter, the log and
  the histogram agree before a request to \<open>/check\<close> they agree after it, for every tier and action; the
  request adds entries under its own key and priority for exactly the tiers that decided: the cache
  alone, Tier 4 alone when it sheds, Tier 4 and then core in global shadow mode, core otherwise, and
  nothing for a question core did not answer or a request that was malformed.  A request to
  \<open>/release\<close> records no decision.
\<close>

theorem decisions_recorded_once:
  assumes "records_agree s"
  shows "records_agree (snd (serve_check rpc dp env r s)) \<and>
    (\<exists>es. sc_log (snd (serve_check rpc dp env r s)) = sc_log s @ es \<and>
      list_all2 (entry_for r (check_priority dp r s)) (recorded_tiers rpc dp env r s) es) \<and>
    same_records s (snd (serve_release rpc r s))"
proof -
  let ?k = "rq_Query r ''key''" and ?p = "check_priority dp r s"
  have go: "adds r ?p ((if over_capacity dp env r s then [''worker_shedder''] else []) @
      (if over_capacity dp env r s \<and> sc_shadow_env s \<noteq> ''true'' then []
       else (case fst (rpc_Check rpc (core_question dp r s) (sc_upstream s)) of Inl err \<Rightarrow> [] | Inr resp \<Rightarrow> [crs_Tier resp])))
      x (snd (serve_shed env ?k ?p (serve_upstream rpc env r ?k ?p) x))"
    if x: "sc_upstream x = sc_upstream s" "sc_shedder x = sc_shedder s" "sc_shadow_env x = sc_shadow_env s" for x
    using shed_adds[of x r ?p _ "serve_upstream rpc env r ?k ?p" ?k env, OF upstream_adds[of ?p dp r s]] x
    by (simp add: over_capacity_def)
  have "adds r ?p (recorded_tiers rpc dp env r s) s (snd (serve_check rpc dp env r s))"
  proof (cases "rq_Method r \<noteq> ''GET'' \<or> ?k = ''''")
    case True
    then show ?thesis by (auto simp: recorded_tiers_def serve_check_def Let_def same_records_def intro!: adds_same)
  next
    case ok: False
    show ?thesis
    proof (cases "sc_cache s")
      case None
      then show ?thesis using ok go[of s]
        by (simp add: recorded_tiers_def serve_check_def cached_denial_def check_priority_def Let_def)
    next
      case (Some c)
      obtain dn rem c' where d: "IsDenied ?k (t_query env) c = ((dn, rem), c')" by (metis prod.collapse)
      let ?s1 = "s\<lparr>sc_cache := Some c'\<rparr>"
      have same: "adds r ?p [] s ?s1" by (intro adds_same) (simp add: same_records_def)
      show ?thesis
      proof (cases dn)
        case True
        then show ?thesis using ok Some d adds_trans[OF same denied_adds[of ?k r ?p ?s1 env rem]]
          by (simp add: recorded_tiers_def serve_check_def cached_denial_def check_priority_def Let_def)
      next
        case False
        then show ?thesis using ok Some d adds_trans[OF same go[of ?s1]]
          by (simp add: recorded_tiers_def serve_check_def cached_denial_def check_priority_def Let_def)
      qed
    qed
  qed
  moreover have "same_records s (snd (serve_release rpc r s))"
    by (auto simp: serve_release_def same_records_def sidecar_record Let_def split: option.split sum.split prod.split)
  ultimately show ?thesis using assms by (simp add: adds_def)
qed

theorem decisions_recorded_once_witness:
  "map log_tier (sc_log (snd (serve_check (demo_rpc (Inr (demo_answer P_ALLOW))) Sheddable (demo_env 7) demo_get
     (demo_sidecar 2 ''true'' fmempty [])))) = [''worker_shedder'', ''rate_limiter'']"
proof -
  let ?s = "demo_sidecar 2 ''true'' fmempty ([] :: string list)"
  let ?rpc = "demo_rpc (Inr (demo_answer P_ALLOW))"
  have "records_agree ?s" by (simp add: records_agree_def demo_sidecar_def)
  note recorded = decisions_recorded_once[OF this, of ?rpc Sheddable "demo_env 7" demo_get]
  have "recorded_tiers ?rpc Sheddable (demo_env 7) demo_get ?s = [''worker_shedder'', ''rate_limiter'']"
    by (simp add: recorded_tiers_def demo_get_def demo_sidecar_def demo_env_def demo_rpc_def demo_answer_def cached_denial_def
        over_capacity_def check_priority_def ResolvePriority_def Header_Get_def Contains_def Allow_def IsDenied_def Let_def)
  moreover have "list_all2 (entry_for r p) ts es \<Longrightarrow> map log_tier es = ts" for r p ts es
    by (induction ts es rule: list_all2_induct) (auto simp: entry_for_def)
  moreover have "sc_log ?s = []" by (simp add: demo_sidecar_def)
  ultimately show ?thesis using recorded by auto
qed

section \<open>The gauge of requests in flight\<close>

text \<open>
  The deferred function of a request that Tier 4 counted: it releases, reads the counter and sets the
  gauge.  Each of the three is atomic, the sequence is not.
\<close>

datatype deferred_pc = InHandler | Released | Loaded int | Finished

record gauge_state =
  g_inflight :: int
  g_gauge :: int
  g_pcs :: "deferred_pc list"

inductive gauge_step :: "gauge_state \<Rightarrow> gauge_state \<Rightarrow> bool" where
  release: "i < length (g_pcs g) \<Longrightarrow> g_pcs g ! i = InHandler \<Longrightarrow>
    gauge_step g (g\<lparr>g_inflight := g_inflight g - 1, g_pcs := (g_pcs g)[i := Released]\<rparr>)"
| load: "i < length (g_pcs g) \<Longrightarrow> g_pcs g ! i = Released \<Longrightarrow>
    gauge_step g (g\<lparr>g_pcs := (g_pcs g)[i := Loaded (g_inflight g)]\<rparr>)"
| set_gauge: "i < length (g_pcs g) \<Longrightarrow> g_pcs g ! i = Loaded v \<Longrightarrow>
    gauge_step g (g\<lparr>g_gauge := v, g_pcs := (g_pcs g)[i := Finished]\<rparr>)"

text \<open>Two requests that end at once may leave the gauge at one although none is in flight.\<close>

theorem gauge_may_stay_behind:
  "\<exists>g. gauge_step\<^sup>*\<^sup>* \<lparr>g_inflight = 2, g_gauge = 2, g_pcs = [InHandler, InHandler]\<rparr> g \<and>
    g_pcs g = [Finished, Finished] \<and> g_inflight g = 0 \<and> g_gauge g = 1"
proof -
  let ?g = "\<lambda>n v ps. \<lparr>g_inflight = n, g_gauge = v, g_pcs = ps\<rparr>"
  have 1: "gauge_step (?g 2 2 [InHandler, InHandler]) (?g 1 2 [Released, InHandler])"
    using release[of 0 "?g 2 2 [InHandler, InHandler]"] by simp
  have 2: "gauge_step (?g 1 2 [Released, InHandler]) (?g 1 2 [Loaded 1, InHandler])"
    using load[of 0 "?g 1 2 [Released, InHandler]"] by simp
  have 3: "gauge_step (?g 1 2 [Loaded 1, InHandler]) (?g 0 2 [Loaded 1, Released])"
    using release[of 1 "?g 1 2 [Loaded 1, InHandler]"] by simp
  have 4: "gauge_step (?g 0 2 [Loaded 1, Released]) (?g 0 2 [Loaded 1, Loaded 0])"
    using load[of 1 "?g 0 2 [Loaded 1, Released]"] by simp
  have 5: "gauge_step (?g 0 2 [Loaded 1, Loaded 0]) (?g 0 0 [Loaded 1, Finished])"
    using set_gauge[of 1 "?g 0 2 [Loaded 1, Loaded 0]" 0] by simp
  have 6: "gauge_step (?g 0 0 [Loaded 1, Finished]) (?g 0 1 [Finished, Finished])"
    using set_gauge[of 0 "?g 0 0 [Loaded 1, Finished]" 1] by simp
  have "gauge_step\<^sup>*\<^sup>* (?g 2 2 [InHandler, InHandler]) (?g 0 1 [Finished, Finished])"
    by (rule converse_rtranclp_into_rtranclp, rule 1, rule converse_rtranclp_into_rtranclp, rule 2,
        rule converse_rtranclp_into_rtranclp, rule 3, rule converse_rtranclp_into_rtranclp, rule 4,
        rule converse_rtranclp_into_rtranclp, rule 5, rule r_into_rtranclp, rule 6)
  then show ?thesis by (intro exI[of _ "?g 0 1 [Finished, Finished]"]) simp
qed

end
