(* ===== verification/Spec2Isabelle.thy ===== *)
theory Spec2Isabelle
  imports ConfigProps CliBenchProps CliCommands ClientProps CertProps Tracing CoreBoot SidecarBoot SidecarRecords
begin

text \<open>
  RateCap limits the requests of an application in four tiers.  An application asks the sidecar
  beside it (\<open>services/sidecar\<close>, HTTP) whether a request may go on, most easily with a client library
  (\<open>packages/sdks\<close>); the sidecar sheds by its own load (Tier 4) and asks core (\<open>services/core\<close>, gRPC),
  which runs the request through a token bucket per key (Tier 1), a cap on concurrent requests per
  key (Tier 2) and a cap for the whole fleet with a share reserved for critical requests (Tier 3).
  All state that core processes share is in Redis, and every change of it is one of three Lua scripts
  or a single command.  A request that is admitted holds one slot of Tier 2 and one of Tier 3; each is
  named by a signed token that travels back to the application in response headers and comes back
  to core through \<open>/release\<close>.

  This development translates the Lua scripts and the Go code into functions and step relations and
  proves what the services promise.  Each definition keeps the name of its function in the code
  where HOL allows (methods of two types with one name have a prefix: \<open>cl_Check\<close>, \<open>fs_Check\<close>).

  Conventions.  A Go integer is an \<open>int\<close> in its range, with \<open>int64\<close> and \<open>int32\<close> written where an
  operation may leave it (\<open>Prelude\<close>).  A \<open>float64\<close> or a Lua number is a rational rounded to 53 bits
  after every operation (\<open>GoDouble\<close>); the bounds \<open>small\<close> (at most \<open>2 ^ 52\<close>) on times, costs and bursts
  are where integers are exact doubles, and milliseconds since 1970 stay below them for 140,000
  years.  An \<open>error\<close> is its message, a call that may panic or stay blocked has an \<open>outcome\<close>.  A mutex
  makes the operation it guards atomic; where goroutines, processes or clients interleave, the
  operations are the steps of an inductive relation.  Readings of clocks, random draws, UUIDs,
  failures of the network and the moves of other clients are the environment of a call
  (\<open>call_env\<close> in \<open>RedisStore\<close>, the arguments of a handler in \<open>SidecarProxy\<close>).

  Theories, from the bottom:

  \<^item> \<open>Prelude\<close>, \<open>GoDouble\<close>, \<open>GoStrings\<close>, \<open>GoHttp\<close>: integers, doubles, the parts of \<open>strings\<close>, \<open>strconv\<close> and
    \<open>net/http\<close> the code uses, with the facts about rounding, parsing and headers the rest rests on.
  \<^item> \<open>RedisApi\<close>: the Redis commands as a record of functions and their documented laws as the locale
    \<open>redis_laws\<close>, met by a keyspace in memory.  \<open>LuaScripts\<close>: \<open>store/lua/*.lua\<close>.  \<open>BucketSpec\<close> is the
    abstract token bucket and \<open>ScriptSpec\<close> shows that the scripts implement it, and the abstract set
    of slots, on every Redis that obeys the laws.  \<open>ScriptRuns\<close>: sequences of calls against a Redis
    that others use as well.
  \<^item> \<open>Limiter\<close>, \<open>TokenBucket\<close>, \<open>Concurrency\<close>, \<open>FleetShedder\<close>, \<open>Pipeline\<close>: \<open>services/core/limiter\<close>, over
    the two store interfaces of \<open>Limiter\<close>; the locales \<open>slot_grants\<close> with its extensions \<open>slot_ledger\<close>
    and \<open>taken_ledger\<close>, \<open>rate_ledger\<close> and \<open>accounted_tiers\<close> state what a limiter may rely on and what a
    tier promises.  \<open>RedisStore\<close>: \<open>services/core/store\<close>, which interprets them.  It keeps two ledgers of the
    slots granted to a process: \<open>held_slots\<close>, less those whose release it has asked for, and
    \<open>taken_slots\<close>, less those whose release has succeeded.  Releases are best effort and not repeated;
    where a property speaks of the ledger alone it is the first, and a release that failed leaves its
    slot to the reaper.
  \<^item> \<open>CoreMetrics\<close>, \<open>CoreServer\<close>, \<open>CoreConfig\<close>, \<open>CoreMain\<close>: metrics, the four RPCs with authentication,
    the configuration with its reload, and the start of a core process.
  \<^item> \<open>SlotSafety\<close>, \<open>SlotProps\<close>, \<open>TierProps\<close>, \<open>CapProps\<close>, \<open>CoreProps\<close>, \<open>ConfigProps\<close>: what core guarantees.
    \<open>SlotSafety\<close> has the step relation of all clients of one Redis and the locale \<open>slot_guard\<close>, which
    carries an invariant of the store through the limiters; \<open>SlotProps\<close> extends it with tokens, and its
    locale \<open>slot_failures\<close> follows failing calls through the tiers.
  \<^item> \<open>Shedder\<close>, \<open>NegativeCache\<close>, \<open>SelfThrottle\<close>, \<open>SidecarProxy\<close>, \<open>FileWatcher\<close>, \<open>SidecarAdmin\<close>,
    \<open>SidecarMain\<close>: the packages of \<open>services/sidecar\<close>, each with its lemmas; \<open>FileWatcher\<close> also has
    core's watcher of its configuration, and its locale \<open>last_known_good\<close> is interpreted on the
    critical routes, the configuration and the certificates.  \<open>SidecarProps\<close>: the table of answers
    that the handler of \<open>/check\<close> refines, and what its handlers leave behind; \<open>SidecarRecords\<close>: its
    counters, its decision log and its latencies.
  \<^item> \<open>GoSdk\<close>: \<open>packages/sdks/go\<close>.  \<open>ClientWire\<close>: what a client asks is what core is asked, what core
    answers is what the client reads.  \<open>EndToEnd\<close>: client, sidecar and core together.
  \<^item> \<open>WatcherLife\<close>: the goroutine of a watcher and the \<open>stop\<close> function beside it, as a step relation.
    \<open>GoPath\<close>, \<open>Certificates\<close>, \<open>CertProps\<close>: \<open>filepath.Dir\<close>, the set-up of the watchers and the two packages
    \<open>tlsconfig\<close> with their effects in order, and which clients a listener of core admits; the kinds of
    listener are an instance of \<open>linorder\<close>, the stricter the greater.
  \<^item> \<open>NetAddr\<close>, \<open>Tracing\<close>: \<open>net.SplitHostPort\<close>, \<open>net.ParseIP\<close> and \<open>otelinit\<close>.
  \<^item> \<open>Boot\<close>, \<open>CoreBoot\<close>, \<open>SidecarBoot\<close>: the two \<open>main\<close> functions as traces of effects that end in a fatal error
    or a return; \<open>CoreMain.core_main\<close> and \<open>SidecarMain.sidecar_main\<close>, which say what a start-up decides,
    are their specifications.
  \<^item> \<open>CliHistogram\<close>, \<open>CliBench\<close>, \<open>CliBenchProps\<close>: \<open>ratecapctl bench run\<close> (\<open>cli/cmd\<close>), its histogram over
    doubles and its workers and reporter as the step relation \<open>bench_step\<close>, in which every read and
    write of a shared counter is a step of its own.  \<open>CliCommands\<close>: the other commands.
  \<^item> \<open>SampleApp\<close>: \<open>deploy/sampleapp\<close>.  \<open>ClientProps\<close>: what it and the benchmark leave in core's ledger of
    slots; \<open>with_context\<close> of \<open>GoSdk\<close> is the client of the SDK under a context that may have ended.

  What is shown.  Of Tier 1: the admitted cost of any window is bounded by burst, rate and refunds,
  the stored level stays between zero and the burst, the announced waiting time is enough, and the
  expiry of the Redis key loses no refusal.  Of Tiers 2 and 3: no interleaving of clients exceeds a
  cap, the reserved share is out of reach of other requests where Tier 3 enforces, the slots a process takes are exactly
  the reservations it answers with, every path out of the queue asks for the release of the backlog
  slot, which is free again unless that one call fails, and the queue returns by its deadline.  Of core: which tier fails open and which fails closed, shadow mode,
  requests that skip reservations, signatures, secrets, configuration and reloads, the absence of
  panics.  Of the sidecar: the table of answers, the counter of requests in flight under any
  interleaving, the negative cache, the throttle, the watchers.  Of the whole: a ticket held by the
  client stands for exactly the slots core granted, and its release gives exactly these back; the
  sample application and the benchmark leave the ledger as they found it, unless they release under a
  context that has ended.  Of start-up: whatever
  fails, a service is started only after every check, and only where the checks say; which clients
  each TLS mode admits; spans leave in the clear for local endpoints only; a failed load leaves no
  watcher behind, and a stopped one is silent.  Of the benchmark: a run of a fixed number ends with
  each request issued once, the windows of a timed run add up, and a percentile is the bucket of the
  sample of that rank.  Theorems outside the manifest state behaviour a reader may not expect: a rate
  of zero, a clock that runs backwards, a negative refund, a store error at Tier 3, a Tier 1 in shadow
  mode, events under another name than the file's.

  Loops.  Recursions over lists and over the environment (the poll loop of the queue consumes one
  clock event a turn) are structural, so an execution that runs out of events is \<open>Waiting\<close> and
  \<open>queue_returns\<close> shows that an environment with the deadline in it never leaves it there.  The loop of
  the client over numbered headers has no bound in the code: it is a \<open>partial_function\<close>, and
  \<open>reservations_round_trip\<close> shows that it ends on every answer of a sidecar.  The loop over the groups of
  an IPv6 address recurses on how many still fit, eight at the start.  There is no fuel.

  Parameters.  Code that is not in the repository is an argument: Redis (with the laws of
  \<open>redis_laws\<close>), HMAC and SHA-256 (any function), the YAML and JSON codecs, \<open>strconv.ParseFloat\<close>,
  file contents and file-system events, the transports of gRPC and HTTP (either a call fails or the
  handler runs once; the HTTP coding of headers is modelled; \<open>http_Do\<close> is the exchange whose messages
  arrive, the properties that rest on it alone say so, and \<open>over_network\<close> and \<open>over_grpc\<close> add lost requests
  and answers), X.509 parsing and verification,
  \<open>math.Log\<close> and \<open>math.Pow\<close>, the answers of the operating system to the steps of a start-up.

  Abstractions.  When the deadline of the queue fires is up to the environment, whatever
  \<open>maxQueueWaitMs\<close> is.  A release after the end of its context may succeed or fail.  A fatal message that
  renders values with \<open>%q\<close> is given without its escapes or stops before them.

  Not modelled: the generated protobuf code, the buckets of exported histograms, spans and plain
  log lines, the time-outs of HTTP servers, the declaration of command-line flags, the clients in other
  languages.  The manifest lists every component with what is left out of it.
\<close>

end
